(* ===== verification/Prelude.thy ===== *)
theory Prelude
  imports Main "HOL-Library.Char_ord" "HOL-Library.Word"
begin

text \<open>
  What every component shares: the Rust string operations the sources call
  (\<open>str::lines\<close>, \<open>str::trim\<close>, \<open>str::split_once\<close>, \<open>str::parse\<close>, ...), the result
  type, the string dictionary of NetworkManager (\<open>vpn.data\<close>) and the fact
  collections the component proofs rest on.

  A Rust \<open>char\<close> is a Unicode scalar value; a \<^typ>\<open>char\<close> here is the scalar value
  \<open>of_char c\<close>, so the strings of the model are the Rust strings whose
  characters lie in U+0000 .. U+00FF.  The character classes below
  (\<open>is_control\<close>, \<open>is_whitespace\<close>, \<open>is_alphanumeric\<close>) are those of
  \<open>char::is_control\<close> and so on restricted to that range, so the C1 control
  characters, U+0085 and the no-break space are covered.
\<close>

section \<open>Types and fact collections\<close>

type_synonym str = "string"
type_synonym u32 = "32 word"
type_synonym dict = "string \<rightharpoonup> string"
type_synonym ('e, 'a) result = "'e + 'a"

named_theorems char_class \<open>definitions of the character classes\<close>
named_theorems rust_str \<open>unfolding of the Rust string operations on literals\<close>

section \<open>Character classes\<close>

definition LF :: char where [char_class]: "LF = CHR 0x0A"
definition CR :: char where [char_class]: "CR = CHR 0x0D"
definition TAB :: char where [char_class]: "TAB = CHR 0x09"
definition BACKSLASH :: char where [char_class]: "BACKSLASH = CHR 0x5C"
definition SQUOTE :: char where [char_class]: "SQUOTE = CHR 0x27"
definition DQUOTE :: char where [char_class]: "DQUOTE = CHR 0x22"

definition is_ascii_whitespace :: "char \<Rightarrow> bool" where
  "is_ascii_whitespace c \<longleftrightarrow> c \<in> {CHR 0x09, CHR 0x0A, CHR 0x0C, CHR 0x0D, CHR '' ''}"

definition is_whitespace :: "char \<Rightarrow> bool" where
  "is_whitespace c \<longleftrightarrow>
     c \<in> {CHR 0x09, CHR 0x0A, CHR 0x0B, CHR 0x0C, CHR 0x0D, CHR '' '', CHR 0x85, CHR 0xA0}"

text \<open>The two tests as disjunctions, for evaluation.\<close>

lemma whitespace_code [code]:
  "is_ascii_whitespace c \<longleftrightarrow>
     c = CHR '' '' \<or> c = CHR 0x09 \<or> c = CHR 0x0A \<or> c = CHR 0x0C \<or> c = CHR 0x0D"
  "is_whitespace c \<longleftrightarrow>
     c = CHR '' '' \<or> c = CHR 0x09 \<or> c = CHR 0x0A \<or> c = CHR 0x0B \<or> c = CHR 0x0C \<or> c = CHR 0x0D
     \<or> c = CHR 0x85 \<or> c = CHR 0xA0"
  by (auto simp: is_ascii_whitespace_def is_whitespace_def)

definition is_control :: "char \<Rightarrow> bool" where
  "is_control c \<longleftrightarrow> c < CHR '' '' \<or> (CHR 0x7F \<le> c \<and> c \<le> CHR 0x9F)"

definition is_ascii_digit :: "char \<Rightarrow> bool" where
  "is_ascii_digit c \<longleftrightarrow> CHR ''0'' \<le> c \<and> c \<le> CHR ''9''"

definition is_ascii_upper :: "char \<Rightarrow> bool" where
  "is_ascii_upper c \<longleftrightarrow> CHR ''A'' \<le> c \<and> c \<le> CHR ''Z''"

definition is_ascii_lower :: "char \<Rightarrow> bool" where
  "is_ascii_lower c \<longleftrightarrow> CHR ''a'' \<le> c \<and> c \<le> CHR ''z''"

definition is_ascii_alphanumeric :: "char \<Rightarrow> bool" where
  "is_ascii_alphanumeric c \<longleftrightarrow> is_ascii_digit c \<or> is_ascii_upper c \<or> is_ascii_lower c"

text \<open>\<open>char::is_alphanumeric\<close>: letters and every numeric category, up to U+00FF.\<close>

definition is_alphanumeric :: "char \<Rightarrow> bool" where
  "is_alphanumeric c \<longleftrightarrow> is_ascii_alphanumeric c
     \<or> c \<in> {CHR 0xAA, CHR 0xB2, CHR 0xB3, CHR 0xB5, CHR 0xB9, CHR 0xBA, CHR 0xBC, CHR 0xBD, CHR 0xBE}
     \<or> (CHR 0xC0 \<le> c \<and> c \<noteq> CHR 0xD7 \<and> c \<noteq> CHR 0xF7)"

definition to_ascii_lower_char :: "char \<Rightarrow> char" where
  "to_ascii_lower_char c = (if is_ascii_upper c then char_of (of_char c + 32 :: nat) else c)"

definition to_ascii_lowercase :: "str \<Rightarrow> str" where
  "to_ascii_lowercase s = map to_ascii_lower_char s"

lemmas char_class_defs = is_ascii_whitespace_def is_whitespace_def is_control_def is_ascii_digit_def
  is_ascii_upper_def is_ascii_lower_def is_ascii_alphanumeric_def is_alphanumeric_def
  LF_def CR_def TAB_def BACKSLASH_def SQUOTE_def DQUOTE_def

text \<open>\<open>CString::new\<close> fails on a NUL.\<close>

definition has_nul :: "str \<Rightarrow> bool" where
  "has_nul s \<longleftrightarrow> CHR 0x00 \<in> set s"

section \<open>Splitting and searching\<close>

fun strip_prefix :: "str \<Rightarrow> str \<Rightarrow> str option" where
  "strip_prefix [] s = Some s"
| "strip_prefix (p # ps) [] = None"
| "strip_prefix (p # ps) (c # cs) = (if p = c then strip_prefix ps cs else None)"

definition strip_suffix :: "str \<Rightarrow> str \<Rightarrow> str option" where
  "strip_suffix p s = map_option rev (strip_prefix (rev p) (rev s))"

definition starts_with :: "str \<Rightarrow> str \<Rightarrow> bool" where
  "starts_with s p \<longleftrightarrow> strip_prefix p s \<noteq> None"

definition ends_with :: "str \<Rightarrow> str \<Rightarrow> bool" where
  "ends_with s p \<longleftrightarrow> strip_suffix p s \<noteq> None"

fun contains_str :: "str \<Rightarrow> str \<Rightarrow> bool" where
  "contains_str [] p = (p = [])"
| "contains_str (c # cs) p = (starts_with (c # cs) p \<or> contains_str cs p)"

fun split_once :: "char \<Rightarrow> str \<Rightarrow> (str \<times> str) option" where
  "split_once d [] = None"
| "split_once d (c # cs) =
     (if c = d then Some ([], cs) else map_option (\<lambda>(a, b). (c # a, b)) (split_once d cs))"

definition rsplit_once :: "char \<Rightarrow> str \<Rightarrow> (str \<times> str) option" where
  "rsplit_once d s = map_option (\<lambda>(a, b). (rev b, rev a)) (split_once d (rev s))"

fun splitn :: "nat \<Rightarrow> char \<Rightarrow> str \<Rightarrow> str list" where
  "splitn 0 d s = []"
| "splitn (Suc 0) d s = [s]"
| "splitn (Suc (Suc n)) d s =
     (case split_once d s of None \<Rightarrow> [s] | Some (a, b) \<Rightarrow> a # splitn (Suc n) d b)"

fun split_on :: "(char \<Rightarrow> bool) \<Rightarrow> str \<Rightarrow> str list" where
  "split_on P [] = [[]]"
| "split_on P (c # cs) =
     (if P c then [] # split_on P cs
      else (case split_on P cs of [] \<Rightarrow> [[c]] | p # ps \<Rightarrow> (c # p) # ps))"

definition split_whitespace :: "str \<Rightarrow> str list" where
  "split_whitespace s = filter (\<lambda>p. p \<noteq> []) (split_on is_whitespace s)"

definition trim_start :: "str \<Rightarrow> str" where
  "trim_start s = dropWhile is_whitespace s"

definition trim_end :: "str \<Rightarrow> str" where
  "trim_end s = rev (dropWhile is_whitespace (rev s))"

definition trim :: "str \<Rightarrow> str" where
  "trim s = trim_end (trim_start s)"

text \<open>
  \<open>str::lines\<close> (and \<open>BufRead::lines\<close>): split after each line feed, drop it and
  one carriage return before it; a last line without a line feed is kept as it
  is and an empty rest is no line.
\<close>

definition strip_cr :: "str \<Rightarrow> str" where
  "strip_cr s = (case strip_suffix [CR] s of None \<Rightarrow> s | Some s' \<Rightarrow> s')"

lemma split_once_shorter: "split_once d s = Some (a, b) \<Longrightarrow> length b < length s"
  by (induction s arbitrary: a b) (auto split: if_splits)

function lines :: "str \<Rightarrow> str list" where
  "lines s =
     (case split_once LF s of
        None \<Rightarrow> (if s = [] then [] else [s])
      | Some (a, b) \<Rightarrow> strip_cr a # lines b)"
  by pat_completeness auto
termination
  by (relation "measure length") (auto dest: split_once_shorter)

declare lines.simps [simp del]

text \<open>The same in one pass, for evaluation.\<close>

fun lines_from :: "str \<Rightarrow> str \<Rightarrow> str list" where
  "lines_from acc [] = (if acc = [] then [] else [rev acc])"
| "lines_from acc (c # cs) =
     (if c = LF then strip_cr (rev acc) # lines_from [] cs else lines_from (c # acc) cs)"

lemma lines_from_split:
  "lines_from acc s = (case split_once LF s of
     None \<Rightarrow> (if acc = [] \<and> s = [] then [] else [rev acc @ s])
   | Some (a, b) \<Rightarrow> strip_cr (rev acc @ a) # lines_from [] b)"
  by (induction acc s rule: lines_from.induct) (auto split: option.splits)

lemma lines_code [code]: "lines s = lines_from [] s"
proof (induction s rule: lines.induct)
  case (1 s)
  then show ?case
    by (subst lines.simps, subst lines_from_split) (auto split: option.split)
qed


fun join :: "str \<Rightarrow> str list \<Rightarrow> str" where
  "join sep [] = []"
| "join sep [x] = x"
| "join sep (x # y # zs) = x @ sep @ join sep (y # zs)"

text \<open>\<open>Option::filter(|s| !s.is_empty())\<close> and the \<open>i\<close>-th call of \<open>Iterator::next\<close>.\<close>

definition nonempty :: "str option \<Rightarrow> str option" where
  "nonempty v = (case v of Some s \<Rightarrow> if s = [] then None else Some s | None \<Rightarrow> None)"

definition nth_opt :: "'a list \<Rightarrow> nat \<Rightarrow> 'a option" where
  "nth_opt xs i = (if i < length xs then Some (xs ! i) else None)"

section \<open>Numbers in strings\<close>

definition digit_val :: "int \<Rightarrow> char \<Rightarrow> int option" where
  "digit_val radix c =
     (let v = (if is_ascii_digit c then Some (of_char c - 48)
               else if is_ascii_lower c then Some (of_char c - 87)
               else if is_ascii_upper c then Some (of_char c - 55)
               else None)
      in case v of Some d \<Rightarrow> if d < radix then Some d else None | None \<Rightarrow> None)"

fun digits_val :: "int \<Rightarrow> int \<Rightarrow> str \<Rightarrow> int option" where
  "digits_val radix acc [] = Some acc"
| "digits_val radix acc (c # cs) =
     (case digit_val radix c of None \<Rightarrow> None | Some d \<Rightarrow> digits_val radix (acc * radix + d) cs)"

text \<open>
  \<open>from_str_radix\<close> of an unsigned type: the empty string and a lone sign are
  errors, one leading \<open>+\<close> is dropped, every other character must be a digit of the
  radix, and the value must fit.  The signed form also takes one leading \<open>-\<close>.
\<close>

definition parse_unsigned :: "int \<Rightarrow> int \<Rightarrow> str \<Rightarrow> int option" where
  "parse_unsigned radix maxv s =
     (if s = [] \<or> s = ''+'' \<or> s = ''-'' then None
      else case digits_val radix 0 (if hd s = CHR ''+'' then tl s else s) of
             None \<Rightarrow> None
           | Some n \<Rightarrow> if n \<le> maxv then Some n else None)"

definition parse_u8 :: "str \<Rightarrow> int option" where
  "parse_u8 s = parse_unsigned 10 255 s"

definition parse_u32 :: "str \<Rightarrow> u32 option" where
  "parse_u32 s = map_option of_int (parse_unsigned 10 4294967295 s)"

definition parse_u32_hex :: "str \<Rightarrow> u32 option" where
  "parse_u32_hex s = map_option of_int (parse_unsigned 16 4294967295 s)"

definition parse_i64 :: "str \<Rightarrow> int option" where
  "parse_i64 s =
     (if s = [] \<or> s = ''+'' \<or> s = ''-'' then None
      else if hd s = CHR ''-'' then
        (case digits_val 10 0 (tl s) of
           None \<Rightarrow> None | Some n \<Rightarrow> if n \<le> 9223372036854775808 then Some (- n) else None)
      else
        (case digits_val 10 0 (if hd s = CHR ''+'' then tl s else s) of
           None \<Rightarrow> None | Some n \<Rightarrow> if n \<le> 9223372036854775807 then Some n else None))"

text \<open>Decimal output (\<open>n.to_string()\<close>), most significant digit first.\<close>

definition digit_char :: "int \<Rightarrow> char" where
  "digit_char d = char_of (48 + d)"

function show_nonneg :: "int \<Rightarrow> str" where
  "show_nonneg n =
     (if n < 10 then [digit_char n] else show_nonneg (n div 10) @ [digit_char (n mod 10)])"
  by pat_completeness auto
termination
  by (relation "measure nat") auto

declare show_nonneg.simps [simp del]

definition show_int :: "int \<Rightarrow> str" where
  "show_int i = (if i < 0 then CHR ''-'' # show_nonneg (- i) else show_nonneg i)"


text \<open>Printing and parsing a number are inverse.\<close>

lemma digit_val_char:
  assumes "0 \<le> d" "d < 10"
  shows "digit_val 10 (digit_char d) = Some d" "is_ascii_digit (digit_char d)"
proof -
  have "list_all (\<lambda>d. digit_val 10 (digit_char d) = Some d \<and> is_ascii_digit (digit_char d)) [0..9]"
    by code_simp
  with assms show "digit_val 10 (digit_char d) = Some d" "is_ascii_digit (digit_char d)"
    by (auto simp: list_all_iff)
qed

lemma digits_val_append:
  "digits_val r acc (xs @ ys) =
     (case digits_val r acc xs of None \<Rightarrow> None | Some a \<Rightarrow> digits_val r a ys)"
  by (induction xs arbitrary: acc) (auto split: option.split)

lemma show_nonneg_props:
  assumes "0 \<le> n"
  shows "digits_val 10 0 (show_nonneg n) = Some n" "show_nonneg n \<noteq> []"
    "\<forall>c \<in> set (show_nonneg n). is_ascii_digit c"
proof -
  have "digits_val 10 0 (show_nonneg n) = Some n \<and> show_nonneg n \<noteq> []
      \<and> (\<forall>c \<in> set (show_nonneg n). is_ascii_digit c)"
    using assms
  proof (induction n rule: show_nonneg.induct)
    case (1 n)
    show ?case
    proof (cases "n < 10")
      case True
      then have e: "show_nonneg n = [digit_char n]" by (subst show_nonneg.simps) simp
      show ?thesis unfolding e using True 1(2) by (simp add: digit_val_char)
    next
      case False
      with 1 have ih: "digits_val 10 0 (show_nonneg (n div 10)) = Some (n div 10)"
        "\<forall>c \<in> set (show_nonneg (n div 10)). is_ascii_digit c"
        by simp_all
      have e: "show_nonneg n = show_nonneg (n div 10) @ [digit_char (n mod 10)]"
        using False by (subst show_nonneg.simps) simp
      show ?thesis unfolding e using ih by (simp add: digits_val_append digit_val_char)
    qed
  qed
  then show "digits_val 10 0 (show_nonneg n) = Some n" "show_nonneg n \<noteq> []"
    "\<forall>c \<in> set (show_nonneg n). is_ascii_digit c" by auto
qed

lemma show_int_digits:
  assumes "0 \<le> n"
  shows "show_int n \<noteq> []" "\<forall>c \<in> set (show_int n). is_ascii_digit c"
  using show_nonneg_props(2,3) [OF assms] assms by (simp_all add: show_int_def)

lemma not_digits: "\<not> is_ascii_digit (CHR ''+'')" "\<not> is_ascii_digit (CHR ''-'')"
  by code_simp+

lemma parse_show:
  assumes "0 \<le> n" "n \<le> maxv"
  shows "parse_unsigned 10 maxv (show_int n) = Some n"
proof -
  have "show_int n \<noteq> ''+''" "show_int n \<noteq> ''-''" "hd (show_int n) \<noteq> CHR ''+''"
    using show_int_digits [OF assms(1)] not_digits by (auto simp: neq_Nil_conv)
  then show ?thesis
    using show_nonneg_props(1) [OF assms(1)] show_int_digits(1) [OF assms(1)] assms
    by (simp add: parse_unsigned_def show_int_def)
qed


text \<open>The lines of a text that was put together line by line.\<close>

lemma split_once_append: "d \<notin> set a \<Longrightarrow> split_once d (a @ d # b) = Some (a, b)"
  by (induction a) auto

lemma strip_cr_id:
  assumes "last s \<noteq> CR"
  shows "strip_cr s = s"
proof (cases "s = []")
  case False
  then show ?thesis
    using assms by (cases s rule: rev_cases) (auto simp: strip_cr_def strip_suffix_def)
qed (simp add: strip_cr_def strip_suffix_def)

lemma lines_Nil [simp]: "lines [] = []"
  by (subst lines.simps) simp

lemma lines_line: "LF \<notin> set l \<Longrightarrow> lines (l @ LF # rest) = strip_cr l # lines rest"
  by (subst lines.simps) (simp add: split_once_append)

lemma lines_lines:
  assumes "\<forall>l \<in> set ls. LF \<notin> set l \<and> strip_cr l = l"
  shows "lines (concat (map (\<lambda>l. l @ [LF]) ls) @ rest) = ls @ lines rest"
  using assms
proof (induction ls)
  case (Cons l ls)
  then show ?case by (simp add: lines_line)
qed simp

text \<open>Pieces between separators.\<close>

lemma split_on_nonempty [simp]: "split_on P s \<noteq> []"
  by (induction s) (auto split: list.split)

lemma split_on_no: "(\<forall>c \<in> set a. \<not> P c) \<Longrightarrow> split_on P a = [a]"
  by (induction a) auto

lemma split_on_append:
  "(\<forall>c \<in> set a. \<not> P c) \<Longrightarrow> P d \<Longrightarrow> split_on P (a @ d # r) = a # split_on P r"
  by (induction a) auto

end
