(* ===== verification/Line_Codec.thy ===== *)
theory Line_Codec
  imports Prelude
begin

text \<open>
  The textual layer of an \<open>.ovpn\<close> profile: the quoting of one argument
  (\<open>push_escaped\<close>), the line accumulator \<open>Writer\<close> of
  \<open>build_profile.rs\<close>, and the tokenizer of \<open>import_export.rs\<close> that reads
  lines back.  The locale \<open>word_codec\<close> states what an emitter relies on (a
  quoted argument is one word for the tokenizer, and never contains a line
  break); it is interpreted here for the connect side's quoting, and in
  \<open>Import_Export\<close> for the export side's own copy.
\<close>

section \<open>Quoting one argument (build_profile.rs, push_escaped)\<close>

definition is_benign :: "char \<Rightarrow> bool" where
  "is_benign c \<longleftrightarrow> (CHR ''A'' \<le> c \<and> c \<le> CHR ''Z'') \<or> (CHR ''a'' \<le> c \<and> c \<le> CHR ''z'')
     \<or> (CHR ''0'' \<le> c \<and> c \<le> CHR ''9'') \<or> c \<in> {CHR ''_'', CHR ''-'', CHR '':'', CHR ''/''}"

text \<open>The scan loop: the pair \<open>(needs_quote, needs_double)\<close>.\<close>

fun escape_scan :: "bool \<Rightarrow> bool \<Rightarrow> str \<Rightarrow> bool \<times> bool" where
  "escape_scan nq nd [] = (nq, nd)"
| "escape_scan nq nd (c # cs) =
     (if is_benign c then escape_scan nq nd cs
      else escape_scan True (nd \<or> c = SQUOTE \<or> c = LF) cs)"

fun escape_double :: "str \<Rightarrow> str" where
  "escape_double [] = []"
| "escape_double (c # cs) =
     (if c = LF then [BACKSLASH, CHR ''n'']
      else if c = BACKSLASH \<or> c = DQUOTE then [BACKSLASH, c]
      else [c]) @ escape_double cs"

definition push_escaped :: "str \<Rightarrow> str \<Rightarrow> str" where
  "push_escaped buf v =
     (if v = [] then buf @ [SQUOTE, SQUOTE]
      else let (needs_quote, needs_double) = escape_scan False False v
           in if \<not> needs_quote then buf @ v
              else if \<not> needs_double then buf @ [SQUOTE] @ v @ [SQUOTE]
              else buf @ [DQUOTE] @ escape_double v @ [DQUOTE])"

definition esc :: "str \<Rightarrow> str" where
  "esc v = push_escaped [] v"

lemma push_escaped_esc: "push_escaped buf v = buf @ esc v"
  by (simp add: esc_def push_escaped_def Let_def split: prod.splits)

lemma escape_scan_eq:
  "escape_scan nq nd v =
     (nq \<or> (\<exists>c \<in> set v. \<not> is_benign c), nd \<or> SQUOTE \<in> set v \<or> LF \<in> set v)"
proof (induction v arbitrary: nq nd)
  case (Cons c cs)
  have "is_benign c \<Longrightarrow> c \<noteq> SQUOTE \<and> c \<noteq> LF"
    by (auto simp: is_benign_def char_class_defs)
  with Cons show ?case by auto
qed simp

lemma esc_cases:
  "esc v =
     (if v = [] then [SQUOTE, SQUOTE]
      else if \<forall>c \<in> set v. is_benign c then v
      else if SQUOTE \<notin> set v \<and> LF \<notin> set v then SQUOTE # v @ [SQUOTE]
      else DQUOTE # escape_double v @ [DQUOTE])"
  by (auto simp: esc_def push_escaped_def escape_scan_eq)

section \<open>The tokenizer (import_export.rs, tokenize)\<close>

datatype tok_error = Unterminated_Quote char | Trailing_Escape_Quoted | Trailing_Escape

text \<open>The body of a quoted word, after its opening quote: the word and the rest of the line.\<close>

fun tok_quoted :: "char \<Rightarrow> str \<Rightarrow> str \<Rightarrow> (tok_error, str \<times> str) result" where
  "tok_quoted q tok [] = Inl (Unterminated_Quote q)"
| "tok_quoted q tok (ch # cs) =
     (if ch = q then Inr (tok, cs)
      else if q = DQUOTE \<and> ch = BACKSLASH then
        (case cs of
           [] \<Rightarrow> Inl Trailing_Escape_Quoted
         | e # cs' \<Rightarrow>
             tok_quoted q
               (tok @ [if e = CHR ''n'' then LF else if e = CHR ''t'' then TAB else e]) cs')
      else tok_quoted q (tok @ [ch]) cs)"

fun tok_plain :: "str \<Rightarrow> str \<Rightarrow> (tok_error, str \<times> str) result" where
  "tok_plain tok [] = Inr (tok, [])"
| "tok_plain tok (ch # cs) =
     (if is_ascii_whitespace ch then Inr (tok, ch # cs)
      else if ch = BACKSLASH then
        (case cs of
           [] \<Rightarrow> Inl Trailing_Escape
         | e # cs' \<Rightarrow> tok_plain (tok @ [e]) cs')
      else tok_plain (tok @ [ch]) cs)"

lemma tok_quoted_shorter: "tok_quoted q tok s = Inr (t, r) \<Longrightarrow> length r < length s"
proof (induction q tok s rule: tok_quoted.induct)
  case (2 q tok ch cs)
  show ?case
  proof (cases "ch \<noteq> q \<and> q = DQUOTE \<and> ch = BACKSLASH")
    case True
    with "2.prems" obtain e cs' where "cs = e # cs'" by (cases cs) auto
    with True "2.prems" "2.IH"(1) [of e cs'] show ?thesis by auto
  next
    case False
    with "2.prems" "2.IH"(2) show ?thesis by (cases "ch = q") auto
  qed
qed simp

lemma tok_plain_shorter: "tok_plain tok s = Inr (t, r) \<Longrightarrow> length r \<le> length s"
proof (induction tok s rule: tok_plain.induct)
  case (2 tok ch cs)
  show ?case
  proof (cases "\<not> is_ascii_whitespace ch \<and> ch = BACKSLASH")
    case True
    with "2.prems" obtain e cs' where "cs = e # cs'" by (cases cs) auto
    with True "2.prems" "2.IH"(1) [of e cs'] show ?thesis by auto
  next
    case False
    with "2.prems" "2.IH"(2) show ?thesis by (cases "is_ascii_whitespace ch") auto
  qed
qed simp

lemma tok_plain_consumes:
  "tok_plain tok (c # cs) = Inr (t, r) \<Longrightarrow> \<not> is_ascii_whitespace c \<Longrightarrow> length r \<le> length cs"
  by (auto split: if_splits list.splits dest!: tok_plain_shorter)

function (sequential) tokenize :: "str \<Rightarrow> (tok_error, str list) result" where
  "tokenize [] = Inr []"
| "tokenize (c # cs) =
     (if is_ascii_whitespace c then tokenize cs
      else if c = CHR '';'' \<or> c = CHR ''#'' then Inr []
      else case (if c = DQUOTE \<or> c = SQUOTE then tok_quoted c [] cs else tok_plain [] (c # cs)) of
             Inl e \<Rightarrow> Inl e
           | Inr (t, rest) \<Rightarrow>
               (case tokenize rest of Inl e \<Rightarrow> Inl e | Inr ts \<Rightarrow> Inr (t # ts)))"
  by pat_completeness auto
termination
  by (relation "measure length")
     (auto simp del: tok_plain.simps dest: tok_quoted_shorter tok_plain_consumes split: if_splits)

declare tokenize.simps(2) [simp del]


section \<open>Reading a quoted argument back\<close>

lemma benign_plain:
  assumes "is_benign c"
  shows "\<not> is_ascii_whitespace c" "\<not> is_whitespace c" "c \<noteq> BACKSLASH" "c \<noteq> SQUOTE" "c \<noteq> DQUOTE" "c \<noteq> LF"
    "c \<noteq> CR" "c \<noteq> CHR '';''" "c \<noteq> CHR ''#''" "c \<noteq> CHR ''<''" "c \<noteq> CHR ''>''" "c \<noteq> CHR '' ''"
  using assms by (auto simp: is_benign_def char_class_defs)

lemma quote_chars [simp]:
  "SQUOTE \<noteq> DQUOTE" "DQUOTE \<noteq> SQUOTE" "BACKSLASH \<noteq> DQUOTE" "DQUOTE \<noteq> BACKSLASH"
  "BACKSLASH \<noteq> SQUOTE" "SQUOTE \<noteq> BACKSLASH" "LF \<noteq> DQUOTE" "LF \<noteq> BACKSLASH" "LF \<noteq> SQUOTE"
  "SQUOTE \<noteq> LF" "DQUOTE \<noteq> LF" "BACKSLASH \<noteq> LF" "CR \<noteq> LF" "LF \<noteq> CR" "CR \<noteq> SQUOTE" "CR \<noteq> DQUOTE"
  "CHR ''n'' \<noteq> LF" "LF \<noteq> CHR ''n''" "CHR '' '' \<noteq> LF" "LF \<noteq> CHR '' ''" "CR \<noteq> CHR '' ''"
  "BACKSLASH \<noteq> CHR ''n''" "BACKSLASH \<noteq> CHR ''t''" "DQUOTE \<noteq> CHR ''n''" "DQUOTE \<noteq> CHR ''t''"
  by (simp_all add: char_class_defs)

lemma quote_not_space [simp]:
  "\<not> is_ascii_whitespace SQUOTE" "\<not> is_ascii_whitespace DQUOTE" "\<not> is_ascii_whitespace BACKSLASH"
  "\<not> is_whitespace SQUOTE" "\<not> is_whitespace DQUOTE" "is_ascii_whitespace (CHR '' '')"
  "SQUOTE \<noteq> CHR '';''" "SQUOTE \<noteq> CHR ''#''" "DQUOTE \<noteq> CHR '';''" "DQUOTE \<noteq> CHR ''#''"
  by (simp_all add: char_class_defs)

lemma tok_quoted_single:
  "SQUOTE \<notin> set v \<Longrightarrow> tok_quoted SQUOTE tok (v @ SQUOTE # rest) = Inr (tok @ v, rest)"
  by (induction v arbitrary: tok) auto

lemma tok_quoted_double:
  "tok_quoted DQUOTE tok (escape_double v @ DQUOTE # rest) = Inr (tok @ v, rest)"
  by (induction v arbitrary: tok) auto

lemma tok_plain_benign:
  assumes "\<forall>c \<in> set v. is_benign c" and "rest = [] \<or> is_ascii_whitespace (hd rest)"
  shows "tok_plain tok (v @ rest) = Inr (tok @ v, rest)"
  using assms
proof (induction v arbitrary: tok)
  case Nil
  then show ?case by (cases rest) auto
next
  case (Cons c cs)
  then show ?case by (simp add: benign_plain)
qed

definition starts_sep :: "str \<Rightarrow> bool" where
  "starts_sep rest \<longleftrightarrow> rest = [] \<or> hd rest = CHR '' ''"

definition cons_word :: "str \<Rightarrow> ('e, str list) result \<Rightarrow> ('e, str list) result" where
  "cons_word v r = (case r of Inl e \<Rightarrow> Inl e | Inr ts \<Rightarrow> Inr (v # ts))"

lemma cons_word_simps [simp]:
  "cons_word v (Inl e) = Inl e" "cons_word v (Inr ts) = Inr (v # ts)"
  by (simp_all add: cons_word_def)

lemma tokenize_plain_word:
  assumes "v \<noteq> []" and "\<forall>c \<in> set v. is_benign c" and "starts_sep rest"
  shows "tokenize (v @ rest) = cons_word v (tokenize rest)"
proof -
  obtain c cs where v: "v = c # cs" using assms(1) by (cases v) auto
  with assms(2) have c: "is_benign c" by simp
  have "tok_plain [] (v @ rest) = Inr (v, rest)"
    using assms tok_plain_benign [of v rest "[]"] by (auto simp: starts_sep_def)
  then have "tok_plain [] (c # cs @ rest) = Inr (v, rest)" by (simp add: v)
  then show ?thesis
    by (simp add: v tokenize.simps(2) benign_plain [OF c] cons_word_def del: tok_plain.simps)
qed

lemma tokenize_quoted_word:
  assumes "q = DQUOTE \<or> q = SQUOTE" and "tok_quoted q [] body = Inr (v, rest)"
  shows "tokenize (q # body) = cons_word v (tokenize rest)"
  using assms by (auto simp: tokenize.simps(2) cons_word_def simp del: tok_quoted.simps)

lemma tokenize_esc:
  assumes "starts_sep rest"
  shows "tokenize (esc v @ rest) = cons_word v (tokenize rest)"
proof -
  consider "v = []" | "v \<noteq> []" "\<forall>c \<in> set v. is_benign c"
    | "v \<noteq> []" "\<not> (\<forall>c \<in> set v. is_benign c)" "SQUOTE \<notin> set v \<and> LF \<notin> set v"
    | "v \<noteq> []" "\<not> (\<forall>c \<in> set v. is_benign c)" "\<not> (SQUOTE \<notin> set v \<and> LF \<notin> set v)"
    by blast
  then show ?thesis
  proof cases
    case 1
    have "tok_quoted SQUOTE [] ([] @ SQUOTE # rest) = Inr ([] @ [], rest)"
      by (rule tok_quoted_single) simp
    with 1 show ?thesis by (simp add: esc_cases tokenize_quoted_word)
  next
    case 2
    with assms show ?thesis by (simp add: esc_cases tokenize_plain_word)
  next
    case 3
    then show ?thesis
      by (simp add: esc_cases)
         (intro tokenize_quoted_word impI conjI; simp add: tok_quoted_single)
  next
    case 4
    then show ?thesis
      by (simp add: esc_cases)
         (intro tokenize_quoted_word impI conjI; simp add: tok_quoted_double)
  qed
qed

lemma escape_double_no_LF: "LF \<notin> set (escape_double v)"
  by (induction v) auto

lemma esc_no_LF: "LF \<notin> set (esc v)"
  by (auto simp: esc_cases escape_double_no_LF dest: benign_plain(6))

lemma esc_not_empty: "esc v \<noteq> []"
  by (auto simp: esc_cases)

lemma esc_hd: "hd (esc v) \<in> {SQUOTE, DQUOTE} \<or> is_benign (hd (esc v))"
  by (auto simp: esc_cases)

lemma esc_last: "last (esc v) \<in> {SQUOTE, DQUOTE} \<or> is_benign (last (esc v))"
  by (auto simp: esc_cases)


section \<open>The interface between the emitters and the tokenizer\<close>

text \<open>
  \<open>enc\<close> quotes one argument, \<open>dec\<close> splits a line into words.  The laws: quoting
  makes one word of any string, and a quoted word can neither start a new line
  nor end in a carriage return that \<open>str::lines\<close> would strip.
\<close>

locale word_codec =
  fixes enc :: "str \<Rightarrow> str"
    and dec :: "str \<Rightarrow> ('e, str list) result"
  assumes dec_nil: "dec [] = Inr []"
    and dec_space: "dec (CHR '' '' # s) = dec s"
    and dec_enc: "starts_sep rest \<Longrightarrow> dec (enc v @ rest) = cons_word v (dec rest)"
    and enc_no_LF: "LF \<notin> set (enc v)"
    and enc_nonempty: "enc v \<noteq> []"
    and enc_hd: "\<not> is_whitespace (hd (enc v)) \<and> hd (enc v) \<notin> {CHR '';'', CHR ''#'', CHR ''<''}"
    and enc_last: "last (enc v) \<noteq> CR"
begin

lemma dec_words: "dec (join '' '' (map enc args)) = Inr args"
proof (induction "'' ''" args rule: join.induct)
  case 1
  show ?case by (simp add: dec_nil)
next
  case (2 x)
  show ?case using dec_enc [of "[]" x] by (simp add: dec_nil starts_sep_def)
next
  case (3 x y zs)
  have "starts_sep ('' '' @ join '' '' (map enc (y # zs)))" by (simp add: starts_sep_def)
  from dec_enc [OF this, of x] show ?case using 3 by (simp add: dec_space)
qed

lemma words_no_LF: "LF \<notin> set (join '' '' (map enc args))"
  by (induction "'' ''" args rule: join.induct) (auto simp: enc_no_LF)

lemma words_nonempty: "args \<noteq> [] \<Longrightarrow> join '' '' (map enc args) \<noteq> []"
  by (cases args rule: list.exhaust; cases "tl args") (auto simp: enc_nonempty)

lemma words_last: "args \<noteq> [] \<Longrightarrow> last (join '' '' (map enc args)) \<noteq> CR"
proof (induction "'' ''" args rule: join.induct)
  case (3 x y zs)
  then show ?case using words_nonempty [of "y # zs"] by (auto simp: last_append)
qed (auto simp: enc_last)

lemma words_hd:
  assumes "args \<noteq> []"
  shows "hd (join '' '' (map enc args)) = hd (enc (hd args))"
  using assms by (cases args rule: list.exhaust; cases "tl args") (auto simp: enc_nonempty)

lemma words_hd_plain:
  assumes "args \<noteq> []"
  shows "\<not> is_whitespace (hd (join '' '' (map enc args)))"
    and "hd (join '' '' (map enc args)) \<notin> {CHR '';'', CHR ''#'', CHR ''<''}"
  using words_hd [OF assms] enc_hd by auto

end

lemma esc_hd_plain:
  "\<not> is_whitespace (hd (esc v)) \<and> hd (esc v) \<notin> {CHR '';'', CHR ''#'', CHR ''<''}"
  using esc_hd [of v] by (auto simp: is_benign_def char_class_defs)

interpretation connect_codec: word_codec esc tokenize
proof unfold_locales
  show "last (esc v) \<noteq> CR" for v using esc_last [of v] by (auto simp: is_benign_def char_class_defs)
qed (simp_all add: tokenize.simps(2) tokenize_esc esc_no_LF esc_not_empty esc_hd_plain [simplified])

section \<open>Writer (build_profile.rs)\<close>

record writer =
  buf :: str

definition writer_new :: writer where
  "writer_new = \<lparr>buf = []\<rparr>"

text \<open>The argument loop of \<open>line\<close> and \<open>line_opt\<close>; its state is \<open>first\<close> and the buffer.\<close>

fun push_args :: "bool \<Rightarrow> str \<Rightarrow> str list \<Rightarrow> bool \<times> str" where
  "push_args first b [] = (first, b)"
| "push_args first b (a # as) =
     push_args False (push_escaped (if first then b else b @ '' '') a) as"

definition line :: "str list \<Rightarrow> writer \<Rightarrow> writer" where
  "line args w = w\<lparr>buf := snd (push_args True (buf w) args) @ [LF]\<rparr>"

definition line_opt :: "str option list \<Rightarrow> writer \<Rightarrow> writer" where
  "line_opt args w =
     (let (first, b) = push_args True (buf w) (List.map_filter id args)
      in if first then w\<lparr>buf := b\<rparr> else w\<lparr>buf := b @ [LF]\<rparr>)"

definition raw_line :: "str \<Rightarrow> writer \<Rightarrow> writer" where
  "raw_line l w = w\<lparr>buf := buf w @ l @ [LF]\<rparr>"

text \<open>One option line as text, and the effect of each operation on the buffer.\<close>

definition words_line :: "str list \<Rightarrow> str" where
  "words_line args = join '' '' (map esc args)"

lemma push_args_False: "push_args False b as = (False, b @ concat (map (\<lambda>a. '' '' @ esc a) as))"
  by (induction as arbitrary: b) (auto simp: push_escaped_esc)

lemma words_line_Cons: "words_line (a # as) = esc a @ concat (map (\<lambda>a. '' '' @ esc a) as)"
  by (induction as arbitrary: a) (auto simp: words_line_def)

lemma push_args_True: "as \<noteq> [] \<Longrightarrow> push_args True b as = (False, b @ words_line as)"
  by (cases as) (auto simp: push_args_False words_line_Cons push_escaped_esc)

lemma buf_line: "args \<noteq> [] \<Longrightarrow> buf (line args w) = buf w @ words_line args @ [LF]"
  by (simp add: line_def push_args_True)

lemma buf_line_opt:
  "buf (line_opt args w) =
     buf w @ (if List.map_filter id args = [] then [] else words_line (List.map_filter id args) @ [LF])"
  by (auto simp: line_opt_def push_args_True)

lemma buf_raw_line: "buf (raw_line l w) = buf w @ l @ [LF]"
  by (simp add: raw_line_def)

end
