(* ===== verification/Import_Export.thy ===== *)
theory Import_Export
  imports Line_Codec
begin

text \<open>
  \<open>nm-openvpn3-properties/src/import_export.rs\<close>: the \<open>.ovpn\<close> parser
  (\<open>OvpnConfig::parse\<close>, \<open>validate\<close>), the emitter (\<open>emit\<close>), the lookups,
  and this crate's own copies of the quoting, path and route predicates.  The
  projections to and from \<open>vpn.data\<close> are in \<open>Nm_Data\<close>.  Errors are values of
  \<open>parse_error\<close>; line numbers are those the code reports.
\<close>

section \<open>Directives\<close>

datatype directive = Option (dname: str) (dargs: "str list") | Blob (dname: str) (dbody: str)

type_synonym ovpn_config = "directive list"

definition INLINE_BLOB_NAMES :: "str list" where
  "INLINE_BLOB_NAMES =
     [''ca'', ''cert'', ''extra-certs'', ''crl-verify'', ''key'', ''pkcs12'', ''secret'',
      ''tls-auth'', ''tls-crypt'', ''tls-crypt-v2'']"

datatype value_error =
    Requires_Value str | Not_Numeric str str | Out_Of_Range str int | Bad_Choice str str
  | Keepalive_Arity | Keepalive_Arg nat str

datatype parse_error =
    Tokenize_Error nat tok_error | Unterminated_Blob nat str | Unsupported_Blob nat str
  | Invalid_Value value_error

section \<open>Validation of single options\<close>

definition require_first :: "str \<Rightarrow> str list \<Rightarrow> (value_error, str) result" where
  "require_first name args = (case args of [] \<Rightarrow> Inl (Requires_Value name) | v # _ \<Rightarrow> Inr v)"

definition check_choice :: "str \<Rightarrow> str list \<Rightarrow> str list \<Rightarrow> (value_error, unit) result" where
  "check_choice name choices args =
     (case require_first name args of
        Inl e \<Rightarrow> Inl e
      | Inr v \<Rightarrow> if v \<in> set choices then Inr () else Inl (Bad_Choice name v))"

definition PROTOS :: "str list" where
  "PROTOS =
     [''udp'', ''tcp'', ''udp4'', ''udp6'', ''tcp4'', ''tcp6'', ''tcp-client'', ''tcp-server'',
      ''udp-client'', ''udp-server'', ''tcp4-client'', ''tcp6-client'', ''udp4-client'',
      ''udp6-client'']"

definition check_port :: "str \<Rightarrow> str list \<Rightarrow> (value_error, unit) result" where
  "check_port name args =
     (case require_first name args of
        Inl e \<Rightarrow> Inl e
      | Inr v \<Rightarrow>
          (case parse_u32 v of
             None \<Rightarrow> Inl (Not_Numeric name v)
           | Some n \<Rightarrow>
               if 1 \<le> n \<and> n \<le> 65535 then Inr () else Inl (Out_Of_Range name (uint n))))"

definition check_tls_version :: "str \<Rightarrow> str list \<Rightarrow> (value_error, unit) result" where
  "check_tls_version name args =
     (case require_first name args of
        Inl e \<Rightarrow> Inl e
      | Inr v \<Rightarrow>
          (let base = (case strip_suffix '' or-highest'' v of Some b \<Rightarrow> b | None \<Rightarrow> v)
           in if base \<in> {''1.0'', ''1.1'', ''1.2'', ''1.3''} then Inr () else Inl (Bad_Choice name v)))"

definition check_keepalive :: "str list \<Rightarrow> (value_error, unit) result" where
  "check_keepalive args =
     (case args of
        a # b # _ \<Rightarrow>
          if parse_u32 a = None then Inl (Keepalive_Arg 1 a)
          else if parse_u32 b = None then Inl (Keepalive_Arg 2 b)
          else Inr ()
      | _ \<Rightarrow> Inl Keepalive_Arity)"

definition validate_option :: "str \<Rightarrow> str list \<Rightarrow> (value_error, unit) result" where
  "validate_option name args =
     (if name = ''port'' \<or> name = ''proxy-port'' then check_port name args
      else if name = ''key-direction'' \<or> name = ''static-key-direction'' then
        check_choice name [''0'', ''1''] args
      else if name = ''remote-cert-tls'' \<or> name = ''ns-cert-type'' then
        check_choice name [''client'', ''server''] args
      else if name = ''mtu-disc'' then check_choice name [''no'', ''maybe'', ''yes''] args
      else if name = ''comp-lzo'' then
        (case args of
           [] \<Rightarrow> Inr ()
         | v # _ \<Rightarrow>
             if v \<in> {''yes'', ''no'', ''adaptive''} then Inr () else Inl (Bad_Choice name v))
      else if name = ''proto'' then check_choice name PROTOS args
      else if name = ''tls-version-min'' \<or> name = ''tls-version-max'' then check_tls_version name args
      else if name = ''keepalive'' then check_keepalive args
      else Inr ())"

fun validate :: "directive list \<Rightarrow> (value_error, unit) result" where
  "validate [] = Inr ()"
| "validate (Option name args # ds) =
     (case validate_option name args of Inl e \<Rightarrow> Inl e | Inr _ \<Rightarrow> validate ds)"
| "validate (Blob name body # ds) = validate ds"

section \<open>Parsing\<close>

text \<open>
  The inner loop over the lines of an inline blob: the body so far, and the
  remaining lines with the number of the next one; \<open>None\<close> when the closing tag
  is missing.
\<close>

fun take_blob :: "str \<Rightarrow> str \<Rightarrow> nat \<Rightarrow> str list \<Rightarrow> (str \<times> nat \<times> str list) option" where
  "take_blob close body n [] = None"
| "take_blob close body n (l # ls) =
     (if trim l = close then Some (body, Suc n, ls)
      else take_blob close (body @ l @ [LF]) (Suc n) ls)"

lemma take_blob_shorter: "take_blob close body n ls = Some (b, m, rest) \<Longrightarrow> length rest < length ls"
  by (induction close body n ls rule: take_blob.induct) (auto split: if_splits)

definition strip_dashes :: "str \<Rightarrow> str" where
  "strip_dashes t = (case strip_prefix ''--'' t of Some s \<Rightarrow> s | None \<Rightarrow> t)"

definition cons_directive ::
  "directive \<Rightarrow> (parse_error, directive list) result \<Rightarrow> (parse_error, directive list) result" where
  "cons_directive d r = (case r of Inl e \<Rightarrow> Inl e | Inr ds \<Rightarrow> Inr (d # ds))"

lemma cons_directive_simps [simp]:
  "cons_directive d (Inl e) = Inl e" "cons_directive d (Inr ds) = Inr (d # ds)"
  by (simp_all add: cons_directive_def)

text \<open>The main loop; \<open>n\<close> is the number of the next line, counted from 1.\<close>

function (sequential) parse_lines :: "nat \<Rightarrow> str list \<Rightarrow> (parse_error, directive list) result" where
  "parse_lines n [] = Inr []"
| "parse_lines n (l # ls) =
     (let trimmed = trim_start l
      in if trimmed = [] then parse_lines (Suc n) ls
         else if starts_with trimmed '';'' \<or> starts_with trimmed ''#'' then parse_lines (Suc n) ls
         else case tokenize trimmed of
                Inl e \<Rightarrow> Inl (Tokenize_Error n e)
              | Inr [] \<Rightarrow> parse_lines (Suc n) ls
              | Inr (t0 # ts) \<Rightarrow>
                  (let first = strip_dashes t0
                   in if starts_with first ''<'' \<and> ends_with first ''>'' then
                        (let inner = butlast (tl first)
                         in case take_blob (''</'' @ inner @ ''>'') [] (Suc n) ls of
                              None \<Rightarrow> Inl (Unterminated_Blob n inner)
                            | Some (body, m, rest) \<Rightarrow>
                                if inner \<notin> set INLINE_BLOB_NAMES then Inl (Unsupported_Blob n inner)
                                else cons_directive (Blob inner body) (parse_lines m rest))
                      else cons_directive (Option first ts) (parse_lines (Suc n) ls)))"
  by pat_completeness auto
termination
  by (relation "measure (\<lambda>(n, ls). length ls)") (auto dest: take_blob_shorter)

declare parse_lines.simps(2) [simp del]

definition parse_directives :: "str \<Rightarrow> (parse_error, directive list) result" where
  "parse_directives input = parse_lines 1 (lines input)"

definition parse :: "str \<Rightarrow> (parse_error, ovpn_config) result" where
  "parse input =
     (case parse_directives input of
        Inl e \<Rightarrow> Inl e
      | Inr ds \<Rightarrow> (case validate ds of Inl e \<Rightarrow> Inl (Invalid_Value e) | Inr _ \<Rightarrow> Inr ds))"

section \<open>Emitting and looking up\<close>

fun ie_escape_scan :: "bool \<Rightarrow> bool \<Rightarrow> str \<Rightarrow> bool \<times> bool" where
  "ie_escape_scan nq nd [] = (nq, nd)"
| "ie_escape_scan nq nd (c # cs) =
     (if is_benign c then ie_escape_scan nq nd cs
      else ie_escape_scan True (if c = SQUOTE \<or> c = LF then True else nd) cs)"

definition ie_push_escaped :: "str \<Rightarrow> str \<Rightarrow> str" where
  "ie_push_escaped out v =
     (if v = [] then out @ [SQUOTE, SQUOTE]
      else let (needs_quote, needs_double) = ie_escape_scan False False v
           in if \<not> needs_quote then out @ v
              else if \<not> needs_double then out @ [SQUOTE] @ v @ [SQUOTE]
              else out @ [DQUOTE]
                   @ concat (map (\<lambda>c. if c = LF then [BACKSLASH, CHR ''n'']
                                      else if c = BACKSLASH \<or> c = DQUOTE then [BACKSLASH, c]
                                      else [c]) v)
                   @ [DQUOTE])"

fun emit_args :: "str \<Rightarrow> str list \<Rightarrow> str" where
  "emit_args out [] = out"
| "emit_args out (a # as) = emit_args (ie_push_escaped (out @ '' '') a) as"

fun emit_directive :: "str \<Rightarrow> directive \<Rightarrow> str" where
  "emit_directive out (Option name args) = emit_args (ie_push_escaped out name) args @ [LF]"
| "emit_directive out (Blob name body) =
     out @ ''<'' @ name @ ''>'' @ [LF] @ body
       @ (if ends_with body [LF] then [] else [LF]) @ ''</'' @ name @ ''>'' @ [LF]"

definition emit :: "ovpn_config \<Rightarrow> str" where
  "emit ds = foldl emit_directive [] ds"

fun option :: "ovpn_config \<Rightarrow> str \<Rightarrow> str list option" where
  "option [] name = None"
| "option (Option n args # ds) name = (if n = name then Some args else option ds name)"
| "option (Blob n body # ds) name = option ds name"

fun blob :: "ovpn_config \<Rightarrow> str \<Rightarrow> str option" where
  "blob [] name = None"
| "blob (Option n args # ds) name = blob ds name"
| "blob (Blob n body # ds) name = (if n = name then Some body else blob ds name)"

section \<open>The two copies of the quoting agree\<close>

lemma ie_escape_scan_eq: "ie_escape_scan nq nd v = escape_scan nq nd v"
  by (induction v arbitrary: nq nd) auto

lemma ie_escape_double:
  "concat (map (\<lambda>c. if c = LF then [BACKSLASH, CHR ''n'']
                    else if c = BACKSLASH \<or> c = DQUOTE then [BACKSLASH, c] else [c]) v) = escape_double v"
  by (induction v) auto

lemma ie_push_escaped_eq: "ie_push_escaped out v = push_escaped out v"
  by (simp only: ie_push_escaped_def push_escaped_def ie_escape_scan_eq ie_escape_double)

lemma emit_args_eq: "emit_args out as = out @ concat (map (\<lambda>a. '' '' @ esc a) as)"
  by (induction as arbitrary: out) (simp_all add: ie_push_escaped_eq push_escaped_esc)

text \<open>So this crate's quoting meets the same contract with the tokenizer.\<close>

lemma ie_push_escaped_esc: "ie_push_escaped [] v = esc v"
  by (simp add: ie_push_escaped_eq push_escaped_esc)

interpretation export_codec: word_codec "ie_push_escaped []" tokenize
  unfolding ie_push_escaped_esc [abs_def] by (rule connect_codec.word_codec_axioms)


section \<open>Parsing emitted text\<close>

text \<open>
  A directive name that the parser keeps as it is: not the opening tag of a
  blob, and without the \<open>--\<close> prefix it would strip.
\<close>

definition plain_name :: "str \<Rightarrow> bool" where
  "plain_name n \<longleftrightarrow> strip_prefix ''--'' n = None \<and> \<not> (starts_with n ''<'' \<and> ends_with n ''>'')"

lemma trim_start_id: "s \<noteq> [] \<Longrightarrow> \<not> is_whitespace (hd s) \<Longrightarrow> trim_start s = s"
  by (cases s) (simp_all add: trim_start_def)

lemma not_comment:
  "s \<noteq> [] \<Longrightarrow> hd s \<notin> {CHR '';'', CHR ''#'', c} \<Longrightarrow>
   \<not> starts_with s '';'' \<and> \<not> starts_with s ''#''"
  by (cases s) (auto simp: starts_with_def)

text \<open>One line whose words are known becomes one directive.\<close>

lemma parse_words_line:
  assumes "l \<noteq> []" and "\<not> is_whitespace (hd l)" and "hd l \<notin> {CHR '';'', CHR ''#'', c}"
    and "tokenize l = Inr (name # args)" and "plain_name name"
  shows "parse_lines n (l # ls) = cons_directive (Option name args) (parse_lines (Suc n) ls)"
  using assms not_comment [OF assms(1,3)]
  by (auto simp: parse_lines.simps(2) trim_start_id Let_def plain_name_def strip_dashes_def)

definition directive_of :: "str list \<Rightarrow> directive" where
  "directive_of ws = Option (hd ws) (tl ws)"

text \<open>
  A line the parser reads back as given words.  \<open>good_line\<close> is what the entries of
  both emitters satisfy.
\<close>

definition good_line :: "str \<Rightarrow> str list \<Rightarrow> bool" where
  "good_line l ws \<longleftrightarrow> l \<noteq> [] \<and> \<not> is_whitespace (hd l) \<and> hd l \<notin> {CHR '';'', CHR ''#''}
     \<and> LF \<notin> set l \<and> strip_cr l = l \<and> tokenize l = Inr ws \<and> ws \<noteq> [] \<and> plain_name (hd ws)"

lemma good_words_line:
  assumes "ws \<noteq> []" and "plain_name (hd ws)"
  shows "good_line (words_line ws) ws"
proof -
  note c = connect_codec.words_nonempty [OF assms(1)] connect_codec.words_hd_plain [OF assms(1)]
    connect_codec.words_no_LF connect_codec.words_last [OF assms(1)] connect_codec.dec_words [of ws]
  show ?thesis using c assms by (simp add: good_line_def words_line_def strip_cr_id)
qed

lemma parse_good_line:
  assumes "good_line l ws"
  shows "parse_lines n (l # ls) = cons_directive (directive_of ws) (parse_lines (Suc n) ls)"
  using assms parse_words_line [of l "CHR '';''" "hd ws" "tl ws" n ls]
  by (simp add: good_line_def directive_of_def)

lemma parse_good_lines:
  "list_all2 good_line ls wss \<Longrightarrow> parse_lines n ls = Inr (map directive_of wss)"
  by (induction ls wss arbitrary: n rule: list_all2_induct) (simp_all add: parse_good_line)

lemma parse_good_text:
  assumes "list_all2 good_line ls wss"
  shows "parse_directives (concat (map (\<lambda>l. l @ [LF]) ls)) = Inr (map directive_of wss)"
proof -
  have "\<forall>l \<in> set ls. LF \<notin> set l \<and> strip_cr l = l"
    using assms by (induction ls wss rule: list_all2_induct) (auto simp: good_line_def)
  from lines_lines [OF this, of "[]"] show ?thesis
    by (simp add: parse_directives_def parse_good_lines [OF assms])
qed

section \<open>emit as text, and the round trip\<close>

text \<open>
  Directives the parser reads back unchanged: an option whose name it keeps, or an
  inline blob of a known name whose body is at least one whole line, none of which
  is the closing tag (after trimming) or loses a carriage return in \<open>str::lines\<close>.
\<close>

definition body_lines_ok :: "str \<Rightarrow> str \<Rightarrow> bool" where
  "body_lines_ok name body \<longleftrightarrow>
     (\<exists>ls. body = concat (map (\<lambda>l. l @ [LF]) ls)
        \<and> (\<forall>l \<in> set ls. LF \<notin> set l \<and> strip_cr l = l \<and> trim l \<noteq> ''</'' @ name @ ''>''))"

fun parseable :: "directive \<Rightarrow> bool" where
  "parseable (Option name args) = plain_name name"
| "parseable (Blob name body) =
     (name \<in> set INLINE_BLOB_NAMES \<and> body \<noteq> [] \<and> body_lines_ok name body)"

definition unlines :: "str list \<Rightarrow> str" where
  "unlines ls = concat (map (\<lambda>l. l @ [LF]) ls)"

lemma unlines_simps [simp]:
  "unlines [] = []" "unlines (l # ls) = l @ LF # unlines ls" "unlines (xs @ ys) = unlines xs @ unlines ys"
  by (simp_all add: unlines_def)

lemma unlines_ends: "unlines ls \<noteq> [] \<Longrightarrow> ends_with (unlines ls) [LF]"
  by (cases ls rule: rev_cases) (auto simp: ends_with_def strip_suffix_def)

lemma emit_directive_append: "emit_directive out d = out @ emit_directive [] d"
  by (cases d) (simp_all add: ie_push_escaped_eq push_escaped_esc emit_args_eq)

lemma emit_concat: "emit ds = concat (map (emit_directive []) ds)"
proof -
  have "foldl emit_directive out ds = out @ concat (map (emit_directive []) ds)" for out
  proof (induction ds arbitrary: out)
    case (Cons d ds)
    show ?case using Cons [of "emit_directive out d"] by (simp add: emit_directive_append [of out d])
  qed simp
  from this [of "[]"] show ?thesis by (simp add: emit_def)
qed

lemma emit_option: "emit_directive [] (Option name args) = words_line (name # args) @ [LF]"
  by (simp add: ie_push_escaped_eq push_escaped_esc emit_args_eq words_line_Cons)


lemma take_blob_body:
  assumes "\<forall>l \<in> set ls. trim l \<noteq> close" and "trim c = close"
  shows "take_blob close body n (ls @ c # rest) = Some (body @ unlines ls, n + length ls + 1, rest)"
  using assms by (induction ls arbitrary: body n) simp_all

lemma split_tag:
  "starts_with (''<'' @ n @ ''>'') ''<''" "ends_with (''<'' @ n @ ''>'') ''>''"
  "butlast (tl (''<'' @ n @ ''>'')) = n" "strip_dashes (''<'' @ n @ ''>'') = ''<'' @ n @ ''>''"
  by (simp_all add: starts_with_def ends_with_def strip_suffix_def strip_dashes_def)

lemma tokenize_tag:
  assumes "n \<in> set INLINE_BLOB_NAMES"
  shows "tokenize (''<'' @ n @ ''>'') = Inr [''<'' @ n @ ''>'']"
  using assms
  by (auto simp: INLINE_BLOB_NAMES_def tokenize.simps(2) is_ascii_whitespace_def DQUOTE_def
      SQUOTE_def BACKSLASH_def)

lemma trim_close:
  assumes "n \<in> set INLINE_BLOB_NAMES"
  shows "trim (''</'' @ n @ ''>'') = ''</'' @ n @ ''>''"
  using assms by (auto simp: INLINE_BLOB_NAMES_def trim_def trim_start_def trim_end_def is_whitespace_def)

lemma parse_blob_lines:
  assumes "name \<in> set INLINE_BLOB_NAMES"
    and "\<forall>l \<in> set ls. trim l \<noteq> ''</'' @ name @ ''>''"
  shows "parse_lines n ((''<'' @ name @ ''>'') # ls @ (''</'' @ name @ ''>'') # rest) =
    cons_directive (Blob name (unlines ls)) (parse_lines (n + length ls + 2) rest)"
proof -
  have t: "trim_start (''<'' @ name @ ''>'') = ''<'' @ name @ ''>''"
    by (simp add: trim_start_def is_whitespace_def)
  have b: "take_blob (''</'' @ name @ ''>'') [] (Suc n) (ls @ (''</'' @ name @ ''>'') # rest) =
      Some (unlines ls, n + length ls + 2, rest)"
    using take_blob_body [OF assms(2) trim_close [OF assms(1)], of "[]" "Suc n" rest] by simp
  have nc: "\<not> starts_with (''<'' @ name @ ''>'') '';'' \<and> \<not> starts_with (''<'' @ name @ ''>'') ''#''"
    by (simp add: starts_with_def)
  have ne: "''<'' @ name @ ''>'' \<noteq> []" by simp
  show ?thesis
    unfolding parse_lines.simps(2) Let_def t tokenize_tag [OF assms(1)] sum.case list.case split_tag
    using nc ne assms(1) b split_tag(1,2) [of name] by simp
qed

text \<open>
  Every parseable directive is emitted as whole lines that the parser reads back as
  that directive, wherever it starts.
\<close>

definition reads_back :: "str list \<Rightarrow> directive \<Rightarrow> bool" where
  "reads_back ls d \<longleftrightarrow> (\<forall>l \<in> set ls. LF \<notin> set l \<and> strip_cr l = l)
     \<and> (\<forall>n rest. parse_lines n (ls @ rest) = cons_directive d (parse_lines (n + length ls) rest))"

lemma emit_reads_back_option:
  assumes "plain_name name"
  shows "reads_back [words_line (name # args)] (Option name args)"
proof -
  have g: "good_line (words_line (name # args)) (name # args)"
    using assms by (intro good_words_line) simp_all
  show ?thesis
    using parse_good_line [OF g] g
    by (simp add: reads_back_def good_line_def directive_of_def)
qed

lemma emit_reads_back_blob:
  assumes "name \<in> set INLINE_BLOB_NAMES"
    and "\<forall>l \<in> set ls. LF \<notin> set l \<and> strip_cr l = l \<and> trim l \<noteq> ''</'' @ name @ ''>''"
  shows "reads_back ((''<'' @ name @ ''>'') # ls @ [''</'' @ name @ ''>'']) (Blob name (unlines ls))"
proof -
  have name: "LF \<notin> set name"
    using assms(1) by (auto simp: INLINE_BLOB_NAMES_def LF_def)
  have tags: "LF \<notin> set (''<'' @ name @ ''>'')" "strip_cr (''<'' @ name @ ''>'') = ''<'' @ name @ ''>''"
    "LF \<notin> set (''</'' @ name @ ''>'')" "strip_cr (''</'' @ name @ ''>'') = ''</'' @ name @ ''>''"
    using name by (auto simp: LF_def CR_def intro!: strip_cr_id)
  have p: "parse_lines n (((''<'' @ name @ ''>'') # ls @ [''</'' @ name @ ''>'']) @ rest) =
      cons_directive (Blob name (unlines ls)) (parse_lines (n + length ls + 2) rest)" for n rest
    using parse_blob_lines [OF assms(1), of ls n rest] assms(2) by simp
  show ?thesis
    unfolding reads_back_def using tags assms(2) p by (auto simp del: append.simps)
qed

lemma emit_directive_lines:
  assumes "parseable d"
  shows "\<exists>ls. emit_directive [] d = unlines ls \<and> reads_back ls d"
proof (cases d)
  case (Option name args)
  with assms emit_reads_back_option [of name args] show ?thesis
    by (intro exI [of _ "[words_line (name # args)]"]) (simp only: emit_option unlines_simps parseable.simps append_Nil2 append.simps)
next
  case (Blob name body)
  from assms Blob obtain ls where ls: "body = unlines ls"
    "\<forall>l \<in> set ls. LF \<notin> set l \<and> strip_cr l = l \<and> trim l \<noteq> ''</'' @ name @ ''>''"
    by (auto simp: body_lines_ok_def unlines_def)
  with assms Blob have "ends_with body [LF]" by (simp add: unlines_ends)
  then have "emit_directive [] d = unlines ((''<'' @ name @ ''>'') # ls @ [''</'' @ name @ ''>''])"
    using ls(1) Blob by simp
  with emit_reads_back_blob [OF _ ls(2)] assms Blob ls(1) show ?thesis by fastforce
qed

lemma parse_emit_lines:
  assumes "\<forall>d \<in> set ds. parseable d"
  shows "\<exists>ls. emit ds = unlines ls \<and> (\<forall>l \<in> set ls. LF \<notin> set l \<and> strip_cr l = l)
    \<and> (\<forall>n. parse_lines n ls = Inr ds)"
  using assms
proof (induction ds)
  case Nil
  show ?case by (intro exI [of _ "[]"]) (simp add: emit_concat)
next
  case (Cons d ds)
  then obtain ls where ls: "emit ds = unlines ls" "\<forall>l \<in> set ls. LF \<notin> set l \<and> strip_cr l = l"
    "\<forall>n. parse_lines n ls = Inr ds" by auto
  from Cons.prems emit_directive_lines [of d] obtain hs where
    hs: "emit_directive [] d = unlines hs" "reads_back hs d" by auto
  have "emit (d # ds) = unlines (hs @ ls)"
    using hs(1) ls(1) by (simp add: emit_concat)
  moreover have "\<forall>l \<in> set (hs @ ls). LF \<notin> set l \<and> strip_cr l = l"
    using hs(2) ls(2) by (auto simp: reads_back_def)
  moreover have "\<forall>n. parse_lines n (hs @ ls) = Inr (d # ds)"
    using hs(2) ls(3) by (auto simp: reads_back_def)
  ultimately show ?case by blast
qed

lemma parse_directives_emit:
  assumes "\<forall>d \<in> set ds. parseable d"
  shows "parse_directives (emit ds) = Inr ds"
proof -
  from parse_emit_lines [OF assms] obtain ls where ls: "emit ds = unlines ls"
    "\<forall>l \<in> set ls. LF \<notin> set l \<and> strip_cr l = l" "\<forall>n. parse_lines n ls = Inr ds" by blast
  then show ?thesis
    using lines_lines [OF ls(2), of "[]"] by (simp add: parse_directives_def unlines_def)
qed


section \<open>Properties\<close>



text \<open>What the parser's output always is; with \<open>plain\<close>, for lines without carriage returns.\<close>

fun from_parser :: "bool \<Rightarrow> directive \<Rightarrow> bool" where
  "from_parser plain (Option name args) = (\<not> (starts_with name ''<'' \<and> ends_with name ''>''))"
| "from_parser plain (Blob name body) =
     (name \<in> set INLINE_BLOB_NAMES \<and> (plain \<longrightarrow> body_lines_ok name body))"

definition plain_lines :: "str list \<Rightarrow> bool" where
  "plain_lines ls \<longleftrightarrow> (\<forall>l \<in> set ls. LF \<notin> set l \<and> CR \<notin> set l)"

lemma take_blob_spec:
  assumes "take_blob close b n ls = Some (body, m, rest)"
  shows "\<exists>bs c. ls = bs @ c # rest \<and> body = b @ unlines bs \<and> (\<forall>l \<in> set bs. trim l \<noteq> close)"
  using assms
proof (induction close b n ls rule: take_blob.induct)
  case (2 close b n l ls)
  show ?case
  proof (cases "trim l = close")
    case True
    with 2(2) show ?thesis by (intro exI [of _ "[]"] exI [of _ l]) auto
  next
    case False
    with 2 obtain bs c where "ls = bs @ c # rest" "body = (b @ l @ [LF]) @ unlines bs"
      "\<forall>l \<in> set bs. trim l \<noteq> close" by auto
    with False show ?thesis by (intro exI [of _ "l # bs"]) auto
  qed
qed simp

lemma strip_cr_plain: "CR \<notin> set l \<Longrightarrow> strip_cr l = l"
  by (cases l rule: rev_cases) (auto simp: strip_cr_def strip_suffix_def)

lemma take_blob_body_ok:
  assumes "take_blob (''</'' @ name @ ''>'') [] n ls = Some (body, m, rest)" and "plain_lines ls"
  shows "body_lines_ok name body" "plain_lines rest"
proof -
  from take_blob_spec [OF assms(1)] obtain bs c where bs: "ls = bs @ c # rest" "body = unlines bs"
    "\<forall>l \<in> set bs. trim l \<noteq> ''</'' @ name @ ''>''" by auto
  then show "plain_lines rest" using assms(2) by (simp add: plain_lines_def)
  have "\<forall>l \<in> set bs. LF \<notin> set l \<and> strip_cr l = l \<and> trim l \<noteq> ''</'' @ name @ ''>''"
    using assms(2) bs(1,3) strip_cr_plain by (auto simp: plain_lines_def)
  with bs(2) show "body_lines_ok name body" unfolding body_lines_ok_def unlines_def by blast
qed

lemma parse_lines_output:
  assumes "parse_lines n ls = Inr ds" and "plain \<longrightarrow> plain_lines ls"
  shows "\<forall>d \<in> set ds. from_parser plain d"
  using assms
proof (induction n ls arbitrary: ds rule: parse_lines.induct)
  case (2 n l ls)
  let ?t = "trim_start l"
  have pl: "plain \<longrightarrow> plain_lines ls" using "2.prems"(2) by (simp add: plain_lines_def)
  consider (skip) "parse_lines (Suc n) ls = Inr ds" "?t = [] \<or> starts_with ?t '';'' \<or> starts_with ?t ''#''"
    | (empty) "tokenize ?t = Inr []" "parse_lines (Suc n) ls = Inr ds" "?t \<noteq> []" "\<not> (starts_with ?t '';'' \<or> starts_with ?t ''#'')"
    | (words) t0 ts where "tokenize ?t = Inr (t0 # ts)" "?t \<noteq> []" "\<not> (starts_with ?t '';'' \<or> starts_with ?t ''#'')"
    using "2.prems"(1) by (auto simp: parse_lines.simps(2) Let_def split: if_splits sum.splits list.splits)
  then show ?case
  proof cases
    case skip
    then show ?thesis using "2.IH"(1,2) [OF refl] pl by blast
  next
    case empty
    then show ?thesis using "2.IH"(3) [OF refl] pl by blast
  next
    case words
    let ?f = "strip_dashes t0"
    show ?thesis
    proof (cases "starts_with ?f ''<'' \<and> ends_with ?f ''>''")
      case True
      from "2.prems"(1) words True obtain body m rest ds' where
        t: "take_blob (''</'' @ butlast (tl ?f) @ ''>'') [] (Suc n) ls = Some (body, m, rest)"
        "butlast (tl ?f) \<in> set INLINE_BLOB_NAMES" "parse_lines m rest = Inr ds'"
        "ds = Blob (butlast (tl ?f)) body # ds'"
        by (auto simp: parse_lines.simps(2) Let_def cons_directive_def
            split: if_splits sum.splits option.splits)
      note ok = take_blob_body_ok [OF t(1)]
      from "2.IH"(4) [OF refl words(2,3,1) refl refl True refl t(1) refl refl] t(2,3) ok pl
      show ?thesis by (simp add: t(4))
    next
      case False
      with "2.prems"(1) words obtain ds' where "parse_lines (Suc n) ls = Inr ds'" "ds = Option ?f ts # ds'"
        by (auto simp: parse_lines.simps(2) Let_def cons_directive_def split: if_splits sum.splits)
      with "2.IH"(5) [OF refl words(2,3,1) refl refl False] pl False show ?thesis by auto
    qed
  qed
qed simp

lemma lines_plain: "CR \<notin> set s \<Longrightarrow> plain_lines (lines s)"
proof (induction s rule: lines.induct)
  case (1 s)
  show ?case
  proof (cases "split_once LF s")
    case None
    then have "LF \<notin> set s" by (induction s) (auto split: if_splits)
    with 1(2) None show ?thesis by (subst lines.simps) (simp add: plain_lines_def)
  next
    case (Some ab)
    obtain a b where ab: "ab = (a, b)" by (cases ab)
    have s: "s = a @ LF # b \<and> LF \<notin> set a"
      using Some unfolding ab
    proof (induction s arbitrary: a)
      case (Cons c s)
      then show ?case by (fastforce split: if_splits)
    qed simp
    with 1 Some ab have "plain_lines (lines b)" by simp
    with s 1(2) Some ab show ?thesis
      by (subst lines.simps) (simp add: plain_lines_def strip_cr_plain)
  qed
qed

lemma from_parser_parseable:
  assumes "from_parser True d" and "\<not> starts_with (dname d) ''--''" and "\<forall>n. d \<noteq> Blob n []"
  shows "parseable d"
  using assms by (cases d) (auto simp: plain_name_def starts_with_def)

lemma parse_inr: "parse input = Inr ds \<longleftrightarrow> parse_directives input = Inr ds \<and> validate ds = Inr ()"
  by (auto simp: parse_def split: sum.splits)

lemma reparse_unchanged:
  assumes "parse input = Inr ds" and "CR \<notin> set input"
    and "\<forall>d \<in> set ds. \<not> starts_with (dname d) ''--'' \<and> (\<forall>n. d \<noteq> Blob n [])"
  shows "parse (emit ds) = Inr ds"
proof -
  have p: "parse_lines 1 (lines input) = Inr ds" "validate ds = Inr ()"
    using assms(1) by (simp_all add: parse_inr parse_directives_def)
  have "\<forall>d \<in> set ds. parseable d"
    using parse_lines_output [OF p(1), of True] lines_plain [OF assms(2)] assms(3)
      from_parser_parseable by blast
  then show ?thesis using p(2) by (simp add: parse_inr parse_directives_emit)
qed



text \<open>
  An empty inline blob does not survive the round trip: \<open>emit\<close> writes a line
  feed before the closing tag, which the parser reads as an empty first line.
\<close>

theorem empty_blob_gains_a_line:
  "parse (''<ca>'' @ [LF] @ ''</ca>'' @ [LF]) = Inr [Blob ''ca'' []]
   \<and> parse (emit [Blob ''ca'' []]) = Inr [Blob ''ca'' [LF]]"
  by (rule conjI; code_simp)

lemma validate_member:
  "validate ds = Inr () \<Longrightarrow> Option name args \<in> set ds \<Longrightarrow> validate_option name args = Inr ()"
  by (induction ds rule: validate.induct) (auto split: sum.splits)

lemma check_port_ok:
  assumes "check_port name args = Inr ()"
  shows "\<exists>p. args \<noteq> [] \<and> parse_u32 (hd args) = Some p \<and> 1 \<le> p \<and> p \<le> 65535"
  using assms
  by (cases args) (auto simp: check_port_def require_first_def split: option.splits if_splits)

lemma check_choice_ok:
  assumes "check_choice name choices args = Inr ()"
  shows "args \<noteq> [] \<and> hd args \<in> set choices"
  using assms
  by (cases args) (auto simp: check_choice_def require_first_def split: if_splits)

text \<open>
  What a successful import guarantees: every inline blob has a known name; a
  \<open>port\<close> is an integer in 1..65535; \<open>remote-cert-tls\<close>, \<open>key-direction\<close> and
  \<open>proto\<close> carry one of the listed values.
\<close>

theorem parse_output_valid:
  assumes "parse input = Inr ds"
  shows "(\<forall>n b. Blob n b \<in> set ds \<longrightarrow> n \<in> set INLINE_BLOB_NAMES)
    \<and> (\<forall>args. Option ''port'' args \<in> set ds \<longrightarrow>
         (\<exists>p. args \<noteq> [] \<and> parse_u32 (hd args) = Some p \<and> 1 \<le> p \<and> p \<le> 65535))
    \<and> (\<forall>args. Option ''remote-cert-tls'' args \<in> set ds \<longrightarrow> args \<noteq> [] \<and> hd args \<in> {''client'', ''server''})
    \<and> (\<forall>args. Option ''key-direction'' args \<in> set ds \<longrightarrow> args \<noteq> [] \<and> hd args \<in> {''0'', ''1''})
    \<and> (\<forall>args. Option ''proto'' args \<in> set ds \<longrightarrow> args \<noteq> [] \<and> hd args \<in> set PROTOS)"
proof (intro conjI allI impI)
  have p: "parse_lines 1 (lines input) = Inr ds" "validate ds = Inr ()"
    using assms by (simp_all add: parse_inr parse_directives_def)
  note v = validate_member [OF p(2)]
  show "n \<in> set INLINE_BLOB_NAMES" if "Blob n b \<in> set ds" for n b
    using parse_lines_output [OF p(1), of False] that by force
  show "\<exists>p. args \<noteq> [] \<and> parse_u32 (hd args) = Some p \<and> 1 \<le> p \<and> p \<le> 65535"
    if "Option ''port'' args \<in> set ds" for args
    using v [OF that] by (intro check_port_ok) (simp add: validate_option_def)
  show "args \<noteq> []" "hd args \<in> {''client'', ''server''}" if "Option ''remote-cert-tls'' args \<in> set ds" for args
    using v [OF that] check_choice_ok [of "''remote-cert-tls''" "[''client'', ''server'']" args]
    by (simp_all add: validate_option_def)
  show "args \<noteq> []" "hd args \<in> {''0'', ''1''}" if "Option ''key-direction'' args \<in> set ds" for args
    using v [OF that] check_choice_ok [of "''key-direction''" "[''0'', ''1'']" args]
    by (simp_all add: validate_option_def)
  show "args \<noteq> []" "hd args \<in> set PROTOS" if "Option ''proto'' args \<in> set ds" for args
    using v [OF that] check_choice_ok [of "''proto''" PROTOS args]
    by (simp_all add: validate_option_def)
qed

lemma parse_output_valid_witness:
  "\<exists>ds. parse ''port 443'' = Inr ds
     \<and> (\<exists>p. parse_u32 (hd [''443'']) = Some p \<and> 1 \<le> p \<and> p \<le> 65535)"
proof -
  have p: "parse ''port 443'' = Inr [Option ''port'' [''443'']]" by code_simp
  from parse_output_valid [OF this] p show ?thesis by auto
qed

end
