(* ===== verification/Nm_Data.thy ===== *)
theory Nm_Data
  imports Import_Export
begin

text \<open>
  The two projections of \<open>import_export.rs\<close>: \<open>from_nm_data\<close> (the export-side
  emitter, \<open>vpn.data\<close> to directives) block by block, and \<open>as_nm_data\<close>
  (directives to \<open>vpn.data\<close>) as a scan over the directives with the code's
  \<open>have_*\<close> flags as its state.  This crate's own copies of
  \<open>is_pkcs12_path\<close>, \<open>split_remote\<close> and \<open>is_safe_route_line\<close> are kept
  apart from the service's; \<open>Cross_Emitter\<close> proves them equal.
\<close>

section \<open>This crate's copies of the helpers\<close>

definition nm_get :: "dict \<Rightarrow> str \<Rightarrow> str option" where
  "nm_get data k = nonempty (data k)"

definition ie_is_pkcs12_path :: "str \<Rightarrow> bool" where
  "ie_is_pkcs12_path path =
     (let lower = to_ascii_lowercase path in ends_with lower ''.p12'' \<or> ends_with lower ''.pfx'')"

definition split_remote :: "str \<Rightarrow> str \<times> str option \<times> str option" where
  "split_remote gw =
     (let bare = (let it = splitn 3 (CHR '':'') gw
                  in (case nth_opt it 0 of Some h \<Rightarrow> h | None \<Rightarrow> [], nonempty (nth_opt it 1),
                      nonempty (nth_opt it 2)))
      in case strip_prefix ''['' gw of
           None \<Rightarrow> bare
         | Some rest \<Rightarrow>
             (case split_once (CHR '']'') rest of
                None \<Rightarrow> bare
              | Some (host, tail) \<Rightarrow>
                  (let it = splitn 2 (CHR '':'')
                              (case strip_prefix '':'' tail of Some t \<Rightarrow> t | None \<Rightarrow> tail)
                   in (host, nonempty (nth_opt it 0), nonempty (nth_opt it 1)))))"

definition ie_is_safe_route_line :: "str \<Rightarrow> bool" where
  "ie_is_safe_route_line l =
     (if list_ex is_control l then False
      else case split_whitespace l of
             [] \<Rightarrow> False
           | directive # tokens \<Rightarrow>
               directive \<in> {''route'', ''route-ipv6'', ''route-gateway'', ''route-metric'', ''route-delay''}
               \<and> list_all (\<lambda>tok. tok \<noteq> []
                   \<and> list_all (\<lambda>c. is_ascii_alphanumeric c
                        \<or> c \<in> {CHR ''.'', CHR '':'', CHR ''/'', CHR ''_'', CHR ''-''}) tok) tokens)"

section \<open>from_nm_data\<close>

definition push_opt :: "str \<Rightarrow> str list \<Rightarrow> directive list" where
  "push_opt name args = [Option name args]"

definition push_flag :: "str \<Rightarrow> directive list" where
  "push_flag name = [Option name []]"

definition fd_flag :: "dict \<Rightarrow> str \<Rightarrow> directive list" where
  "fd_flag data key = (if nm_get data key = Some ''yes'' then push_flag key else [])"

definition fd_opt :: "str \<Rightarrow> str option \<Rightarrow> directive list" where
  "fd_opt name v = (case v of Some x \<Rightarrow> push_opt name [x] | None \<Rightarrow> [])"

fun fd_remotes :: "str list \<Rightarrow> directive list" where
  "fd_remotes [] = []"
| "fd_remotes (gw # gws) =
     (let gw = trim gw
      in if gw = [] then fd_remotes gws
         else let (host, port, proto) = split_remote gw;
                  args = [host]
                    @ (case port of
                         Some p \<Rightarrow> [p]
                       | None \<Rightarrow> if proto \<noteq> None then [''1194''] else [])
                    @ (case proto of Some p \<Rightarrow> [p] | None \<Rightarrow> [])
              in push_opt ''remote'' args @ fd_remotes gws)"

definition fd_head :: "dict \<Rightarrow> directive list" where
  "fd_head data =
     (let ct = nm_get data ''connection-type''
      in (if ct \<in> {Some ''tls'', Some ''password'', Some ''password-tls''} then push_flag ''client'' else [])
         @ (case nm_get data ''remote'' of
              Some remotes \<Rightarrow>
                fd_remotes (split_on (\<lambda>c. c \<in> {CHR '' '', TAB, CHR '',''}) remotes)
            | None \<Rightarrow> [])
         @ fd_flag data ''remote-random'' @ fd_flag data ''remote-random-hostname''
         @ fd_flag data ''allow-pull-fqdn'' @ fd_flag data ''tun-ipv6'' @ fd_flag data ''push-peer-info'')"

definition fd_certs :: "dict \<Rightarrow> directive list" where
  "fd_certs data =
     (let ct = nm_get data ''connection-type'';
          user_cert = ct \<in> {Some ''tls'', Some ''password-tls''};
          tls_like = ct \<in> {Some ''tls'', Some ''password'', Some ''password-tls''};
          cert = (if user_cert then nm_get data ''cert'' else None);
          key = (if user_cert then nm_get data ''key'' else None);
          ca = (if tls_like then nm_get data ''ca'' else None);
          pkcs12_collapse =
            (case (ca, cert, key) of
               (Some a, Some c, Some k) \<Rightarrow> a = c \<and> c = k \<and> ie_is_pkcs12_path c
             | _ \<Rightarrow> False)
      in if pkcs12_collapse
         then push_opt ''pkcs12'' [case cert of Some c \<Rightarrow> c | None \<Rightarrow> []]
         else fd_opt ''ca'' ca @ fd_opt ''cert'' cert @ fd_opt ''key'' key)"

definition fd_auth :: "dict \<Rightarrow> directive list" where
  "fd_auth data =
     (let ct = nm_get data ''connection-type''
      in (if ct \<in> {Some ''password'', Some ''password-tls''} then push_flag ''auth-user-pass'' else [])
         @ (if ct = Some ''static-key'' then
              (case nm_get data ''static-key'' of
                 Some secret \<Rightarrow>
                   push_opt ''secret''
                     ([secret] @ (case nm_get data ''static-key-direction'' of
                                    Some dir \<Rightarrow> [dir] | None \<Rightarrow> []))
               | None \<Rightarrow> [])
            else []))"

definition pairs_str :: "(str \<times> str) list" where
  "pairs_str =
     [(''reneg-seconds'', ''reneg-sec''), (''max-routes'', ''max-routes''), (''cipher'', ''cipher''),
      (''data-ciphers'', ''data-ciphers''), (''data-ciphers-fallback'', ''data-ciphers-fallback''),
      (''tls-cipher'', ''tls-cipher''), (''keysize'', ''keysize''),
      (''allow-compression'', ''allow-compression''), (''auth'', ''auth''), (''mtu-disc'', ''mtu-disc''),
      (''tunnel-mtu'', ''tun-mtu''), (''connect-timeout'', ''connect-timeout''),
      (''fragment-size'', ''fragment''), (''port'', ''port''), (''ping'', ''ping''),
      (''ping-exit'', ''ping-exit''), (''ping-restart'', ''ping-restart'')]"

definition fd_pairs :: "dict \<Rightarrow> (str \<times> str) list \<Rightarrow> directive list" where
  "fd_pairs data ps = concat (map (\<lambda>(nm_key, ovpn_key). fd_opt ovpn_key (nm_get data nm_key)) ps)"

definition fd_compress :: "dict \<Rightarrow> directive list" where
  "fd_compress data =
     (if nm_get data ''allow-compression'' \<noteq> Some ''no'' then
        (case nm_get data ''comp-lzo'' of
           Some lzo \<Rightarrow> push_opt ''comp-lzo'' [if lzo = ''no-by-default'' then ''no'' else lzo]
         | None \<Rightarrow> [])
        @ (case nm_get data ''compress'' of
             Some v \<Rightarrow> if v = ''yes'' then push_flag ''compress'' else push_opt ''compress'' [v]
           | None \<Rightarrow> [])
      else [])"

definition fd_mtu :: "dict \<Rightarrow> directive list" where
  "fd_mtu data =
     fd_flag data ''float''
     @ (case nm_get data ''mssfix'' of
          Some v \<Rightarrow> if v = ''yes'' then push_flag ''mssfix'' else push_opt ''mssfix'' [v]
        | None \<Rightarrow> [])
     @ (case (nm_get data ''local-ip'', nm_get data ''remote-ip'') of
          (Some local, Some remote) \<Rightarrow> push_opt ''ifconfig'' [local, remote]
        | _ \<Rightarrow> [])"

fun fd_route_lines :: "str list \<Rightarrow> directive list" where
  "fd_route_lines [] = []"
| "fd_route_lines (l # ls) =
     (let l = trim l
      in if l = [] then fd_route_lines ls
         else if \<not> ie_is_safe_route_line l then fd_route_lines ls
         else case tokenize l of
                Inr (name # rest) \<Rightarrow> push_opt name rest @ fd_route_lines ls
              | _ \<Rightarrow> fd_route_lines ls)"

definition fd_routes :: "dict \<Rightarrow> directive list" where
  "fd_routes data =
     (case nm_get data ''nm-openvpn3-extra-routes'' of
        Some routes \<Rightarrow> fd_route_lines (lines routes)
      | None \<Rightarrow> [])"

definition fd_x509 :: "str \<Rightarrow> str list" where
  "fd_x509 x509 =
     (case split_once (CHR '':'') x509 of
        Some (ty, name) \<Rightarrow>
          if ty = ''subject'' \<or> ty = ''name'' \<or> ty = ''name-prefix'' then [name, ty] else [x509]
      | None \<Rightarrow> [x509])"

definition tls_pairs :: "(str \<times> str) list" where
  "tls_pairs =
     [(''remote-cert-tls'', ''remote-cert-tls''), (''ns-cert-type'', ''ns-cert-type''),
      (''tls-remote'', ''tls-remote''), (''tls-version-max'', ''tls-version-max''),
      (''extra-certs'', ''extra-certs'')]"

definition fd_tls :: "dict \<Rightarrow> directive list" where
  "fd_tls data =
     (if nm_get data ''connection-type'' \<in> {Some ''tls'', Some ''password'', Some ''password-tls''} then
        (case nm_get data ''verify-x509-name'' of
           Some x509 \<Rightarrow> push_opt ''verify-x509-name'' (fd_x509 x509) | None \<Rightarrow> [])
        @ (case nm_get data ''ta'' of
             Some ta \<Rightarrow>
               push_opt ''tls-auth''
                 ([ta] @ (case nm_get data ''ta-dir'' of Some dir \<Rightarrow> [dir] | None \<Rightarrow> []))
           | None \<Rightarrow> [])
        @ fd_opt ''tls-crypt'' (nm_get data ''tls-crypt'')
        @ fd_opt ''tls-crypt-v2'' (nm_get data ''tls-crypt-v2'')
        @ (case nm_get data ''tls-version-min'' of
             Some v \<Rightarrow>
               push_opt ''tls-version-min''
                 ([v] @ (if nm_get data ''tls-version-min-or-highest'' = Some ''yes''
                         then [''or-highest''] else []))
           | None \<Rightarrow> [])
        @ fd_pairs data tls_pairs
        @ (case nm_get data ''crl-verify-file'' of
             Some file \<Rightarrow> push_opt ''crl-verify'' [file]
           | None \<Rightarrow>
               (case nm_get data ''crl-verify-dir'' of
                  Some dir \<Rightarrow> push_opt ''crl-verify'' [dir, ''dir''] | None \<Rightarrow> []))
      else [])"

definition fd_dev :: "dict \<Rightarrow> directive list" where
  "fd_dev data =
     (let chosen_dev =
        (case nm_get data ''dev'' of
           Some d \<Rightarrow> d
         | None \<Rightarrow>
             (case nm_get data ''dev-type'' of
                Some d \<Rightarrow> d
              | None \<Rightarrow> if nm_get data ''tap-dev'' = Some ''yes'' then ''tap'' else ''tun''))
      in push_opt ''dev'' [chosen_dev] @ fd_opt ''dev-type'' (nm_get data ''dev-type'')
         @ push_opt ''proto'' [if nm_get data ''proto-tcp'' = Some ''yes'' then ''tcp'' else ''udp''])"

definition fd_proxy :: "dict \<Rightarrow> directive list" where
  "fd_proxy data =
     (case nm_get data ''proxy-type'' of
        None \<Rightarrow> []
      | Some pt \<Rightarrow>
          (case nm_get data ''proxy-server'' of
             None \<Rightarrow> []
           | Some server \<Rightarrow>
               if pt = ''http'' then
                 push_opt ''http-proxy''
                   [server, case nm_get data ''proxy-port'' of Some p \<Rightarrow> p | None \<Rightarrow> ''8080'']
                 @ (if nm_get data ''proxy-retry'' = Some ''yes'' then push_flag ''http-proxy-retry'' else [])
               else if pt = ''socks'' then
                 push_opt ''socks-proxy''
                   [server, case nm_get data ''proxy-port'' of Some p \<Rightarrow> p | None \<Rightarrow> ''1080'']
                 @ (if nm_get data ''proxy-retry'' = Some ''yes'' then push_flag ''socks-proxy-retry'' else [])
               else []))"

definition fd_tail :: "directive list" where
  "fd_tail =
     push_flag ''nobind'' @ push_flag ''auth-nocache'' @ push_opt ''script-security'' [''2'']
     @ push_flag ''persist-key'' @ push_flag ''persist-tun'' @ push_opt ''user'' [''nm-openvpn3'']
     @ push_opt ''group'' [''nm-openvpn3'']"

definition from_nm_data :: "dict \<Rightarrow> ovpn_config" where
  "from_nm_data data =
     fd_head data @ fd_certs data @ fd_auth data @ fd_pairs data pairs_str @ fd_compress data
     @ fd_mtu data @ fd_routes data @ fd_tls data @ fd_dev data @ fd_proxy data @ fd_tail"

section \<open>as_nm_data\<close>

record nm_scan =
  sdata :: dict
  have_auth_user_pass :: bool
  have_cert :: bool
  have_key :: bool
  have_secret :: bool
  have_ca :: bool
  have_tls_auth :: bool
  key_direction :: "str option"

definition nm_scan_init :: nm_scan where
  "nm_scan_init =
     \<lparr>sdata = Map.empty, have_auth_user_pass = False, have_cert = False, have_key = False,
      have_secret = False, have_ca = False, have_tls_auth = False, key_direction = None\<rparr>"

definition put :: "str \<Rightarrow> str \<Rightarrow> nm_scan \<Rightarrow> nm_scan" where
  "put k v s = s\<lparr>sdata := (sdata s)(k \<mapsto> v)\<rparr>"

definition put_opt :: "str \<Rightarrow> str option \<Rightarrow> nm_scan \<Rightarrow> nm_scan" where
  "put_opt k v s = (case v of Some x \<Rightarrow> put k x s | None \<Rightarrow> s)"

text \<open>The arms of the form \<open>if let Some(v) = a0 { data.insert(key, v) }\<close>: option and key.\<close>

definition simple_arms :: "(str \<times> str) list" where
  "simple_arms =
     [(''dev'', ''dev''), (''dev-type'', ''dev-type''), (''port'', ''port''), (''cipher'', ''cipher''),
      (''data-ciphers'', ''data-ciphers''), (''data-ciphers-fallback'', ''data-ciphers-fallback''),
      (''auth'', ''auth''), (''keysize'', ''keysize''), (''tls-cipher'', ''tls-cipher''),
      (''tun-mtu'', ''tunnel-mtu''), (''fragment'', ''fragment-size''), (''ping'', ''ping''),
      (''ping-exit'', ''ping-exit''), (''ping-restart'', ''ping-restart''),
      (''reneg-sec'', ''reneg-seconds''), (''connect-timeout'', ''connect-timeout''),
      (''server-poll-timeout'', ''connect-timeout''), (''allow-compression'', ''allow-compression''),
      (''ns-cert-type'', ''ns-cert-type''), (''remote-cert-tls'', ''remote-cert-tls''),
      (''tls-remote'', ''tls-remote''), (''tls-version-max'', ''tls-version-max''),
      (''tls-crypt'', ''tls-crypt''), (''tls-crypt-v2'', ''tls-crypt-v2''),
      (''extra-certs'', ''extra-certs'')]"

text \<open>The arms that record a bare flag as \<open>yes\<close> under its own name.\<close>

definition flag_arms :: "str list" where
  "flag_arms =
     [''float'', ''remote-random'', ''remote-random-hostname'', ''push-peer-info'', ''tun-ipv6'',
      ''allow-pull-fqdn'']"

definition encode_remote :: "str \<Rightarrow> str option \<Rightarrow> str option \<Rightarrow> str" where
  "encode_remote host port proto =
     (if CHR '':'' \<in> set host \<and> \<not> starts_with host ''['' then ''['' @ host @ '']'' else host)
     @ (if port \<noteq> None \<or> proto \<noteq> None then '':'' @ (case port of Some p \<Rightarrow> p | None \<Rightarrow> []) else [])
     @ (case proto of Some p \<Rightarrow> '':'' @ p | None \<Rightarrow> [])"

definition append_entry :: "str \<Rightarrow> char \<Rightarrow> str \<Rightarrow> nm_scan \<Rightarrow> nm_scan" where
  "append_entry k sep v s =
     (let entry = (case sdata s k of Some e \<Rightarrow> e | None \<Rightarrow> [])
      in put k (entry @ (if entry = [] then [] else [sep]) @ v) s)"

definition scan_remote :: "str list \<Rightarrow> nm_scan \<Rightarrow> nm_scan" where
  "scan_remote args s =
     append_entry ''remote'' (CHR '','')
       (encode_remote (case nth_opt args 0 of Some h \<Rightarrow> h | None \<Rightarrow> []) (nth_opt args 1)
          (nth_opt args 2)) s"

definition scan_proto :: "str list \<Rightarrow> nm_scan \<Rightarrow> nm_scan" where
  "scan_proto args s =
     (case nth_opt args 0 of
        Some p \<Rightarrow> if \<not> starts_with p ''udp'' then put ''proto-tcp'' ''yes'' s else s
      | None \<Rightarrow> s)"

definition scan_comp_lzo :: "str list \<Rightarrow> nm_scan \<Rightarrow> nm_scan" where
  "scan_comp_lzo args s =
     (let v = (case nth_opt args 0 of Some v \<Rightarrow> v | None \<Rightarrow> ''yes'')
      in put ''comp-lzo'' (if v = ''no'' then ''no-by-default'' else v) s)"

definition scan_x509 :: "str list \<Rightarrow> nm_scan \<Rightarrow> nm_scan" where
  "scan_x509 args s =
     (let name = (case nth_opt args 0 of Some n \<Rightarrow> n | None \<Rightarrow> [])
      in put ''verify-x509-name''
           (case nth_opt args 1 of Some t \<Rightarrow> t @ '':'' @ name | None \<Rightarrow> name) s)"

definition scan_tls_version_min :: "str list \<Rightarrow> nm_scan \<Rightarrow> nm_scan" where
  "scan_tls_version_min args s =
     (let s = put_opt ''tls-version-min'' (nth_opt args 0) s
      in if nth_opt args 1 = Some ''or-highest'' then put ''tls-version-min-or-highest'' ''yes'' s else s)"

definition scan_cert :: "str \<Rightarrow> str list \<Rightarrow> nm_scan \<Rightarrow> nm_scan" where
  "scan_cert name args s =
     (case nth_opt args 0 of
        None \<Rightarrow> s
      | Some v \<Rightarrow>
          if name = ''ca'' then (put ''ca'' v s)\<lparr>have_ca := True\<rparr>
          else if name = ''cert'' then (put ''cert'' v s)\<lparr>have_cert := True\<rparr>
          else if name = ''key'' then (put ''key'' v s)\<lparr>have_key := True\<rparr>
          else \<comment> \<open>pkcs12\<close>
            (put ''key'' v (put ''cert'' v (put ''ca'' v s)))
              \<lparr>have_ca := True, have_cert := True, have_key := True\<rparr>)"

definition scan_secret :: "str list \<Rightarrow> nm_scan \<Rightarrow> nm_scan" where
  "scan_secret args s =
     (let s = (case nth_opt args 0 of
                 Some v \<Rightarrow> (put ''static-key'' v s)\<lparr>have_secret := True\<rparr>
               | None \<Rightarrow> s)
      in put_opt ''static-key-direction'' (nth_opt args 1) s)"

definition scan_tls_auth :: "str list \<Rightarrow> nm_scan \<Rightarrow> nm_scan" where
  "scan_tls_auth args s =
     put_opt ''ta-dir'' (nth_opt args 1)
       (put_opt ''ta'' (nth_opt args 0) (s\<lparr>have_tls_auth := True\<rparr>))"

definition scan_crl :: "str list \<Rightarrow> nm_scan \<Rightarrow> nm_scan" where
  "scan_crl args s =
     (case nth_opt args 0 of
        Some v \<Rightarrow>
          put (if nth_opt args 1 = Some ''dir'' then ''crl-verify-dir'' else ''crl-verify-file'') v s
      | None \<Rightarrow> s)"

definition scan_proxy :: "str \<Rightarrow> str list \<Rightarrow> nm_scan \<Rightarrow> nm_scan" where
  "scan_proxy ty args s =
     (case nth_opt args 0 of
        None \<Rightarrow> s
      | Some server \<Rightarrow>
          (let s = put ''proxy-server'' server (put ''proxy-type'' ty s);
               s = put_opt ''proxy-port'' (nth_opt args 1) s
           in if ty = ''http'' then put_opt ''http-proxy-auth-file'' (nth_opt args 2) s else s))"

definition scan_pair :: "str \<Rightarrow> str \<Rightarrow> str list \<Rightarrow> nm_scan \<Rightarrow> nm_scan" where
  "scan_pair k1 k2 args s =
     (case (nth_opt args 0, nth_opt args 1) of
        (Some a, Some b) \<Rightarrow> put k2 b (put k1 a s)
      | _ \<Rightarrow> s)"

definition scan_option :: "str \<Rightarrow> str list \<Rightarrow> nm_scan \<Rightarrow> nm_scan" where
  "scan_option n args s =
     (case map_of simple_arms n of
        Some k \<Rightarrow> put_opt k (nth_opt args 0) s
      | None \<Rightarrow>
          if n \<in> set flag_arms then put n ''yes'' s
          else if n = ''auth-user-pass'' then s\<lparr>have_auth_user_pass := True\<rparr>
          else if n = ''proto'' then scan_proto args s
          else if n = ''remote'' then scan_remote args s
          else if n = ''mssfix'' then
            put ''mssfix'' (case nth_opt args 0 of Some v \<Rightarrow> v | None \<Rightarrow> ''yes'') s
          else if n = ''comp-lzo'' then scan_comp_lzo args s
          else if n = ''compress'' then
            put ''compress'' (case nth_opt args 0 of Some v \<Rightarrow> v | None \<Rightarrow> ''yes'') s
          else if n = ''verify-x509-name'' then scan_x509 args s
          else if n = ''tls-version-min'' then scan_tls_version_min args s
          else if n \<in> {''ca'', ''cert'', ''key'', ''pkcs12''} then scan_cert n args s
          else if n = ''secret'' then scan_secret args s
          else if n = ''tls-auth'' then scan_tls_auth args s
          else if n = ''key-direction'' then
            (case nth_opt args 0 of Some dir \<Rightarrow> s\<lparr>key_direction := Some dir\<rparr> | None \<Rightarrow> s)
          else if n = ''crl-verify'' then scan_crl args s
          else if n = ''http-proxy'' then scan_proxy ''http'' args s
          else if n = ''socks-proxy'' then scan_proxy ''socks'' args s
          else if n = ''ifconfig'' then scan_pair ''local-ip'' ''remote-ip'' args s
          else if n = ''route'' then
            append_entry ''nm-openvpn3-extra-routes'' LF (join '' '' (''route'' # args)) s
          else if n = ''keepalive'' then scan_pair ''ping'' ''ping-restart'' args s
          else s)"

definition scan_blob :: "str \<Rightarrow> nm_scan \<Rightarrow> nm_scan" where
  "scan_blob name s =
     (if name = ''ca'' then s\<lparr>have_ca := True\<rparr>
      else if name = ''cert'' then s\<lparr>have_cert := True\<rparr>
      else if name = ''key'' then s\<lparr>have_key := True\<rparr>
      else if name = ''secret'' then s\<lparr>have_secret := True\<rparr>
      else s)"

fun scan_directive :: "nm_scan \<Rightarrow> directive \<Rightarrow> nm_scan" where
  "scan_directive s (Option n args) = scan_option n args s"
| "scan_directive s (Blob n body) = scan_blob n s"

definition or_insert :: "str \<Rightarrow> str \<Rightarrow> dict \<Rightarrow> dict" where
  "or_insert k v m = (case m k of Some _ \<Rightarrow> m | None \<Rightarrow> m(k \<mapsto> v))"

definition resolve_key_direction :: "nm_scan \<Rightarrow> dict" where
  "resolve_key_direction s =
     (case key_direction s of
        Some dir \<Rightarrow>
          if have_tls_auth s then or_insert ''ta-dir'' dir (sdata s)
          else if have_secret s then or_insert ''static-key-direction'' dir (sdata s)
          else sdata s
      | None \<Rightarrow> sdata s)"

definition infer_contype :: "nm_scan \<Rightarrow> str" where
  "infer_contype s =
     (if have_secret s then ''static-key''
      else if have_cert s \<and> have_key s \<and> have_auth_user_pass s then ''password-tls''
      else if have_cert s \<and> have_key s then ''tls''
      else if have_auth_user_pass s then ''password''
      else if have_ca s then ''tls''
      else ''tls'')"

definition as_nm_data :: "ovpn_config \<Rightarrow> dict" where
  "as_nm_data ds =
     (let s = foldl scan_directive nm_scan_init ds
      in (resolve_key_direction s)(''connection-type'' \<mapsto> infer_contype s))"

end
