(* ===== verification/Build_Profile.thy ===== *)
theory Build_Profile
  imports Line_Codec
begin

text \<open>
  \<open>nm-openvpn3-service/src/build_profile.rs\<close>: the connect-side emitter.  It turns
  the \<open>vpn.data\<close> dictionary into the text of an \<open>.ovpn\<close> profile.  One
  definition per block of \<open>build_profile_string\<close>, in the order of the code,
  each a function on the \<open>Writer\<close>; logging calls are not modelled.  The second
  half states what the text is: a list of entries (quoted word lines, or verbatim
  route lines that passed the allow-list), block by block.
\<close>

section \<open>Reading vpn.data\<close>

definition arg_is_set :: "str option \<Rightarrow> str option" where
  "arg_is_set value = nonempty value"

definition get :: "dict \<Rightarrow> str \<Rightarrow> str option" where
  "get data k = arg_is_set (data k)"

definition is_tls_like :: "str option \<Rightarrow> bool" where
  "is_tls_like ct \<longleftrightarrow> ct \<in> {Some ''tls'', Some ''password'', Some ''password-tls''}"

definition is_password_like :: "str option \<Rightarrow> bool" where
  "is_password_like ct \<longleftrightarrow> ct \<in> {Some ''password'', Some ''password-tls''}"

definition needs_user_cert :: "str option \<Rightarrow> bool" where
  "needs_user_cert ct \<longleftrightarrow> ct \<in> {Some ''tls'', Some ''password-tls''}"

definition is_pkcs12_path :: "str \<Rightarrow> bool" where
  "is_pkcs12_path path =
     (let lower = to_ascii_lowercase path in ends_with lower ''.p12'' \<or> ends_with lower ''.pfx'')"

section \<open>The allow-list of preserved route lines\<close>

definition ALLOWED_ROUTES :: "str list" where
  "ALLOWED_ROUTES =
     [''route'', ''route-ipv6'', ''route-gateway'', ''route-metric'', ''route-delay'']"

definition is_route_arg_char :: "char \<Rightarrow> bool" where
  "is_route_arg_char c \<longleftrightarrow> is_ascii_alphanumeric c
     \<or> c \<in> {CHR ''.'', CHR '':'', CHR ''/'', CHR ''_'', CHR ''-''}"

definition is_safe_route_line :: "str \<Rightarrow> bool" where
  "is_safe_route_line l =
     (if list_ex is_control l then False
      else case split_whitespace l of
             [] \<Rightarrow> False
           | directive # tokens \<Rightarrow>
               if directive \<notin> set ALLOWED_ROUTES then False
               else list_all (\<lambda>tok. tok \<noteq> [] \<and> list_all is_route_arg_char tok) tokens)"

section \<open>Remote entries\<close>

definition parse_remote_bare :: "str \<Rightarrow> str \<times> str option \<times> str option" where
  "parse_remote_bare input =
     (let it = splitn 3 (CHR '':'') input;
          host = (case nth_opt it 0 of Some h \<Rightarrow> h | None \<Rightarrow> []);
          port = nonempty (nth_opt it 1);
          proto = nonempty (nth_opt it 2)
      in (host, port, proto))"

definition parse_remote :: "str \<Rightarrow> str \<times> str option \<times> str option" where
  "parse_remote input =
     (case strip_prefix ''['' input of
        Some rest \<Rightarrow>
          (case split_once (CHR '']'') rest of
             Some (host, tail) \<Rightarrow>
               (let it = splitn 2 (CHR '':'')
                           (case strip_prefix '':'' tail of Some t \<Rightarrow> t | None \<Rightarrow> tail)
                in (host, nonempty (nth_opt it 0), nonempty (nth_opt it 1)))
           | None \<Rightarrow> parse_remote_bare input)
      | None \<Rightarrow> parse_remote_bare input)"

definition is_remote_sep :: "char \<Rightarrow> bool" where
  "is_remote_sep c \<longleftrightarrow> c \<in> {CHR '' '', TAB, CHR '',''}"

fun bp_remotes :: "str list \<Rightarrow> writer \<Rightarrow> writer" where
  "bp_remotes [] w = w"
| "bp_remotes (gw # gws) w =
     (let gw = trim gw
      in if gw = [] then bp_remotes gws w
         else let (host, port, proto) = parse_remote gw;
                  port_or_default =
                    (case (port, proto) of
                       (Some p, _) \<Rightarrow> Some p
                     | (None, Some _) \<Rightarrow> Some ''1194''
                     | (None, None) \<Rightarrow> None)
              in bp_remotes gws (line_opt [Some ''remote'', Some host, port_or_default, proto] w))"

section \<open>Emitting single options\<close>

definition line_str :: "str \<Rightarrow> str option \<Rightarrow> writer \<Rightarrow> writer" where
  "line_str tag value w = (case value of Some v \<Rightarrow> line [tag, v] w | None \<Rightarrow> w)"

definition line_int :: "str \<Rightarrow> str option \<Rightarrow> writer \<Rightarrow> writer" where
  "line_int tag value w =
     (case value of
        Some v \<Rightarrow> if parse_i64 v \<noteq> None then line [tag, v] w else w
      | None \<Rightarrow> w)"

definition line_flag :: "dict \<Rightarrow> str \<Rightarrow> str \<Rightarrow> writer \<Rightarrow> writer" where
  "line_flag data key tag w = (if get data key = Some ''yes'' then line [tag] w else w)"

section \<open>The blocks of build_profile_string\<close>

definition bp_client :: "dict \<Rightarrow> writer \<Rightarrow> writer" where
  "bp_client data w = (if is_tls_like (get data ''connection-type'') then line [''client''] w else w)"

definition bp_flags :: "dict \<Rightarrow> writer \<Rightarrow> writer" where
  "bp_flags data w =
     (let w = line_flag data ''remote-random'' ''remote-random'' w;
          w = line_flag data ''remote-random-hostname'' ''remote-random-hostname'' w;
          w = line_flag data ''allow-pull-fqdn'' ''allow-pull-fqdn'' w;
          w = line_flag data ''tun-ipv6'' ''tun-ipv6'' w
      in line_flag data ''push-peer-info'' ''push-peer-info'' w)"

definition bp_certs :: "dict \<Rightarrow> writer \<Rightarrow> writer" where
  "bp_certs data w =
     (let ct = get data ''connection-type'';
          cert_v = (if needs_user_cert ct then get data ''cert'' else None);
          key_v = (if needs_user_cert ct then get data ''key'' else None);
          pkcs12_collapse =
            (case (cert_v, key_v) of (Some c, Some k) \<Rightarrow> c = k \<and> is_pkcs12_path c | _ \<Rightarrow> False)
      in if pkcs12_collapse then line [''pkcs12'', the cert_v] w
         else let w = (if is_tls_like ct then line_str ''ca'' (get data ''ca'') w else w)
              in if needs_user_cert ct
                 then line_str ''key'' key_v (line_str ''cert'' cert_v w)
                 else w)"

definition bp_auth :: "dict \<Rightarrow> writer \<Rightarrow> writer" where
  "bp_auth data w =
     (let ct = get data ''connection-type'';
          w = (if is_password_like ct then line [''auth-user-pass''] w else w)
      in if ct = Some ''static-key'' then
           (case get data ''static-key'' of
              Some secret \<Rightarrow>
                line_opt [Some ''secret'', Some secret, get data ''static-key-direction''] w
            | None \<Rightarrow> w)
         else w)"

definition bp_crypto :: "dict \<Rightarrow> writer \<Rightarrow> writer" where
  "bp_crypto data w =
     (let w = line_int ''reneg-sec'' (get data ''reneg-seconds'') w;
          w = line_int ''max-routes'' (get data ''max-routes'') w;
          w = line_str ''cipher'' (get data ''cipher'') w;
          w = line_str ''data-ciphers'' (get data ''data-ciphers'') w;
          w = line_str ''data-ciphers-fallback'' (get data ''data-ciphers-fallback'') w;
          w = line_str ''tls-cipher'' (get data ''tls-cipher'') w;
          w = line_str ''auth'' (get data ''auth'') w;
          w = line_int ''keysize'' (get data ''keysize'') w
      in line_str ''allow-compression'' (get data ''allow-compression'') w)"

definition bp_compress :: "dict \<Rightarrow> writer \<Rightarrow> writer" where
  "bp_compress data w =
     (if get data ''allow-compression'' \<noteq> Some ''no'' then
        let w = (case get data ''comp-lzo'' of
                   Some lzo \<Rightarrow>
                     line [''comp-lzo'', if lzo = ''no-by-default'' then ''no'' else lzo] w
                 | None \<Rightarrow> w)
        in (case get data ''compress'' of
              Some v \<Rightarrow> if v = ''yes'' then line [''compress''] w else line [''compress'', v] w
            | None \<Rightarrow> w)
      else w)"

definition bp_mtu :: "dict \<Rightarrow> writer \<Rightarrow> writer" where
  "bp_mtu data w =
     (let w = line_flag data ''float'' ''float'' w;
          w = (case get data ''mssfix'' of
                 Some v \<Rightarrow>
                   if v = ''yes'' then line [''mssfix''] w
                   else (case parse_i64 v of
                           Some n \<Rightarrow> line [''mssfix'', show_int n] w
                         | None \<Rightarrow> w)
               | None \<Rightarrow> w);
          w = line_str ''mtu-disc'' (get data ''mtu-disc'') w;
          w = line_int ''tun-mtu'' (get data ''tunnel-mtu'') w;
          w = line_int ''connect-timeout'' (get data ''connect-timeout'') w
      in line_int ''fragment'' (get data ''fragment-size'') w)"

definition bp_crl :: "dict \<Rightarrow> writer \<Rightarrow> writer" where
  "bp_crl data w =
     (if is_tls_like (get data ''connection-type'') then
        (case get data ''crl-verify-file'' of
           Some file \<Rightarrow> line [''crl-verify'', file] w
         | None \<Rightarrow>
             (case get data ''crl-verify-dir'' of
                Some dir \<Rightarrow> line [''crl-verify'', dir, ''dir''] w
              | None \<Rightarrow> w))
      else w)"

definition bp_dev :: "dict \<Rightarrow> writer \<Rightarrow> writer" where
  "bp_dev data w =
     (let dev = get data ''dev'';
          dev_type = get data ''dev-type'';
          tap_dev = (get data ''tap-dev'' = Some ''yes'');
          chosen_dev =
            (case dev of
               Some d \<Rightarrow> d
             | None \<Rightarrow> (case dev_type of Some d \<Rightarrow> d | None \<Rightarrow> if tap_dev then ''tap'' else ''tun''));
          w = line [''dev'', chosen_dev] w;
          w = line_str ''dev-type'' dev_type w
      in line [''proto'', if get data ''proto-tcp'' = Some ''yes'' then ''tcp'' else ''udp''] w)"

definition bp_ping :: "dict \<Rightarrow> writer \<Rightarrow> writer" where
  "bp_ping data w =
     (let w = line_int ''port'' (get data ''port'') w;
          w = line_int ''ping'' (get data ''ping'') w;
          w = line_int ''ping-exit'' (get data ''ping-exit'') w;
          w = line_int ''ping-restart'' (get data ''ping-restart'') w
      in (case (get data ''local-ip'', get data ''remote-ip'') of
            (Some local, Some remote) \<Rightarrow> line [''ifconfig'', local, remote] w
          | _ \<Rightarrow> w))"

fun bp_route_lines :: "str list \<Rightarrow> writer \<Rightarrow> writer" where
  "bp_route_lines [] w = w"
| "bp_route_lines (l # ls) w =
     (let l = trim l
      in if l = [] then bp_route_lines ls w
         else if is_safe_route_line l then bp_route_lines ls (raw_line l w)
         else bp_route_lines ls w)"

definition bp_routes :: "dict \<Rightarrow> writer \<Rightarrow> writer" where
  "bp_routes data w =
     (case get data ''nm-openvpn3-extra-routes'' of
        Some routes \<Rightarrow> bp_route_lines (lines routes) w
      | None \<Rightarrow> w)"

definition bp_x509 :: "str \<Rightarrow> writer \<Rightarrow> writer" where
  "bp_x509 x509_name w =
     (case split_once (CHR '':'') x509_name of
        Some (ty, name) \<Rightarrow>
          if ty \<in> {''subject'', ''name'', ''name-prefix''}
          then line [''verify-x509-name'', name, ty] w
          else line [''verify-x509-name'', x509_name] w
      | None \<Rightarrow> line [''verify-x509-name'', x509_name] w)"

definition bp_tls :: "dict \<Rightarrow> writer \<Rightarrow> writer" where
  "bp_tls data w =
     (if is_tls_like (get data ''connection-type'') then
        let w = line_str ''remote-cert-tls'' (get data ''remote-cert-tls'') w;
            w = line_str ''ns-cert-type'' (get data ''ns-cert-type'') w;
            w = line_str ''tls-remote'' (get data ''tls-remote'') w;
            w = (case get data ''verify-x509-name'' of Some x \<Rightarrow> bp_x509 x w | None \<Rightarrow> w);
            w = (case get data ''ta'' of
                   Some ta \<Rightarrow> line_opt [Some ''tls-auth'', Some ta, get data ''ta-dir''] w
                 | None \<Rightarrow> w);
            w = line_str ''tls-crypt'' (get data ''tls-crypt'') w;
            w = line_str ''tls-crypt-v2'' (get data ''tls-crypt-v2'') w;
            w = (case get data ''tls-version-min'' of
                   Some v \<Rightarrow>
                     line_opt [Some ''tls-version-min'', Some v,
                               if get data ''tls-version-min-or-highest'' = Some ''yes''
                               then Some ''or-highest'' else None] w
                 | None \<Rightarrow> w);
            w = line_str ''tls-version-max'' (get data ''tls-version-max'') w
        in line_str ''extra-certs'' (get data ''extra-certs'') w
      else w)"

definition bp_proxy :: "dict \<Rightarrow> writer \<Rightarrow> writer" where
  "bp_proxy data w =
     (case get data ''proxy-type'' of
        None \<Rightarrow> w
      | Some proxy_type \<Rightarrow>
          (case get data ''proxy-server'' of
             None \<Rightarrow> w
           | Some server \<Rightarrow>
               if proxy_type = ''http'' then
                 let port = (case get data ''proxy-port'' of Some p \<Rightarrow> p | None \<Rightarrow> ''8080'')
                 in line_flag data ''proxy-retry'' ''http-proxy-retry''
                      (line [''http-proxy'', server, port] w)
               else if proxy_type = ''socks'' then
                 let port = (case get data ''proxy-port'' of Some p \<Rightarrow> p | None \<Rightarrow> ''1080'')
                 in line_flag data ''proxy-retry'' ''socks-proxy-retry''
                      (line [''socks-proxy'', server, port] w)
               else w))"

definition bp_tail :: "writer \<Rightarrow> writer" where
  "bp_tail w =
     (let w = line [''nobind''] w;
          w = line [''auth-nocache''] w;
          w = line [''script-security'', ''2''] w;
          w = line [''persist-key''] w;
          w = line [''persist-tun''] w;
          w = line [''user'', ''nm-openvpn3''] w
      in line [''group'', ''nm-openvpn3''] w)"

datatype bp_error = Remote_Required

definition build_profile_string :: "dict \<Rightarrow> dict \<Rightarrow> (bp_error, str) result" where
  "build_profile_string data secrets =
     (case get data ''remote'' of
        None \<Rightarrow> Inl Remote_Required
      | Some gateways \<Rightarrow>
          let w = bp_client data writer_new;
              w = bp_remotes (split_on is_remote_sep gateways) w;
              w = bp_flags data w;
              w = bp_certs data w;
              w = bp_auth data w;
              w = bp_crypto data w;
              w = bp_compress data w;
              w = bp_mtu data w;
              w = bp_crl data w;
              w = bp_dev data w;
              w = bp_ping data w;
              w = bp_routes data w;
              w = bp_tls data w;
              w = bp_proxy data w;
              w = bp_tail w
          in Inr (buf w))"


section \<open>What the text is: entries\<close>

text \<open>
  A profile is a list of entries: \<open>Words\<close> is a line of quoted arguments,
  \<open>Raw\<close> a preserved route line.  \<open>connect_entries\<close> lists the entries of a
  dictionary without the accumulator; \<open>build_profile_text\<close> below shows that the
  code writes exactly these.
\<close>

datatype entry = Words "str list" | Raw str

fun entry_text :: "entry \<Rightarrow> str" where
  "entry_text (Words ws) = words_line ws"
| "entry_text (Raw l) = l"

definition entries_text :: "entry list \<Rightarrow> str" where
  "entries_text es = concat (map (\<lambda>e. entry_text e @ [LF]) es)"

lemma entries_text_simps [simp]:
  "entries_text [] = []"
  "entries_text (e # es) = entry_text e @ LF # entries_text es"
  "entries_text (xs @ ys) = entries_text xs @ entries_text ys"
  by (simp_all add: entries_text_def)

definition str_entry :: "str \<Rightarrow> str option \<Rightarrow> entry list" where
  "str_entry tag v = (case v of Some x \<Rightarrow> [Words [tag, x]] | None \<Rightarrow> [])"

definition int_entry :: "str \<Rightarrow> str option \<Rightarrow> entry list" where
  "int_entry tag v =
     (case v of Some x \<Rightarrow> if parse_i64 x \<noteq> None then [Words [tag, x]] else [] | None \<Rightarrow> [])"

definition flag_entry :: "dict \<Rightarrow> str \<Rightarrow> str \<Rightarrow> entry list" where
  "flag_entry data key tag = (if get data key = Some ''yes'' then [Words [tag]] else [])"

lemma buf_line_str: "buf (line_str tag v w) = buf w @ entries_text (str_entry tag v)"
  by (simp add: line_str_def str_entry_def buf_line split: option.split)

lemma buf_line_int: "buf (line_int tag v w) = buf w @ entries_text (int_entry tag v)"
  by (simp add: line_int_def int_entry_def buf_line split: option.split)

lemma buf_line_flag: "buf (line_flag data key tag w) = buf w @ entries_text (flag_entry data key tag)"
  by (simp add: line_flag_def flag_entry_def buf_line)

lemmas buf_simps = buf_line buf_line_opt buf_raw_line buf_line_str buf_line_int buf_line_flag
  List.map_filter_simps Let_def

text \<open>The words of one remote entry, and of a quoted optional tail.\<close>

definition opt_list :: "'a option \<Rightarrow> 'a list" where
  "opt_list v = (case v of Some x \<Rightarrow> [x] | None \<Rightarrow> [])"

lemma opt_list_simps [simp]: "opt_list None = []" "opt_list (Some x) = [x]"
  by (simp_all add: opt_list_def)

definition remote_words :: "str \<Rightarrow> str list" where
  "remote_words gw =
     (let (host, port, proto) = parse_remote gw
      in [''remote'', host]
         @ (case port of Some p \<Rightarrow> [p] | None \<Rightarrow> (if proto = None then [] else [''1194'']))
         @ opt_list proto)"

definition remote_list :: "str \<Rightarrow> str list" where
  "remote_list gateways = filter (\<lambda>gw. gw \<noteq> []) (map trim (split_on is_remote_sep gateways))"

definition route_list :: "dict \<Rightarrow> str list" where
  "route_list data =
     (case get data ''nm-openvpn3-extra-routes'' of
        Some routes \<Rightarrow> filter (\<lambda>l. l \<noteq> [] \<and> is_safe_route_line l) (map trim (lines routes))
      | None \<Rightarrow> [])"

definition client_entries :: "dict \<Rightarrow> entry list" where
  "client_entries data =
     (if is_tls_like (get data ''connection-type'') then [Words [''client'']] else [])"

definition flags_entries :: "dict \<Rightarrow> entry list" where
  "flags_entries data =
     concat (map (\<lambda>f. flag_entry data f f)
       [''remote-random'', ''remote-random-hostname'', ''allow-pull-fqdn'', ''tun-ipv6'',
        ''push-peer-info''])"

text \<open>
  The two emitters collapse a PKCS#12 triple under different conditions, so the
  condition is an argument.
\<close>

definition cert_entries :: "bool \<Rightarrow> dict \<Rightarrow> entry list" where
  "cert_entries collapse data =
     (let ct = get data ''connection-type'';
          cert_v = (if needs_user_cert ct then get data ''cert'' else None);
          key_v = (if needs_user_cert ct then get data ''key'' else None);
          ca_v = (if is_tls_like ct then get data ''ca'' else None)
      in if collapse then str_entry ''pkcs12'' cert_v
         else str_entry ''ca'' ca_v @ str_entry ''cert'' cert_v @ str_entry ''key'' key_v)"

definition connect_collapse :: "dict \<Rightarrow> bool" where
  "connect_collapse data =
     (needs_user_cert (get data ''connection-type'')
      \<and> (case get data ''cert'' of
            Some c \<Rightarrow> get data ''key'' = Some c \<and> is_pkcs12_path c | None \<Rightarrow> False))"

definition auth_entries :: "dict \<Rightarrow> entry list" where
  "auth_entries data =
     (let ct = get data ''connection-type''
      in (if is_password_like ct then [Words [''auth-user-pass'']] else [])
         @ (if ct = Some ''static-key'' then
              (case get data ''static-key'' of
                 Some secret \<Rightarrow>
                   [Words ([''secret'', secret] @ opt_list (get data ''static-key-direction''))]
               | None \<Rightarrow> [])
            else []))"

definition compress_entries :: "dict \<Rightarrow> entry list" where
  "compress_entries data =
     (if get data ''allow-compression'' \<noteq> Some ''no'' then
        str_entry ''comp-lzo''
          (map_option (\<lambda>lzo. if lzo = ''no-by-default'' then ''no'' else lzo) (get data ''comp-lzo''))
        @ (case get data ''compress'' of
             Some v \<Rightarrow> [Words (if v = ''yes'' then [''compress''] else [''compress'', v])]
           | None \<Rightarrow> [])
      else [])"

definition crl_entries :: "dict \<Rightarrow> entry list" where
  "crl_entries data =
     (if is_tls_like (get data ''connection-type'') then
        (case get data ''crl-verify-file'' of
           Some file \<Rightarrow> [Words [''crl-verify'', file]]
         | None \<Rightarrow>
             (case get data ''crl-verify-dir'' of
                Some dir \<Rightarrow> [Words [''crl-verify'', dir, ''dir'']] | None \<Rightarrow> []))
      else [])"

definition chosen_dev :: "dict \<Rightarrow> str" where
  "chosen_dev data =
     (case get data ''dev'' of
        Some d \<Rightarrow> d
      | None \<Rightarrow>
          (case get data ''dev-type'' of
             Some d \<Rightarrow> d
           | None \<Rightarrow> if get data ''tap-dev'' = Some ''yes'' then ''tap'' else ''tun''))"

definition dev_entries :: "dict \<Rightarrow> entry list" where
  "dev_entries data =
     [Words [''dev'', chosen_dev data]] @ str_entry ''dev-type'' (get data ''dev-type'')
     @ [Words [''proto'', if get data ''proto-tcp'' = Some ''yes'' then ''tcp'' else ''udp'']]"

definition ifconfig_entries :: "dict \<Rightarrow> entry list" where
  "ifconfig_entries data =
     (case (get data ''local-ip'', get data ''remote-ip'') of
        (Some local, Some remote) \<Rightarrow> [Words [''ifconfig'', local, remote]] | _ \<Rightarrow> [])"

definition x509_words :: "str \<Rightarrow> str list" where
  "x509_words x =
     (case split_once (CHR '':'') x of
        Some (ty, name) \<Rightarrow>
          if ty \<in> {''subject'', ''name'', ''name-prefix''} then [name, ty] else [x]
      | None \<Rightarrow> [x])"

definition tls_entries :: "dict \<Rightarrow> entry list" where
  "tls_entries data =
     (if is_tls_like (get data ''connection-type'') then
        str_entry ''remote-cert-tls'' (get data ''remote-cert-tls'')
        @ str_entry ''ns-cert-type'' (get data ''ns-cert-type'')
        @ str_entry ''tls-remote'' (get data ''tls-remote'')
        @ (case get data ''verify-x509-name'' of
             Some x \<Rightarrow> [Words (''verify-x509-name'' # x509_words x)] | None \<Rightarrow> [])
        @ (case get data ''ta'' of
             Some ta \<Rightarrow> [Words ([''tls-auth'', ta] @ opt_list (get data ''ta-dir''))] | None \<Rightarrow> [])
        @ str_entry ''tls-crypt'' (get data ''tls-crypt'')
        @ str_entry ''tls-crypt-v2'' (get data ''tls-crypt-v2'')
        @ (case get data ''tls-version-min'' of
             Some v \<Rightarrow>
               [Words ([''tls-version-min'', v]
                  @ (if get data ''tls-version-min-or-highest'' = Some ''yes''
                     then [''or-highest''] else []))]
           | None \<Rightarrow> [])
        @ str_entry ''tls-version-max'' (get data ''tls-version-max'')
        @ str_entry ''extra-certs'' (get data ''extra-certs'')
      else [])"

definition proxy_entry :: "dict \<Rightarrow> str \<Rightarrow> str \<Rightarrow> str \<Rightarrow> str \<Rightarrow> entry list" where
  "proxy_entry data server tag retry default_port =
     [Words [tag, server, case get data ''proxy-port'' of Some p \<Rightarrow> p | None \<Rightarrow> default_port]]
     @ flag_entry data ''proxy-retry'' retry"

definition proxy_entries :: "dict \<Rightarrow> entry list" where
  "proxy_entries data =
     (case (get data ''proxy-type'', get data ''proxy-server'') of
        (Some pt, Some server) \<Rightarrow>
          if pt = ''http'' then proxy_entry data server ''http-proxy'' ''http-proxy-retry'' ''8080''
          else if pt = ''socks'' then proxy_entry data server ''socks-proxy'' ''socks-proxy-retry'' ''1080''
          else []
      | _ \<Rightarrow> [])"

definition tail_words :: "str list list" where
  "tail_words =
     [[''nobind''], [''auth-nocache''], [''script-security'', ''2''], [''persist-key''],
      [''persist-tun''], [''user'', ''nm-openvpn3''], [''group'', ''nm-openvpn3'']]"

definition int_entries :: "dict \<Rightarrow> (str \<times> str) list \<Rightarrow> entry list" where
  "int_entries data ks = concat (map (\<lambda>(k, tag). int_entry tag (get data k)) ks)"

definition str_entries :: "dict \<Rightarrow> (str \<times> str) list \<Rightarrow> entry list" where
  "str_entries data ks = concat (map (\<lambda>(k, tag). str_entry tag (get data k)) ks)"

definition mssfix_entries :: "dict \<Rightarrow> entry list" where
  "mssfix_entries data =
     (case get data ''mssfix'' of
        Some v \<Rightarrow>
          if v = ''yes'' then [Words [''mssfix'']]
          else (case parse_i64 v of Some n \<Rightarrow> [Words [''mssfix'', show_int n]] | None \<Rightarrow> [])
      | None \<Rightarrow> [])"

definition before_routes :: "dict \<Rightarrow> str \<Rightarrow> entry list" where
  "before_routes data gateways =
     client_entries data
     @ map (\<lambda>gw. Words (remote_words gw)) (remote_list gateways)
     @ flags_entries data
     @ cert_entries (connect_collapse data) data
     @ auth_entries data
     @ int_entries data [(''reneg-seconds'', ''reneg-sec''), (''max-routes'', ''max-routes'')]
     @ str_entries data [(''cipher'', ''cipher''), (''data-ciphers'', ''data-ciphers''),
         (''data-ciphers-fallback'', ''data-ciphers-fallback''), (''tls-cipher'', ''tls-cipher''),
         (''auth'', ''auth'')]
     @ int_entries data [(''keysize'', ''keysize'')]
     @ str_entries data [(''allow-compression'', ''allow-compression'')]
     @ compress_entries data
     @ flag_entry data ''float'' ''float''
     @ mssfix_entries data
     @ str_entries data [(''mtu-disc'', ''mtu-disc'')]
     @ int_entries data [(''tunnel-mtu'', ''tun-mtu''), (''connect-timeout'', ''connect-timeout''),
         (''fragment-size'', ''fragment'')]
     @ crl_entries data
     @ dev_entries data
     @ int_entries data [(''port'', ''port''), (''ping'', ''ping''), (''ping-exit'', ''ping-exit''),
         (''ping-restart'', ''ping-restart'')]
     @ ifconfig_entries data"

definition connect_body :: "dict \<Rightarrow> str \<Rightarrow> entry list" where
  "connect_body data gateways =
     before_routes data gateways @ map Raw (route_list data)
     @ tls_entries data @ proxy_entries data"

definition connect_entries :: "dict \<Rightarrow> str \<Rightarrow> entry list" where
  "connect_entries data gateways = connect_body data gateways @ map Words tail_words"

section \<open>Each block writes its entries\<close>

lemma buf_client: "buf (bp_client data w) = buf w @ entries_text (client_entries data)"
  by (simp add: bp_client_def client_entries_def buf_simps)

lemma remote_words_nonempty: "remote_words gw \<noteq> []"
  by (simp add: remote_words_def split: prod.split)

lemma buf_remotes_aux:
  "buf (bp_remotes gws w) =
     buf w @ entries_text (map (\<lambda>gw. Words (remote_words gw)) (filter (\<lambda>gw. gw \<noteq> []) (map trim gws)))"
proof (induction gws w rule: bp_remotes.induct)
  case (2 gw gws w)
  obtain host port proto where pr: "parse_remote (trim gw) = (host, port, proto)"
    by (cases "parse_remote (trim gw)")
  show ?case
  proof (cases "trim gw = []")
    case True
    with "2.IH"(1) show ?thesis by simp
  next
    case False
    with "2.IH"(2) [OF refl False pr [symmetric] refl refl] show ?thesis
      by (cases port; cases proto)
         (simp_all add: Let_def pr buf_line_opt remote_words_def List.map_filter_simps)
  qed
qed simp

lemma buf_remotes:
  "buf (bp_remotes (split_on is_remote_sep gateways) w) =
     buf w @ entries_text (map (\<lambda>gw. Words (remote_words gw)) (remote_list gateways))"
  by (simp add: buf_remotes_aux remote_list_def)

lemma buf_flags: "buf (bp_flags data w) = buf w @ entries_text (flags_entries data)"
  by (simp add: bp_flags_def flags_entries_def buf_simps)

lemma buf_certs: "buf (bp_certs data w) = buf w @ entries_text (cert_entries (connect_collapse data) data)"
  by (auto simp: bp_certs_def cert_entries_def connect_collapse_def buf_simps str_entry_def
      is_tls_like_def needs_user_cert_def split: option.splits)

lemma buf_auth: "buf (bp_auth data w) = buf w @ entries_text (auth_entries data)"
  by (auto simp: bp_auth_def auth_entries_def buf_simps split: option.splits)

lemma buf_crypto:
  "buf (bp_crypto data w) = buf w @ entries_text
     (int_entries data [(''reneg-seconds'', ''reneg-sec''), (''max-routes'', ''max-routes'')]
      @ str_entries data [(''cipher'', ''cipher''), (''data-ciphers'', ''data-ciphers''),
          (''data-ciphers-fallback'', ''data-ciphers-fallback''), (''tls-cipher'', ''tls-cipher''),
          (''auth'', ''auth'')]
      @ int_entries data [(''keysize'', ''keysize'')]
      @ str_entries data [(''allow-compression'', ''allow-compression'')])"
  by (simp add: bp_crypto_def int_entries_def str_entries_def buf_simps)

lemma buf_compress: "buf (bp_compress data w) = buf w @ entries_text (compress_entries data)"
  by (auto simp: bp_compress_def compress_entries_def str_entry_def buf_simps split: option.splits)

lemma buf_mtu:
  "buf (bp_mtu data w) = buf w @ entries_text
     (flag_entry data ''float'' ''float'' @ mssfix_entries data
      @ str_entries data [(''mtu-disc'', ''mtu-disc'')]
      @ int_entries data [(''tunnel-mtu'', ''tun-mtu''), (''connect-timeout'', ''connect-timeout''),
          (''fragment-size'', ''fragment'')])"
  by (simp add: bp_mtu_def mssfix_entries_def str_entries_def int_entries_def buf_simps
      split: option.splits)

lemma buf_crl: "buf (bp_crl data w) = buf w @ entries_text (crl_entries data)"
  by (simp add: bp_crl_def crl_entries_def buf_simps split: option.splits)

lemma buf_dev: "buf (bp_dev data w) = buf w @ entries_text (dev_entries data)"
  by (simp add: bp_dev_def dev_entries_def chosen_dev_def buf_simps)

lemma buf_ping:
  "buf (bp_ping data w) = buf w @ entries_text
     (int_entries data [(''port'', ''port''), (''ping'', ''ping''), (''ping-exit'', ''ping-exit''),
        (''ping-restart'', ''ping-restart'')] @ ifconfig_entries data)"
  by (auto simp: bp_ping_def ifconfig_entries_def int_entries_def buf_simps split: option.splits)

lemma buf_route_lines:
  "buf (bp_route_lines ls w) =
     buf w @ entries_text (map Raw (filter (\<lambda>l. l \<noteq> [] \<and> is_safe_route_line l) (map trim ls)))"
  by (induction ls w rule: bp_route_lines.induct) (simp_all add: Let_def buf_raw_line)

lemma buf_routes: "buf (bp_routes data w) = buf w @ entries_text (map Raw (route_list data))"
  by (simp add: bp_routes_def route_list_def buf_route_lines split: option.split)

lemma buf_x509: "buf (bp_x509 x w) = buf w @ entries_text [Words (''verify-x509-name'' # x509_words x)]"
  by (auto simp: bp_x509_def x509_words_def buf_simps split: option.split)

lemma map_filter_opt_list:
  "List.map_filter id [Some a, Some b, v] = [a, b] @ opt_list v"
  by (cases v) (simp_all add: List.map_filter_simps)

lemma buf_tls: "buf (bp_tls data w) = buf w @ entries_text (tls_entries data)"
proof (cases "is_tls_like (get data ''connection-type'')")
  case True
  have opt: "buf (case v of Some x \<Rightarrow> line_opt [Some t, Some x, d x] w | None \<Rightarrow> w) =
      buf w @ entries_text (case v of Some x \<Rightarrow> [Words ([t, x] @ opt_list (d x))] | None \<Rightarrow> [])"
    for v t d w
    by (simp add: buf_line_opt map_filter_opt_list split: option.split)
  have x509: "buf (case v of Some x \<Rightarrow> bp_x509 x w | None \<Rightarrow> w) =
      buf w @ entries_text (case v of Some x \<Rightarrow> [Words (''verify-x509-name'' # x509_words x)] | None \<Rightarrow> [])"
    for v w
    by (simp add: buf_x509 split: option.split)
  show ?thesis
    using True
    by (cases "get data ''tls-version-min''")
       (simp_all add: bp_tls_def tls_entries_def Let_def opt x509 buf_line_str map_filter_opt_list
          buf_line_opt [of "[Some ''tls-version-min'', Some _, _]"])
qed (simp add: bp_tls_def tls_entries_def)

lemma buf_proxy: "buf (bp_proxy data w) = buf w @ entries_text (proxy_entries data)"
  by (simp add: bp_proxy_def proxy_entries_def proxy_entry_def buf_simps split: option.split)

lemma buf_tail: "buf (bp_tail w) = buf w @ entries_text (map Words tail_words)"
  by (simp add: bp_tail_def tail_words_def buf_simps)

lemmas block_texts = buf_client buf_remotes buf_flags buf_certs buf_auth buf_crypto buf_compress
  buf_mtu buf_crl buf_dev buf_ping buf_routes buf_tls buf_proxy buf_tail

lemma build_profile_text:
  "build_profile_string data secrets =
     (case get data ''remote'' of
        None \<Rightarrow> Inl Remote_Required
      | Some gateways \<Rightarrow> Inr (entries_text (connect_entries data gateways)))"
proof (cases "get data ''remote''")
  case (Some gateways)
  show ?thesis
    by (simp only: build_profile_string_def Some option.case Let_def block_texts sum.inject)
       (simp add: connect_entries_def connect_body_def before_routes_def writer_new_def
          del: entries_text_simps(2))
qed (simp add: build_profile_string_def)

end
