(* ===== verification/Test_Kit.thy ===== *)
theory Test_Kit
  imports Nm_Data Build_Profile
begin

text \<open>
  What the replayed tests share: the messages of the errors, \<open>unwrap\<close> and the searches over the
  lines of a text.
\<close>

section \<open>Error texts\<close>

text \<open>The messages of the errors, as \<open>anyhow!\<close> formats them.\<close>

fun tok_error_text :: "tok_error \<Rightarrow> str" where
  "tok_error_text (Unterminated_Quote q) =
     ''unterminated '' @ (if q = DQUOTE then ''double'' else ''single'') @ '' quote''"
| "tok_error_text Trailing_Escape_Quoted = ''trailing escape backslash inside double-quoted token''"
| "tok_error_text Trailing_Escape = ''trailing escape backslash''"

definition in_quotes :: "str \<Rightarrow> str" where
  "in_quotes v = SQUOTE # v @ [SQUOTE]"

definition bad_choice_text :: "str \<Rightarrow> str \<Rightarrow> str" where
  "bad_choice_text name v =
     (if name \<in> {''key-direction'', ''static-key-direction''} then name @ '' must be 0 or 1, got '' @ in_quotes v
      else if name \<in> {''remote-cert-tls'', ''ns-cert-type''} then name @ '' must be client|server, got '' @ in_quotes v
      else if name = ''mtu-disc'' then ''mtu-disc must be no|maybe|yes, got '' @ in_quotes v
      else if name = ''comp-lzo'' then ''comp-lzo must be yes|no|adaptive, got '' @ in_quotes v
      else if name = ''proto'' then ''proto '' @ in_quotes v @ '' is not recognised''
      else name @ '' '' @ in_quotes v @ '' is not a recognised TLS version'')"

fun value_error_text :: "value_error \<Rightarrow> str" where
  "value_error_text (Requires_Value name) = name @ '' requires a value''"
| "value_error_text (Not_Numeric name v) = name @ '' '' @ in_quotes v @ '' is not numeric''"
| "value_error_text (Out_Of_Range name n) = name @ '' '' @ show_int n @ '' out of range 1-65535''"
| "value_error_text (Bad_Choice name v) = bad_choice_text name v"
| "value_error_text Keepalive_Arity = ''keepalive requires two integers''"
| "value_error_text (Keepalive_Arg i v) =
     ''keepalive arg '' @ show_int (int i) @ '' must be a non-negative integer, got '' @ in_quotes v"

fun parse_error_text :: "parse_error \<Rightarrow> str" where
  "parse_error_text (Tokenize_Error n e) = ''line '' @ show_int (int n) @ '': '' @ tok_error_text e"
| "parse_error_text (Unterminated_Blob n name) =
     ''line '' @ show_int (int n) @ '': unterminated inline blob <'' @ name @ ''>''"
| "parse_error_text (Unsupported_Blob n name) =
     ''line '' @ show_int (int n) @ '': unsupported inline blob <'' @ name @ ''>''"
| "parse_error_text (Invalid_Value e) = value_error_text e"

section \<open>What the tests use\<close>

text \<open>\<open>unwrap\<close> on the parse, and \<open>unwrap_err\<close> with a test of the message.\<close>

definition parsed :: "str \<Rightarrow> (ovpn_config \<Rightarrow> bool) \<Rightarrow> bool" where
  "parsed input check = (case parse input of Inl _ \<Rightarrow> False | Inr cfg \<Rightarrow> check cfg)"

definition rejected :: "str \<Rightarrow> str \<Rightarrow> bool" where
  "rejected input part = (case parse input of Inl e \<Rightarrow> contains_str (parse_error_text e) part | Inr _ \<Rightarrow> False)"

definition collect_pairs :: "(str \<times> str) list \<Rightarrow> dict" where
  "collect_pairs pairs = map_of (rev pairs)"

definition exported :: "(str \<times> str) list \<Rightarrow> str" where
  "exported pairs = emit (from_nm_data (collect_pairs pairs))"

definition any_line :: "(str \<Rightarrow> bool) \<Rightarrow> str \<Rightarrow> bool" where
  "any_line p s = list_ex p (lines s)"

definition has_line :: "str \<Rightarrow> str \<Rightarrow> bool" where
  "has_line s l = any_line (\<lambda>x. x = l) s"

section \<open>A refusal names the option\<close>

fun refused_option :: "value_error \<Rightarrow> str" where
  "refused_option (Requires_Value name) = name"
| "refused_option (Not_Numeric name v) = name"
| "refused_option (Out_Of_Range name n) = name"
| "refused_option (Bad_Choice name v) = name"
| "refused_option Keepalive_Arity = ''keepalive''"
| "refused_option (Keepalive_Arg i v) = ''keepalive''"

lemma starts_with_append: "starts_with (p @ s) p"
  by (induction p) (simp_all add: starts_with_def)

lemma value_error_text_starts: "\<exists>rest. value_error_text e = refused_option e @ rest"
  by (cases e) (simp_all add: bad_choice_text_def)

lemma refused_by_check:
  "check_port name args = Inl e \<Longrightarrow> refused_option e = name"
  "check_choice name choices args = Inl e \<Longrightarrow> refused_option e = name"
  "check_tls_version name args = Inl e \<Longrightarrow> refused_option e = name"
  "check_keepalive args = Inl e \<Longrightarrow> refused_option e = ''keepalive''"
  by (auto simp: check_port_def check_choice_def check_tls_version_def check_keepalive_def
      require_first_def Let_def split: if_splits option.splits list.splits)

lemma if_cases: "(if b then x else y) = z \<Longrightarrow> (b \<Longrightarrow> x = z \<Longrightarrow> R) \<Longrightarrow> (\<not> b \<Longrightarrow> y = z \<Longrightarrow> R) \<Longrightarrow> R"
  by (cases b) auto

lemma refused_option_is_checked:
  assumes "validate_option name args = Inl e"
  shows "refused_option e = name"
proof -
  consider "check_port name args = Inl e" | choices where "check_choice name choices args = Inl e"
    | "check_tls_version name args = Inl e" | "name = ''keepalive''" "check_keepalive args = Inl e"
    | v where "e = Bad_Choice name v"
    using assms unfolding validate_option_def
    by (elim if_cases) (auto split: list.splits if_splits)
  then show ?thesis using refused_by_check by cases auto
qed

lemma refusal_names_option:
  "validate_option name args = Inl e \<Longrightarrow> starts_with (value_error_text e) name"
  using value_error_text_starts [of e] refused_option_is_checked [of name args e] starts_with_append by metis

lemma parsed_inr: "parse input = Inr cfg \<Longrightarrow> parsed input check = check cfg"
  by (simp add: parsed_def)

end
