(* ===== verification/Export_Tests.thy ===== *)
theory Export_Tests
  imports Test_Kit
begin

text \<open>
  The unit tests of \<open>nm-openvpn3-properties/src/import_export.rs\<close>, run on the model: one
  definition per test, and the lemmas that all of them pass.
\<close>

lemmas scan_one = as_nm_data_def scan_option_def scan_remote_def scan_x509_def simple_arms_def flag_arms_def
  nm_scan_init_def append_entry_def encode_remote_def put_def infer_contype_def resolve_key_direction_def
  nth_opt_def or_insert_def

section \<open>The tests of import_export.rs: parsing and emitting\<close>

definition tokenize_simple :: bool where
  "tokenize_simple \<longleftrightarrow>
     tokenize ''remote vpn.example.com 1194'' = Inr [''remote'', ''vpn.example.com'', ''1194'']"

definition tokenize_strips_inline_comment :: bool where
  "tokenize_strips_inline_comment \<longleftrightarrow>
     tokenize ''dev tun ; the device'' = Inr [''dev'', ''tun'']
     \<and> tokenize ''dev tun # the device'' = Inr [''dev'', ''tun'']"

definition tokenize_single_quoted :: bool where
  "tokenize_single_quoted \<longleftrightarrow>
     tokenize (''ca '' @ [SQUOTE] @ ''/etc/ovpn/ca.pem'' @ [SQUOTE]) = Inr [''ca'', ''/etc/ovpn/ca.pem'']"

definition tokenize_double_quoted_with_escape :: bool where
  "tokenize_double_quoted_with_escape \<longleftrightarrow>
     tokenize (''verify-x509-name '' @ [DQUOTE] @ ''C=US, O=foo, CN=server'' @ [DQUOTE] @ '' name'') =
       Inr [''verify-x509-name'', ''C=US, O=foo, CN=server'', ''name'']"

definition tokenize_backslash_in_unquoted :: bool where
  "tokenize_backslash_in_unquoted \<longleftrightarrow>
     tokenize (''path C:'' @ [BACKSLASH, BACKSLASH] @ ''foo'' @ [BACKSLASH,
       BACKSLASH] @ ''bar'') = Inr [''path'',
       (''C:'' @ [BACKSLASH] @ ''foo'' @ [BACKSLASH] @ ''bar'')]"

definition tokenize_unterminated_quote_errors :: bool where
  "tokenize_unterminated_quote_errors \<longleftrightarrow>
     (case tokenize (''remote '' @ [SQUOTE] @ ''vpn.example.com'') of
        Inl err \<Rightarrow> contains_str (tok_error_text err) ''unterminated''
      | Inr _ \<Rightarrow> False)"

definition parse_minimal_tls :: bool where
  "parse_minimal_tls \<longleftrightarrow>
     parsed (''client'' @ [LF] @ ''remote vpn.example.com 1194'' @ [LF] @ ''proto udp'' @ [LF] @
       ''dev tun'' @ [LF] @ ''ca /etc/ovpn/ca.pem'' @ [LF] @ ''cert /etc/ovpn/c.crt'' @ [LF] @
       ''key /etc/ovpn/c.key'' @ [LF])
       (\<lambda>cfg. option cfg ''client'' = Some []
          \<and> map_option (\<lambda>r. nth_opt r 0) (option cfg ''remote'') = Some (Some ''vpn.example.com'')
          \<and> (let nm = as_nm_data cfg in
               nm ''connection-type'' = Some ''tls''
               \<and> nm ''remote'' = Some ''vpn.example.com:1194''
               \<and> nm ''ca'' = Some ''/etc/ovpn/ca.pem''))"

definition parse_proto_tcp_sets_proto_tcp_yes :: bool where
  "parse_proto_tcp_sets_proto_tcp_yes \<longleftrightarrow>
     parsed (''remote v'' @ [LF] @ ''proto tcp'' @ [LF])
       (\<lambda>cfg. as_nm_data cfg ''proto-tcp'' = Some ''yes'')"

definition parse_proto_udp_variants_do_not_set_tcp :: bool where
  "parse_proto_udp_variants_do_not_set_tcp \<longleftrightarrow>
     list_all
       (\<lambda>proto. parsed ((''remote v'' @ [LF] @ ''proto '') @ proto @ [LF])
         (\<lambda>cfg. as_nm_data cfg ''proto-tcp'' = None))
       [''udp'', ''udp4'', ''udp6'', ''udp-client'', ''udp-server'', ''udp4-client'',
         ''udp6-client'']
     \<and> parsed (''remote v'' @ [LF] @ ''proto tcp-client'' @ [LF])
       (\<lambda>cfg. as_nm_data cfg ''proto-tcp'' = Some ''yes'')"

definition parse_standalone_key_direction_reaches_vpn_data :: bool where
  "parse_standalone_key_direction_reaches_vpn_data \<longleftrightarrow>
     parsed (''remote v'' @ [LF] @ ''tls-auth /etc/ta.key'' @ [LF] @ ''key-direction 1'' @ [LF])
       (\<lambda>cfg. as_nm_data cfg ''ta-dir'' = Some ''1'')
     \<and> parsed (''secret /etc/static.key'' @ [LF] @ ''key-direction 0'' @ [LF])
       (\<lambda>cfg. as_nm_data cfg ''static-key-direction'' = Some ''0'')
     \<and> parsed (''remote v'' @ [LF] @ ''tls-auth /etc/ta.key 1'' @ [LF] @ ''key-direction 0'' @ [LF])
       (\<lambda>cfg. as_nm_data cfg ''ta-dir'' = Some ''1'')"

definition emit_neutralises_injected_option_name :: bool where
  "emit_neutralises_injected_option_name \<longleftrightarrow>
     parsed ([DQUOTE] @ ''a'' @ [BACKSLASH] @ ''nup x'' @ [DQUOTE] @ '' c'' @ [LF])
       (\<lambda>cfg. let out = emit cfg in
          parsed out (\<lambda>reparsed. length reparsed = 1)
          \<and> \<not> any_line (\<lambda>l. starts_with (trim_start l) ''up '') out)
     \<and> parsed (''remote-random'' @ [LF] @ ''tls-version-min 1.2'' @ [LF])
       (\<lambda>cfg. contains_str (emit cfg) (''remote-random'' @ [LF]))"

definition parse_comments_and_blanks_skipped :: bool where
  "parse_comments_and_blanks_skipped \<longleftrightarrow>
     parsed (''; head'' @ [LF, LF] @ ''# more'' @ [LF] @ ''remote v'' @ [LF]) (\<lambda>cfg. length cfg = 1)"

definition parse_inline_blob_ca :: bool where
  "parse_inline_blob_ca \<longleftrightarrow>
     parsed (''remote v'' @ [LF] @ ''<ca>'' @ [LF] @ ''-----BEGIN CERTIFICATE-----'' @ [LF] @ ''XX'' @
       [LF] @ ''-----END CERTIFICATE-----'' @ [LF] @ ''</ca>'' @ [LF])
       (\<lambda>cfg. case blob cfg ''ca'' of
          None \<Rightarrow> False
        | Some body \<Rightarrow> contains_str body ''BEGIN CERTIFICATE'' \<and> contains_str body ''XX'')"

definition parse_unterminated_blob_errors :: bool where
  "parse_unterminated_blob_errors \<longleftrightarrow>
     rejected (''remote v'' @ [LF] @ ''<ca>'' @ [LF] @ ''XX'' @ [LF]) ''unterminated''"

definition parse_unsupported_blob_errors :: bool where
  "parse_unsupported_blob_errors \<longleftrightarrow>
     rejected (''<bogus>'' @ [LF] @ ''XX'' @ [LF] @ ''</bogus>'' @ [LF]) ''unsupported''"

definition parse_skips_utf8_bom :: bool where
  "parse_skips_utf8_bom \<longleftrightarrow>
     parsed ([CHR 0xEF, CHR 0xBB, CHR 0xBF] @ ''remote v'' @ [LF]) (\<lambda>cfg. length cfg = 1)"

definition parse_dash_dash_prefix_stripped :: bool where
  "parse_dash_dash_prefix_stripped \<longleftrightarrow>
     parsed (''--remote v'' @ [LF])
       (\<lambda>cfg. case cfg of Option name _ # _ \<Rightarrow> name = ''remote'' | _ \<Rightarrow> False)"

definition emit_round_trip_minimal :: bool where
  "emit_round_trip_minimal \<longleftrightarrow>
     parsed (''client'' @ [LF] @ ''remote vpn.example.com 1194'' @ [LF] @ ''dev tun'' @ [LF])
       (\<lambda>cfg. let out = emit cfg in
          contains_str out ''client''
          \<and> contains_str out (''remote '' @ [SQUOTE] @ ''vpn.example.com'' @ [SQUOTE] @ '' 1194'')
          \<and> contains_str out ''dev tun'')"

definition emit_inline_blob_round_trip :: bool where
  "emit_inline_blob_round_trip \<longleftrightarrow>
     parsed (''<ca>'' @ [LF] @ ''BLOB'' @ [LF] @ ''</ca>'' @ [LF])
       (\<lambda>cfg. let out = emit cfg in
          contains_str out ''<ca>'' \<and> contains_str out ''BLOB'' \<and> contains_str out ''</ca>'')"

definition import_export_parse_tests :: "bool list" where
  "import_export_parse_tests =
     [tokenize_simple, tokenize_strips_inline_comment, tokenize_single_quoted,
       tokenize_double_quoted_with_escape, tokenize_backslash_in_unquoted,
       tokenize_unterminated_quote_errors, parse_minimal_tls, parse_proto_tcp_sets_proto_tcp_yes,
       parse_proto_udp_variants_do_not_set_tcp, parse_standalone_key_direction_reaches_vpn_data,
       emit_neutralises_injected_option_name, parse_comments_and_blanks_skipped,
       parse_inline_blob_ca, parse_unterminated_blob_errors, parse_unsupported_blob_errors,
       parse_skips_utf8_bom, parse_dash_dash_prefix_stripped, emit_round_trip_minimal,
       emit_inline_blob_round_trip]"

lemma import_export_parse_tests_pass: "list_all (\<lambda>t. t) import_export_parse_tests"
  unfolding import_export_parse_tests_def list.pred_inject
  by (intro conjI TrueI; code_simp)

section \<open>The projections onto vpn.data\<close>

definition nm_data_inferred_connection_type_password_tls :: bool where
  "nm_data_inferred_connection_type_password_tls \<longleftrightarrow>
     parsed (''remote v'' @ [LF] @ ''cert c'' @ [LF] @ ''key k'' @ [LF] @ ''auth-user-pass'' @ [LF])
       (\<lambda>cfg. let nm = as_nm_data cfg in
          nm ''connection-type'' = Some ''password-tls'')"

definition nm_data_inferred_connection_type_password_only :: bool where
  "nm_data_inferred_connection_type_password_only \<longleftrightarrow>
     parsed (''remote v'' @ [LF] @ ''auth-user-pass'' @ [LF])
       (\<lambda>cfg. let nm = as_nm_data cfg in
          nm ''connection-type'' = Some ''password'')"

definition nm_data_inferred_connection_type_static_key :: bool where
  "nm_data_inferred_connection_type_static_key \<longleftrightarrow>
     parsed (''remote v'' @ [LF] @ ''secret /tmp/k 1'' @ [LF])
       (\<lambda>cfg. let nm = as_nm_data cfg in
          nm ''connection-type'' = Some ''static-key''
          \<and> nm ''static-key'' = Some ''/tmp/k''
          \<and> nm ''static-key-direction'' = Some ''1'')"

definition nm_data_verify_x509_name_with_type_split :: bool where
  "nm_data_verify_x509_name_with_type_split \<longleftrightarrow>
     parsed (''remote v'' @ [LF] @ ''verify-x509-name server name-prefix'' @ [LF])
       (\<lambda>cfg. let nm = as_nm_data cfg in
          nm ''verify-x509-name'' = Some ''name-prefix:server'')"

definition nm_data_tls_version_min_or_highest :: bool where
  "nm_data_tls_version_min_or_highest \<longleftrightarrow>
     parsed (''remote v'' @ [LF] @ ''tls-version-min 1.2 or-highest'' @ [LF])
       (\<lambda>cfg. let nm = as_nm_data cfg in
          nm ''tls-version-min'' = Some ''1.2''
          \<and> nm ''tls-version-min-or-highest'' = Some ''yes'')"

definition nm_data_pkcs12_fills_ca_cert_key :: bool where
  "nm_data_pkcs12_fills_ca_cert_key \<longleftrightarrow>
     parsed (''remote v'' @ [LF] @ ''pkcs12 /tmp/foo.p12'' @ [LF])
       (\<lambda>cfg. let nm = as_nm_data cfg in
          nm ''ca'' = Some ''/tmp/foo.p12''
          \<and> nm ''cert'' = Some ''/tmp/foo.p12''
          \<and> nm ''key'' = Some ''/tmp/foo.p12'')"

definition nm_data_http_proxy :: bool where
  "nm_data_http_proxy \<longleftrightarrow>
     parsed (''remote v'' @ [LF] @ ''http-proxy proxy.example.com 8080'' @ [LF])
       (\<lambda>cfg. let nm = as_nm_data cfg in
          nm ''proxy-type'' = Some ''http''
          \<and> nm ''proxy-server'' = Some ''proxy.example.com''
          \<and> nm ''proxy-port'' = Some ''8080'')"

definition nm_data_multi_remote_joined :: bool where
  "nm_data_multi_remote_joined \<longleftrightarrow>
     parsed (''remote a.example.com'' @ [LF] @ ''remote b.example.com 1195 tcp'' @ [LF])
       (\<lambda>cfg. let nm = as_nm_data cfg in
          nm ''remote'' = Some ''a.example.com,b.example.com:1195:tcp'')"

definition emit_preserves_unknown_directive :: bool where
  "emit_preserves_unknown_directive \<longleftrightarrow>
     parsed (''remote v'' @ [LF] @ ''my-custom-option foo'' @ [LF])
       (\<lambda>cfg. contains_str (emit cfg) ''my-custom-option foo'')"

definition tokenize_preserves_utf8_codepoints :: bool where
  "tokenize_preserves_utf8_codepoints \<longleftrightarrow>
     parsed (''verify-x509-name '' @ [DQUOTE] @ ''CN=M'' @ [CHR 0xC3, CHR 0xBC] @ ''ller'' @ [DQUOTE,
       LF])
       (\<lambda>cfg. let nm = as_nm_data cfg in
          nm ''verify-x509-name'' = Some (''CN=M'' @ [CHR 0xC3, CHR 0xBC] @ ''ller''))"

definition from_nm_data_collapses_pkcs12 :: bool where
  "from_nm_data_collapses_pkcs12 \<longleftrightarrow>
     (let out = exported
              [(''connection-type'', ''tls''), (''remote'', ''vpn.example''),
                (''ca'', ''/etc/vpn/bundle.p12''),
               (''cert'', ''/etc/vpn/bundle.p12''), (''key'', ''/etc/vpn/bundle.p12'')]
      in any_line (\<lambda>l. starts_with l ''pkcs12 '' \<and> contains_str l ''/etc/vpn/bundle.p12'') out
         \<and> list_all (\<lambda>l. \<not> (starts_with l ''ca '' \<and> contains_str l ''.p12'')
                       \<and> \<not> (starts_with l ''cert '' \<and> contains_str l ''.p12'')) (lines out))"

definition import_ifconfig_populates_local_remote_ip :: bool where
  "import_ifconfig_populates_local_remote_ip \<longleftrightarrow>
     parsed (''ifconfig 10.0.0.2 10.0.0.1'' @ [LF])
       (\<lambda>cfg. let nm = as_nm_data cfg in
          nm ''local-ip'' = Some ''10.0.0.2''
          \<and> nm ''remote-ip'' = Some ''10.0.0.1'')"

definition import_keepalive_populates_ping_keys :: bool where
  "import_keepalive_populates_ping_keys \<longleftrightarrow>
     parsed (''remote v'' @ [LF] @ ''keepalive 10 60'' @ [LF])
       (\<lambda>cfg. let nm = as_nm_data cfg in
          nm ''ping'' = Some ''10''
          \<and> nm ''ping-restart'' = Some ''60'')"

definition import_export_projection_tests :: "bool list" where
  "import_export_projection_tests =
     [nm_data_inferred_connection_type_password_tls, nm_data_inferred_connection_type_password_only,
       nm_data_inferred_connection_type_static_key, nm_data_verify_x509_name_with_type_split,
       nm_data_tls_version_min_or_highest, nm_data_pkcs12_fills_ca_cert_key, nm_data_http_proxy,
       nm_data_multi_remote_joined, emit_preserves_unknown_directive,
       tokenize_preserves_utf8_codepoints, from_nm_data_collapses_pkcs12,
       import_ifconfig_populates_local_remote_ip, import_keepalive_populates_ping_keys]"

lemma import_export_projection_tests_pass: "list_all (\<lambda>t. t) import_export_projection_tests"
  unfolding import_export_projection_tests_def list.pred_inject
  by (intro conjI TrueI; code_simp)

section \<open>The regressions\<close>

definition validate_rejects_port_overflow :: bool where
  "validate_rejects_port_overflow \<longleftrightarrow>
     rejected (''remote v'' @ [LF] @ ''port 99999'' @ [LF]) ''port''"

definition validate_rejects_bad_key_direction :: bool where
  "validate_rejects_bad_key_direction \<longleftrightarrow>
     rejected (''remote v'' @ [LF] @ ''key-direction 2'' @ [LF]) ''key-direction''"

definition validate_rejects_bad_remote_cert_tls :: bool where
  "validate_rejects_bad_remote_cert_tls \<longleftrightarrow>
     rejected (''remote v'' @ [LF] @ ''remote-cert-tls maybe'' @ [LF]) ''remote-cert-tls''"

definition import_route_preserves_extras :: bool where
  "import_route_preserves_extras \<longleftrightarrow>
     parsed (''remote v'' @ [LF] @ ''route 10.0.0.0 255.0.0.0'' @ [LF] @
       ''route 192.168.1.0 255.255.255.0 10.0.0.1'' @ [LF])
       (\<lambda>cfg. case as_nm_data cfg ''nm-openvpn3-extra-routes'' of
          None \<Rightarrow> False
        | Some extras \<Rightarrow>
            contains_str extras ''route 10.0.0.0 255.0.0.0''
            \<and> contains_str extras ''route 192.168.1.0 255.255.255.0 10.0.0.1'')"

definition from_nm_data_emits_extra_routes :: bool where
  "from_nm_data_emits_extra_routes \<longleftrightarrow>
     any_line (\<lambda>l. starts_with l ''route '' \<and> contains_str l ''10.0.0.0'' \<and> contains_str l ''255.0.0.0'')
       (exported [(''connection-type'', ''tls''), (''remote'', ''v''),
         (''nm-openvpn3-extra-routes'', ''route 10.0.0.0 255.0.0.0'')])"

definition import_http_proxy_preserves_authfile :: bool where
  "import_http_proxy_preserves_authfile \<longleftrightarrow>
     parsed (''remote v'' @ [LF] @ ''http-proxy 10.1.1.1 8080 auth.txt'' @ [LF])
       (\<lambda>cfg. let nm = as_nm_data cfg in
          nm ''http-proxy-auth-file'' = Some ''auth.txt'')"

definition import_keysize_lands_in_nm_data :: bool where
  "import_keysize_lands_in_nm_data \<longleftrightarrow>
     parsed (''remote v'' @ [LF] @ ''keysize 256'' @ [LF])
       (\<lambda>cfg. let nm = as_nm_data cfg in
          nm ''keysize'' = Some ''256'')"

definition ipv6_remote_round_trips :: bool where
  "ipv6_remote_round_trips \<longleftrightarrow>
     parsed (''remote 2001:db8::1 1194 tcp'' @ [LF])
       (\<lambda>cfg. let nm = as_nm_data cfg; out = emit (from_nm_data nm) in
          nm ''remote'' = Some ''[2001:db8::1]:1194:tcp''
          \<and> (case find (\<lambda>l. starts_with l ''remote '') (lines out) of
               None \<Rightarrow> False
             | Some remote_line \<Rightarrow>
                 contains_str remote_line ''2001:db8::1'' \<and> contains_str remote_line ''1194''
                 \<and> ends_with remote_line ''tcp'' \<and> CHR 0x5B \<notin> set remote_line)
          \<and> parsed out (\<lambda>cfg2. case option cfg2 ''remote'' of
               None \<Rightarrow> False
             | Some r \<Rightarrow>
                 nth_opt r 0 = Some ''2001:db8::1'' \<and> nth_opt r 1 = Some ''1194''
                   \<and> nth_opt r 2 = Some ''tcp''))"

definition from_nm_data_x509_colon_dn_not_split :: bool where
  "from_nm_data_x509_colon_dn_not_split \<longleftrightarrow>
     (case find (\<lambda>l. starts_with l ''verify-x509-name '')
             (lines (exported [(''connection-type'', ''tls''), (''remote'', ''v''),
               (''verify-x509-name'', ''CN=Foo:Bar'')])) of
        None \<Rightarrow> False
      | Some l \<Rightarrow>
          l = (''verify-x509-name '' @ [DQUOTE] @ ''CN=Foo:Bar'' @ [DQUOTE]) \<or> l =
            (''verify-x509-name '' @ [SQUOTE] @ ''CN=Foo:Bar'' @ [SQUOTE]))
     \<and> parsed (''remote v'' @ [LF] @ ''verify-x509-name srv name-prefix'' @ [LF])
         (\<lambda>cfg. let nm = as_nm_data cfg in
            nm ''verify-x509-name'' = Some ''name-prefix:srv''
            \<and> any_line (\<lambda>l. starts_with l ''verify-x509-name '' \<and> contains_str l ''srv''
              \<and> contains_str l ''name-prefix'')
                (emit (from_nm_data nm)))"

definition nm_data_comp_lzo_no_maps_to_no_by_default :: bool where
  "nm_data_comp_lzo_no_maps_to_no_by_default \<longleftrightarrow>
     parsed (''remote v'' @ [LF] @ ''comp-lzo no'' @ [LF])
       (\<lambda>cfg. as_nm_data cfg ''comp-lzo'' = Some ''no-by-default'')
     \<and> parsed (''remote v'' @ [LF] @ ''comp-lzo adaptive'' @ [LF])
       (\<lambda>cfg. as_nm_data cfg ''comp-lzo'' = Some ''adaptive'')"

definition nm_data_infers_type_from_inline_blobs :: bool where
  "nm_data_infers_type_from_inline_blobs \<longleftrightarrow>
     parsed (''remote v'' @ [LF] @ ''<cert>'' @ [LF] @ ''C'' @ [LF] @ ''</cert>'' @ [LF] @ ''<key>'' @
       [LF] @ ''K'' @ [LF] @ ''</key>'' @ [LF])
       (\<lambda>cfg. as_nm_data cfg ''connection-type'' = Some ''tls'')
     \<and> parsed (''remote v'' @ [LF] @ ''<secret>'' @ [LF] @ ''S'' @ [LF] @ ''</secret>'' @ [LF])
       (\<lambda>cfg. as_nm_data cfg ''connection-type'' = Some ''static-key'')"

definition from_nm_data_password_omits_user_cert_key :: bool where
  "from_nm_data_password_omits_user_cert_key \<longleftrightarrow>
     (let out = exported
              [(''connection-type'', ''password''), (''remote'', ''v''),
                (''ca'', ''/etc/ovpn/ca.pem''),
               (''cert'', ''/stale/c.crt''), (''key'', ''/stale/c.key'')]
      in any_line (\<lambda>l. starts_with l ''ca '') out
         \<and> \<not> any_line (\<lambda>l. starts_with l ''cert '') out
         \<and> \<not> any_line (\<lambda>l. starts_with l ''key '') out
         \<and> has_line out ''auth-user-pass'')"

definition from_nm_data_remote_proto_without_port_injects_1194 :: bool where
  "from_nm_data_remote_proto_without_port_injects_1194 \<longleftrightarrow>
     any_line (\<lambda>l. contains_str l ''b.example.com'' \<and> contains_str l ''1194'' \<and> contains_str l ''tcp'')
       (exported [(''connection-type'', ''tls''),
         (''remote'', ''a.example.com,b.example.com::tcp'')])"

definition emit_double_quotes_value_with_single_quote :: bool where
  "emit_double_quotes_value_with_single_quote \<longleftrightarrow>
     contains_str (emit [Option ''verify-x509-name'' [(''O=it'' @ [SQUOTE] @ ''s mine'')]]) ([DQUOTE] @
       ''O=it'' @ [SQUOTE] @ ''s mine'' @ [DQUOTE])"

definition from_nm_data_gates_tls_directives_for_static_key :: bool where
  "from_nm_data_gates_tls_directives_for_static_key \<longleftrightarrow>
     (let out = exported
              [(''connection-type'', ''static-key''), (''remote'', ''v''),
                (''static-key'', ''/s.key''),
               (''remote-cert-tls'', ''server''), (''ns-cert-type'', ''server''),
                 (''tls-remote'', ''/CN=server''),
               (''tls-version-max'', ''1.3''), (''extra-certs'', ''/extra.pem''),
                 (''crl-verify-file'', ''/crl.pem'')]
      in list_all (\<lambda>stale. \<not> any_line (\<lambda>l. starts_with l stale) out)
           [''remote-cert-tls'', ''ns-cert-type'', ''tls-remote'', ''tls-version-max'',
             ''extra-certs'', ''crl-verify'']
         \<and> any_line (\<lambda>l. starts_with l ''secret '') out)"

definition from_nm_data_emits_tls_directives_for_tls :: bool where
  "from_nm_data_emits_tls_directives_for_tls \<longleftrightarrow>
     (let out = exported
              [(''connection-type'', ''tls''), (''remote'', ''v''),
                (''remote-cert-tls'', ''server''),
               (''tls-version-max'', ''1.3''), (''crl-verify-file'', ''/crl.pem'')]
      in any_line (\<lambda>l. starts_with l ''remote-cert-tls'') out
         \<and> any_line (\<lambda>l. starts_with l ''tls-version-max'') out
         \<and> any_line (\<lambda>l. starts_with l ''crl-verify'') out)"

definition from_nm_data_drops_unsafe_extra_routes :: bool where
  "from_nm_data_drops_unsafe_extra_routes \<longleftrightarrow>
     (let out = exported
              [(''connection-type'', ''tls''), (''remote'', ''v''),
               (''nm-openvpn3-extra-routes'',
                 (''route 10.0.0.0 255.0.0.0'' @ [LF] @ ''route-up /tmp/evil.sh'' @ [LF] @
                 ''route-gateway 10.8.0.1''))]
      in any_line (\<lambda>l. starts_with l ''route '' \<and> contains_str l ''10.0.0.0'') out
         \<and> any_line (\<lambda>l. starts_with l ''route-gateway'') out
         \<and> \<not> any_line (\<lambda>l. starts_with l ''route-up'') out)"

definition is_safe_route_line_allowlist :: bool where
  "is_safe_route_line_allowlist \<longleftrightarrow>
     ie_is_safe_route_line ''route 10.0.0.0 255.0.0.0''
     \<and> ie_is_safe_route_line ''route 10.0.0.0 255.0.0.0 vpn_gateway''
     \<and> ie_is_safe_route_line ''route-ipv6 2001:db8::/32''
     \<and> ie_is_safe_route_line ''route-gateway 10.8.0.1''
     \<and> ie_is_safe_route_line ''route-metric 100''
     \<and> \<not> ie_is_safe_route_line ''route-up /tmp/x.sh''
     \<and> \<not> ie_is_safe_route_line ''up /tmp/x.sh''
     \<and> \<not> ie_is_safe_route_line ''script-security 3''
     \<and> \<not> ie_is_safe_route_line (''route '' @ [SQUOTE] @ ''a b'' @ [SQUOTE])
     \<and> \<not> ie_is_safe_route_line (''route 1.2.3.0/24'' @ [CR] @ ''script-security 3'')
     \<and> \<not> ie_is_safe_route_line (''route 10.0.0.0 255.0.0.0'' @ [TAB] @ ''up x'')"

definition validate_rejects_bad_proto_keepalive_mtu_disc :: bool where
  "validate_rejects_bad_proto_keepalive_mtu_disc \<longleftrightarrow>
     rejected (''remote v'' @ [LF] @ ''proto sctp'' @ [LF]) ''proto''
     \<and> rejected (''remote v'' @ [LF] @ ''keepalive 10'' @ [LF]) ''keepalive''
     \<and> rejected (''remote v'' @ [LF] @ ''mtu-disc sometimes'' @ [LF]) ''mtu-disc''
     \<and> rejected (''remote v'' @ [LF] @ ''proxy-port 99999'' @ [LF]) ''proxy-port''"

definition import_export_regression_tests :: "bool list" where
  "import_export_regression_tests =
     [validate_rejects_port_overflow, validate_rejects_bad_key_direction,
       validate_rejects_bad_remote_cert_tls, import_route_preserves_extras,
       from_nm_data_emits_extra_routes, import_http_proxy_preserves_authfile,
       import_keysize_lands_in_nm_data, ipv6_remote_round_trips,
       from_nm_data_x509_colon_dn_not_split, nm_data_comp_lzo_no_maps_to_no_by_default,
       nm_data_infers_type_from_inline_blobs, from_nm_data_password_omits_user_cert_key,
       from_nm_data_remote_proto_without_port_injects_1194,
       emit_double_quotes_value_with_single_quote, from_nm_data_gates_tls_directives_for_static_key,
       from_nm_data_emits_tls_directives_for_tls, from_nm_data_drops_unsafe_extra_routes,
       is_safe_route_line_allowlist, validate_rejects_bad_proto_keepalive_mtu_disc]"

lemma ipv6_remote_round_trips_holds: ipv6_remote_round_trips
proof -
  let ?remote = "Option ''remote'' [''2001:db8::1'', ''1194'', ''tcp'']"
  have p: "parse (''remote 2001:db8::1 1194 tcp'' @ [LF]) = Inr [?remote]" by code_simp
  have nm: "as_nm_data [?remote] =
      [''remote'' \<mapsto> ''[2001:db8::1]:1194:tcp'', ''connection-type'' \<mapsto> ''tls'']"
    by (simp add: scan_one starts_with_def)
  show ?thesis unfolding ipv6_remote_round_trips_def parsed_inr [OF p] nm by code_simp
qed

lemma from_nm_data_x509_colon_dn_not_split_holds: from_nm_data_x509_colon_dn_not_split
proof -
  let ?ds = "[Option ''remote'' [''v''], Option ''verify-x509-name'' [''srv'', ''name-prefix'']]"
  have p: "parse (''remote v'' @ [LF] @ ''verify-x509-name srv name-prefix'' @ [LF]) = Inr ?ds"
    by code_simp
  have nm: "as_nm_data ?ds = [''remote'' \<mapsto> ''v'', ''verify-x509-name'' \<mapsto> ''name-prefix:srv'',
      ''connection-type'' \<mapsto> ''tls'']"
    by (simp add: scan_one fun_upd_twist)
  show ?thesis unfolding from_nm_data_x509_colon_dn_not_split_def parsed_inr [OF p] nm by code_simp
qed

lemma import_export_regression_tests_pass: "list_all (\<lambda>t. t) import_export_regression_tests"
  unfolding import_export_regression_tests_def list.pred_inject
  by (intro conjI TrueI; (rule ipv6_remote_round_trips_holds | rule from_nm_data_x509_colon_dn_not_split_holds | code_simp))

end
