(* ===== verification/Profile_Tests.thy ===== *)
theory Profile_Tests
  imports Test_Kit
begin

text \<open>
  The unit tests of \<open>nm-openvpn3-service/src/build_profile.rs\<close>, run on the model: one definition
  per test, and the lemmas that all of them pass.
\<close>

section \<open>What the tests use\<close>

text \<open>The message of the error, as \<open>anyhow!\<close> formats it.\<close>

fun bp_error_text :: "bp_error \<Rightarrow> str" where
  "bp_error_text Remote_Required = ''vpn.data['' @ in_quotes ''remote'' @ ''] is required''"

text \<open>\<open>expect\<close> on the build.\<close>

definition built :: "(str \<times> str) list \<Rightarrow> (str \<Rightarrow> bool) \<Rightarrow> bool" where
  "built pairs check =
     (case build_profile_string (collect_pairs pairs) Map.empty of Inl _ \<Rightarrow> False | Inr out \<Rightarrow> check out)"

definition assert_contains :: "str \<Rightarrow> str \<Rightarrow> bool" where
  "assert_contains profile l = any_line (\<lambda>x. x = l) profile"

definition tail :: "str list" where
  "tail =
     [''nobind'', ''auth-nocache'', ''script-security 2'', ''persist-key'', ''persist-tun'',
      ''user nm-openvpn3'', ''group nm-openvpn3'']"

section \<open>The tests of build_profile.rs: the profile\<close>

definition line_opt_all_none_emits_nothing :: bool where
  "line_opt_all_none_emits_nothing \<longleftrightarrow>
     buf (line_opt [None, None] writer_new) = []"

definition line_opt_skips_none_args :: bool where
  "line_opt_skips_none_args \<longleftrightarrow>
     buf (line_opt [Some ''secret'', Some ''keyfile'', None] writer_new) = (''secret keyfile'' @ [LF])"

definition minimal_tls :: bool where
  "minimal_tls \<longleftrightarrow>
     built [(''connection-type'', ''tls''), (''remote'', ''vpn.example.com''),
       (''ca'', ''/etc/ovpn/ca.pem''),
         (''cert'', ''/etc/ovpn/client.crt''), (''key'', ''/etc/ovpn/client.key'')]
       (\<lambda>out. list_all (assert_contains out)
            ([''client'', (''remote '' @ [SQUOTE] @ ''vpn.example.com'' @ [SQUOTE]),
              (''ca '' @ [SQUOTE] @ ''/etc/ovpn/ca.pem'' @ [SQUOTE]),
              (''cert '' @ [SQUOTE] @ ''/etc/ovpn/client.crt'' @ [SQUOTE]),
              (''key '' @ [SQUOTE] @ ''/etc/ovpn/client.key'' @ [SQUOTE]), ''dev tun'',
                ''proto udp''] @ tail))"

definition password_tls_emits_auth_user_pass :: bool where
  "password_tls_emits_auth_user_pass \<longleftrightarrow>
     built [(''connection-type'', ''password-tls''), (''remote'', ''vpn.example.com''),
       (''ca'', ''/etc/ovpn/ca.pem''), (''cert'', ''/etc/ovpn/client.crt''),
       (''key'', ''/etc/ovpn/client.key'')]
       (\<lambda>out. assert_contains out ''auth-user-pass'')"

definition password_only_skips_user_cert_and_key :: bool where
  "password_only_skips_user_cert_and_key \<longleftrightarrow>
     built [(''connection-type'', ''password''), (''remote'', ''vpn.example.com''),
       (''ca'', ''/etc/ovpn/ca.pem''), (''cert'', ''/etc/ovpn/client.crt''),
       (''key'', ''/etc/ovpn/client.key'')]
       (\<lambda>out. assert_contains out (''ca '' @ [SQUOTE] @ ''/etc/ovpn/ca.pem'' @ [SQUOTE])
         \<and> \<not> any_line (\<lambda>l. starts_with l ''cert '') out
         \<and> \<not> any_line (\<lambda>l. starts_with l ''key '') out
         \<and> assert_contains out ''auth-user-pass'')"

definition tcp_proto_when_proto_tcp_yes :: bool where
  "tcp_proto_when_proto_tcp_yes \<longleftrightarrow>
     built [(''connection-type'', ''tls''), (''remote'', ''vpn.example.com''), (''proto-tcp'', ''yes'')]
       (\<lambda>out. assert_contains out ''proto tcp'')"

definition remote_random_and_pull_fqdn_flags :: bool where
  "remote_random_and_pull_fqdn_flags \<longleftrightarrow>
     built [(''connection-type'', ''tls''), (''remote'', ''a.example.com b.example.com,c.example.com''),
       (''remote-random'', ''yes''), (''allow-pull-fqdn'', ''yes''), (''push-peer-info'', ''yes'')]
       (\<lambda>out. assert_contains out (''remote '' @ [SQUOTE] @ ''a.example.com'' @ [SQUOTE])
         \<and> assert_contains out (''remote '' @ [SQUOTE] @ ''b.example.com'' @ [SQUOTE])
         \<and> assert_contains out (''remote '' @ [SQUOTE] @ ''c.example.com'' @ [SQUOTE])
         \<and> assert_contains out ''remote-random''
         \<and> assert_contains out ''allow-pull-fqdn''
         \<and> assert_contains out ''push-peer-info'')"

definition remote_with_port_and_proto :: bool where
  "remote_with_port_and_proto \<longleftrightarrow>
     built [(''connection-type'', ''tls''), (''remote'', ''vpn.example.com:1195:tcp'')]
       (\<lambda>out. assert_contains out (''remote '' @ [SQUOTE] @ ''vpn.example.com'' @ [SQUOTE] @
         '' 1195 tcp''))"

definition remote_with_proto_no_port_uses_1194 :: bool where
  "remote_with_proto_no_port_uses_1194 \<longleftrightarrow>
     built [(''connection-type'', ''tls''), (''remote'', ''vpn.example.com::tcp'')]
       (\<lambda>out. assert_contains out (''remote '' @ [SQUOTE] @ ''vpn.example.com'' @ [SQUOTE] @
         '' 1194 tcp''))"

definition missing_remote_errors :: bool where
  "missing_remote_errors \<longleftrightarrow>
     (case build_profile_string (collect_pairs [(''connection-type'', ''tls'')]) Map.empty of
        Inl err \<Rightarrow> contains_str (bp_error_text err) ''remote''
      | Inr _ \<Rightarrow> False)"

definition int_options_skipped_when_non_numeric :: bool where
  "int_options_skipped_when_non_numeric \<longleftrightarrow>
     built [(''connection-type'', ''tls''), (''remote'', ''v''), (''port'', ''not-a-port''),
       (''tunnel-mtu'', ''1400'')]
       (\<lambda>out. assert_contains out ''tun-mtu 1400''
         \<and> \<not> any_line (\<lambda>l. starts_with l ''port '') out)"

definition escape_arg_quotes_paths_with_spaces :: bool where
  "escape_arg_quotes_paths_with_spaces \<longleftrightarrow>
     built [(''connection-type'', ''tls''), (''remote'', ''v''), (''ca'', ''/home/me/My Certs/ca.pem'')]
       (\<lambda>out. assert_contains out (''ca '' @ [SQUOTE] @ ''/home/me/My Certs/ca.pem'' @ [SQUOTE]))"

definition escape_arg_double_quotes_when_containing_single_quote :: bool where
  "escape_arg_double_quotes_when_containing_single_quote \<longleftrightarrow>
     built [(''connection-type'', ''tls''), (''remote'', ''v''), (''ca'',
       (''/tmp/it'' @ [SQUOTE] @ ''s-mine.pem''))]
       (\<lambda>out. assert_contains out (''ca '' @ [DQUOTE] @ ''/tmp/it'' @ [SQUOTE] @ ''s-mine.pem'' @
         [DQUOTE]))"

definition comp_lzo_no_by_default_maps_to_no :: bool where
  "comp_lzo_no_by_default_maps_to_no \<longleftrightarrow>
     built [(''connection-type'', ''tls''), (''remote'', ''v''), (''comp-lzo'', ''no-by-default'')]
       (\<lambda>out. assert_contains out ''comp-lzo no'')"

definition allow_compression_no_suppresses_lzo_and_compress :: bool where
  "allow_compression_no_suppresses_lzo_and_compress \<longleftrightarrow>
     built [(''connection-type'', ''tls''), (''remote'', ''v''), (''allow-compression'', ''no''),
       (''comp-lzo'', ''yes''), (''compress'', ''lz4'')]
       (\<lambda>out. assert_contains out ''allow-compression no''
         \<and> \<not> any_line (\<lambda>l. starts_with l ''comp-lzo '') out
         \<and> \<not> any_line (\<lambda>l. starts_with l ''compress'') out)"

definition build_profile_tests :: "bool list" where
  "build_profile_tests =
     [line_opt_all_none_emits_nothing, line_opt_skips_none_args, minimal_tls,
       password_tls_emits_auth_user_pass, password_only_skips_user_cert_and_key,
       tcp_proto_when_proto_tcp_yes, remote_random_and_pull_fqdn_flags, remote_with_port_and_proto,
       remote_with_proto_no_port_uses_1194, missing_remote_errors,
       int_options_skipped_when_non_numeric, escape_arg_quotes_paths_with_spaces,
       escape_arg_double_quotes_when_containing_single_quote, comp_lzo_no_by_default_maps_to_no,
       allow_compression_no_suppresses_lzo_and_compress]"

lemma assert_all_contained:
  "list_all (assert_contains out) ls = (let L = lines out in list_all (\<lambda>l. List.member L l) ls)"
  by (simp add: assert_contains_def any_line_def list_ex_iff list_all_iff Let_def)

lemma minimal_tls_holds: minimal_tls
  unfolding minimal_tls_def assert_all_contained by code_simp

lemma build_profile_tests_pass: "list_all (\<lambda>t. t) build_profile_tests"
  unfolding build_profile_tests_def list.pred_inject
  by (intro conjI TrueI; (rule minimal_tls_holds | code_simp))

section \<open>Names, bundles and routes\<close>

definition verify_x509_name_with_type_prefix :: bool where
  "verify_x509_name_with_type_prefix \<longleftrightarrow>
     built [(''connection-type'', ''tls''), (''remote'', ''v''),
       (''verify-x509-name'', ''name-prefix:server'')]
       (\<lambda>out. assert_contains out ''verify-x509-name server name-prefix'')"

definition pkcs12_collapsed_when_cert_equals_key_p12 :: bool where
  "pkcs12_collapsed_when_cert_equals_key_p12 \<longleftrightarrow>
     built [(''connection-type'', ''tls''), (''remote'', ''v''), (''ca'', ''/tmp/ignored.crt''),
       (''cert'', ''/tmp/bundle.p12''), (''key'', ''/tmp/bundle.p12'')]
       (\<lambda>out. assert_contains out (''pkcs12 '' @ [SQUOTE] @ ''/tmp/bundle.p12'' @ [SQUOTE])
         \<and> \<not> any_line (\<lambda>l. starts_with l ''ca '') out
         \<and> \<not> any_line (\<lambda>l. starts_with l ''cert '') out
         \<and> \<not> any_line (\<lambda>l. starts_with l ''key '') out)"

definition pkcs12_not_collapsed_when_cert_differs_from_key :: bool where
  "pkcs12_not_collapsed_when_cert_differs_from_key \<longleftrightarrow>
     built [(''connection-type'', ''tls''), (''remote'', ''v''), (''cert'', ''/tmp/c.p12''),
       (''key'', ''/tmp/k.p12'')]
       (\<lambda>out. \<not> any_line (\<lambda>l. starts_with l ''pkcs12 '') out
         \<and> assert_contains out (''cert '' @ [SQUOTE] @ ''/tmp/c.p12'' @ [SQUOTE])
         \<and> assert_contains out (''key '' @ [SQUOTE] @ ''/tmp/k.p12'' @ [SQUOTE]))"

definition tls_version_min_or_highest :: bool where
  "tls_version_min_or_highest \<longleftrightarrow>
     built [(''connection-type'', ''tls''), (''remote'', ''v''), (''tls-version-min'', ''1.2''),
       (''tls-version-min-or-highest'', ''yes'')]
       (\<lambda>out. assert_contains out (''tls-version-min '' @ [SQUOTE] @ ''1.2'' @ [SQUOTE] @
         '' or-highest''))"

definition remote_bracketed_ipv6_splits_correctly :: bool where
  "remote_bracketed_ipv6_splits_correctly \<longleftrightarrow>
     parse_remote ''[2001:db8::1]:1194:tcp'' = (''2001:db8::1'', Some ''1194'', Some ''tcp'')"

definition remote_bracketed_ipv6_no_port :: bool where
  "remote_bracketed_ipv6_no_port \<longleftrightarrow>
     parse_remote ''[fe80::1]'' = (''fe80::1'', None, None)"

definition extra_routes_emit_verbatim :: bool where
  "extra_routes_emit_verbatim \<longleftrightarrow>
     built [(''connection-type'', ''tls''), (''remote'', ''v''), (''nm-openvpn3-extra-routes'',
       (''route 10.0.0.0 255.0.0.0'' @ [LF] @ ''route 192.168.1.0 255.255.255.0 10.0.0.1''))]
       (\<lambda>out. assert_contains out ''route 10.0.0.0 255.0.0.0''
         \<and> assert_contains out ''route 192.168.1.0 255.255.255.0 10.0.0.1'')"

definition extra_routes_reject_directive_injection :: bool where
  "extra_routes_reject_directive_injection \<longleftrightarrow>
     built [(''connection-type'', ''tls''), (''remote'', ''v''), (''nm-openvpn3-extra-routes'',
       (''route 10.0.0.0 255.0.0.0'' @ [LF] @ ''script-security 3'' @ [LF] @ ''up /tmp/evil.sh'' @
       [LF] @ ''route-up /tmp/x.sh''))]
       (\<lambda>out. assert_contains out ''route 10.0.0.0 255.0.0.0''
         \<and> \<not> any_line (\<lambda>l. starts_with l ''script-security 3'') out
         \<and> \<not> any_line (\<lambda>l. l = ''up /tmp/evil.sh'') out
         \<and> \<not> any_line (\<lambda>l. starts_with l ''route-up'') out)"

definition safe_route_line_allowlist :: bool where
  "safe_route_line_allowlist \<longleftrightarrow>
     is_safe_route_line ''route 10.0.0.0 255.0.0.0''
     \<and> is_safe_route_line ''route 10.0.0.0 255.0.0.0 vpn_gateway''
     \<and> is_safe_route_line ''route-ipv6 2001:db8::/32''
     \<and> is_safe_route_line ''route-gateway 10.8.0.1''
     \<and> is_safe_route_line ''route-metric 100''
     \<and> \<not> is_safe_route_line ''route-up /tmp/x.sh''
     \<and> \<not> is_safe_route_line ''up /tmp/x.sh''
     \<and> \<not> is_safe_route_line ''script-security 3''
     \<and> \<not> is_safe_route_line (''route '' @ [SQUOTE] @ ''a b'' @ [SQUOTE])
     \<and> \<not> is_safe_route_line (''route 1.2.3.0/24'' @ [CR] @ ''script-security 3'')
     \<and> \<not> is_safe_route_line (''route 10.0.0.0 255.0.0.0'' @ [TAB] @ ''up x'')"

definition extra_routes_reject_cr_smuggled_directive :: bool where
  "extra_routes_reject_cr_smuggled_directive \<longleftrightarrow>
     built [(''connection-type'', ''tls''), (''remote'', ''v''), (''nm-openvpn3-extra-routes'',
       (''route 1.2.3.0/24'' @ [CR] @ ''script-security 3''))]
       (\<lambda>out. \<not> contains_str out ''script-security 3''
         \<and> \<not> contains_str out ''1.2.3.0/24''
         \<and> \<not> contains_str out [CR])"

definition build_profile_route_tests :: "bool list" where
  "build_profile_route_tests =
     [verify_x509_name_with_type_prefix, pkcs12_collapsed_when_cert_equals_key_p12,
       pkcs12_not_collapsed_when_cert_differs_from_key, tls_version_min_or_highest,
       remote_bracketed_ipv6_splits_correctly, remote_bracketed_ipv6_no_port,
       extra_routes_emit_verbatim, extra_routes_reject_directive_injection,
       safe_route_line_allowlist, extra_routes_reject_cr_smuggled_directive]"

lemma build_profile_route_tests_pass: "list_all (\<lambda>t. t) build_profile_route_tests"
  unfolding build_profile_route_tests_def list.pred_inject
  by (intro conjI TrueI; code_simp)

section \<open>The regressions of the profile\<close>

definition auth_digest_emitted :: bool where
  "auth_digest_emitted \<longleftrightarrow>
     built [(''connection-type'', ''tls''), (''remote'', ''v''), (''auth'', ''SHA512'')]
       (\<lambda>out. assert_contains out ''auth SHA512'')"

definition auth_digest_emitted_for_static_key :: bool where
  "auth_digest_emitted_for_static_key \<longleftrightarrow>
     built [(''connection-type'', ''static-key''), (''remote'', ''v''),
       (''static-key'', ''/etc/ovpn/static.key''), (''auth'', ''SHA256'')]
       (\<lambda>out. assert_contains out ''auth SHA256'')"

definition static_key_emits_secret_and_no_tls_opts :: bool where
  "static_key_emits_secret_and_no_tls_opts \<longleftrightarrow>
     built [(''connection-type'', ''static-key''), (''remote'', ''v''),
       (''static-key'', ''/etc/ovpn/static.key''), (''static-key-direction'', ''1''),
       (''local-ip'', ''10.8.0.2''), (''remote-ip'', ''10.8.0.1''), (''ta'', ''/etc/ovpn/ta.key''),
       (''ca'', ''/etc/ovpn/ca.pem'')]
       (\<lambda>out. assert_contains out (''secret '' @ [SQUOTE] @ ''/etc/ovpn/static.key'' @ [SQUOTE] @
         '' 1'')
         \<and> assert_contains out (''ifconfig '' @ [SQUOTE] @ ''10.8.0.2'' @ [SQUOTE] @ '' '' @
           [SQUOTE] @ ''10.8.0.1'' @ [SQUOTE])
         \<and> \<not> any_line (\<lambda>l. l = ''client'') out
         \<and> \<not> any_line (\<lambda>l. starts_with l ''tls-auth'') out
         \<and> \<not> any_line (\<lambda>l. starts_with l ''ca '') out)"

definition crl_verify_dir_tls_auth_dir_tls_crypt_extra_certs_emitted :: bool where
  "crl_verify_dir_tls_auth_dir_tls_crypt_extra_certs_emitted \<longleftrightarrow>
     built [(''connection-type'', ''tls''), (''remote'', ''v''),
       (''crl-verify-dir'', ''/etc/ovpn/crl.d''), (''ta'', ''/etc/ovpn/ta.key''),
       (''ta-dir'', ''1''), (''tls-crypt'', ''/etc/ovpn/tc.key''),
       (''extra-certs'', ''/etc/ovpn/extra.pem'')]
       (\<lambda>out. assert_contains out (''crl-verify '' @ [SQUOTE] @ ''/etc/ovpn/crl.d'' @ [SQUOTE] @
         '' dir'')
         \<and> assert_contains out (''tls-auth '' @ [SQUOTE] @ ''/etc/ovpn/ta.key'' @ [SQUOTE] @ '' 1'')
         \<and> assert_contains out (''tls-crypt '' @ [SQUOTE] @ ''/etc/ovpn/tc.key'' @ [SQUOTE])
         \<and> assert_contains out (''extra-certs '' @ [SQUOTE] @ ''/etc/ovpn/extra.pem'' @ [SQUOTE]))"

definition socks_proxy_with_retry_and_default_port :: bool where
  "socks_proxy_with_retry_and_default_port \<longleftrightarrow>
     built [(''connection-type'', ''tls''), (''remote'', ''v''), (''proxy-type'', ''socks''),
       (''proxy-server'', ''socks.example.com''), (''proxy-retry'', ''yes'')]
       (\<lambda>out. assert_contains out (''socks-proxy '' @ [SQUOTE] @ ''socks.example.com'' @ [SQUOTE] @
         '' 1080'')
         \<and> assert_contains out ''socks-proxy-retry'')"

definition tap_dev_fallback_and_mssfix_flag_vs_value :: bool where
  "tap_dev_fallback_and_mssfix_flag_vs_value \<longleftrightarrow>
     built [(''connection-type'', ''tls''), (''remote'', ''v''), (''tap-dev'', ''yes''),
       (''mssfix'', ''1300'')]
       (\<lambda>out. assert_contains out ''dev tap''
         \<and> assert_contains out ''mssfix 1300''
         \<and> built [(''connection-type'', ''tls''), (''remote'', ''v''), (''mssfix'', ''yes'')]
         (\<lambda>out2. any_line (\<lambda>l. l = ''mssfix'') out2
           \<and> built [(''connection-type'', ''tls''), (''remote'', ''v''), (''mssfix'', ''auto'')]
           (\<lambda>out3. \<not> any_line (\<lambda>l. starts_with l ''mssfix'') out3)))"

definition verify_x509_name_with_colon_in_dn_not_split :: bool where
  "verify_x509_name_with_colon_in_dn_not_split \<longleftrightarrow>
     built [(''connection-type'', ''tls''), (''remote'', ''v''), (''verify-x509-name'', ''CN=Foo:Bar'')]
       (\<lambda>out. any_line (\<lambda>l. l = (''verify-x509-name '' @ [DQUOTE] @ ''CN=Foo:Bar'' @ [DQUOTE]) \<or> l =
         (''verify-x509-name '' @ [SQUOTE] @ ''CN=Foo:Bar'' @ [SQUOTE])) out)"

definition build_profile_regression_tests :: "bool list" where
  "build_profile_regression_tests =
     [auth_digest_emitted, auth_digest_emitted_for_static_key, static_key_emits_secret_and_no_tls_opts,
       crl_verify_dir_tls_auth_dir_tls_crypt_extra_certs_emitted,
       socks_proxy_with_retry_and_default_port, tap_dev_fallback_and_mssfix_flag_vs_value,
       verify_x509_name_with_colon_in_dn_not_split]"

lemma build_profile_regression_tests_pass: "list_all (\<lambda>t. t) build_profile_regression_tests"
  unfolding build_profile_regression_tests_def list.pred_inject
  by (intro conjI TrueI; code_simp)

end
