(* ===== verification/Ip4.thy ===== *)
theory Ip4
  imports Prelude
begin

unbundle bit_operations_syntax

text \<open>
  \<open>nm-openvpn3-service/src/routes.rs\<close> and \<open>ip4.rs\<close>: the \<open>/proc/net/route\<close> parser,
  the default-route test, and the \<open>Config\<close> / \<open>Ip4Config\<close> payloads the plugin emits
  when the tunnel is up.  Addresses are \<open>32 word\<close>s; \<open>to_be\<close> is that of a
  little-endian host (the byte order the code is written for).  What the code reads
  from the system (interface list, procfs, D-Bus properties, DNS) is the record
  \<open>ip4_env\<close>.
\<close>

section \<open>Words\<close>

definition to_be :: "u32 \<Rightarrow> u32" where
  "to_be w = push_bit 24 (w AND 0xFF) OR push_bit 8 (w AND 0xFF00)
     OR drop_bit 8 (w AND 0xFF0000) OR drop_bit 24 w"

definition count_ones :: "u32 \<Rightarrow> u32" where
  "count_ones w = of_nat (length (filter (bit w) [0..<32]))"

definition ipv4_u32 :: "u32 \<Rightarrow> u32 \<Rightarrow> u32 \<Rightarrow> u32 \<Rightarrow> u32" where
  "ipv4_u32 a b c d = push_bit 24 a OR push_bit 16 b OR push_bit 8 c OR d"

section \<open>routes.rs\<close>

record route =
  dest_be :: u32
  prefix :: u32
  next_hop_be :: u32
  metric :: u32

text \<open>The body of the loop for one line that is not the header.\<close>

definition parse_route_line :: "str \<Rightarrow> str \<Rightarrow> route option" where
  "parse_route_line tundev l =
     (let cols = split_whitespace l
      in if length cols < 11 then None
         else if cols ! 0 \<noteq> tundev then None
         else case parse_u32_hex (cols ! 1) of
                None \<Rightarrow> None
              | Some dest \<Rightarrow>
                  (case parse_u32_hex (cols ! 2) of
                     None \<Rightarrow> None
                   | Some hop \<Rightarrow>
                       (case parse_u32 (cols ! 6) of
                          None \<Rightarrow> None
                        | Some met \<Rightarrow>
                            (case parse_u32_hex (cols ! 7) of
                               None \<Rightarrow> None
                             | Some m \<Rightarrow>
                                 Some \<lparr>dest_be = dest, prefix = count_ones m, next_hop_be = hop,
                                       metric = met\<rparr>))))"

definition parse_proc_routes :: "str \<Rightarrow> str \<Rightarrow> route list" where
  "parse_proc_routes raw tundev = List.map_filter (parse_route_line tundev) (drop 1 (lines raw))"

definition for_tun_device :: "str option \<Rightarrow> str \<Rightarrow> route list" where
  "for_tun_device procfile tundev =
     (case procfile of Some raw \<Rightarrow> parse_proc_routes raw tundev | None \<Rightarrow> [])"

definition has_default_route :: "route list \<Rightarrow> bool" where
  "has_default_route routes =
     (if list_ex (\<lambda>r. prefix r = 0 \<and> dest_be r = 0) routes then True
      else (let lower_half = list_ex (\<lambda>r. prefix r = 1 \<and> dest_be r = 0) routes;
                upper_half = list_ex (\<lambda>r. prefix r = 1 \<and> dest_be r = 0x80) routes
            in lower_half \<and> upper_half))"

section \<open>Addresses (std::net)\<close>

text \<open>\<open>Ipv4Addr::from_str\<close>: four decimal octets of at most three digits, no leading zero.\<close>

definition parse_octet :: "str \<Rightarrow> u32 option" where
  "parse_octet s =
     (if s = [] \<or> 3 < length s \<or> (1 < length s \<and> hd s = CHR ''0'') \<or> \<not> list_all is_ascii_digit s then None
      else map_option of_int (parse_u8 s))"

definition parse_ipv4 :: "str \<Rightarrow> u32 option" where
  "parse_ipv4 s =
     (case map parse_octet (split_on (\<lambda>c. c = CHR ''.'') s) of
        [Some a, Some b, Some c, Some d] \<Rightarrow> Some (ipv4_u32 a b c d)
      | _ \<Rightarrow> None)"

text \<open>
  \<open>Ipv6Addr::from_str\<close>, as a test: groups of one to four hexadecimal digits separated
  by colons, at most one \<open>::\<close> standing for one group or more, and a dotted quad
  allowed for the last two groups.
\<close>

definition is_hex_group :: "str \<Rightarrow> bool" where
  "is_hex_group s \<longleftrightarrow> s \<noteq> [] \<and> length s \<le> 4 \<and> list_all (\<lambda>c. digit_val 16 c \<noteq> None) s"

definition group_count :: "bool \<Rightarrow> str list \<Rightarrow> nat option" where
  "group_count v4_last gs =
     (if gs = [] then Some 0
      else if list_all is_hex_group gs then Some (length gs)
      else if v4_last \<and> list_all is_hex_group (butlast gs) \<and> parse_ipv4 (last gs) \<noteq> None
           then Some (length gs + 1) else None)"

fun split_double_colon :: "str \<Rightarrow> (str \<times> str) option" where
  "split_double_colon (a # b # cs) =
     (if a = CHR '':'' \<and> b = CHR '':'' then Some ([], cs)
      else map_option (\<lambda>(x, y). (a # x, y)) (split_double_colon (b # cs)))"
| "split_double_colon cs = None"

definition colon_groups :: "str \<Rightarrow> str list" where
  "colon_groups s = (if s = [] then [] else split_on (\<lambda>c. c = CHR '':'') s)"

definition is_ipv6 :: "str \<Rightarrow> bool" where
  "is_ipv6 s =
     (case split_double_colon s of
        None \<Rightarrow> s \<noteq> [] \<and> group_count True (colon_groups s) = Some 8
      | Some (head, tail) \<Rightarrow>
          (case (group_count False (colon_groups head), group_count True (colon_groups tail)) of
             (Some h, Some t) \<Rightarrow> h + t \<le> 7
           | _ \<Rightarrow> False))"

section \<open>ip4.rs\<close>

definition ifv4_to_addr_prefix :: "u32 \<Rightarrow> u32 \<Rightarrow> u32 \<times> u32" where
  "ifv4_to_addr_prefix ip netmask = (to_be ip, count_ones netmask)"

datatype if_addr = V4 u32 u32 | V6

fun find_tun :: "str \<Rightarrow> (str \<times> if_addr) list \<Rightarrow> (u32 \<times> u32) option" where
  "find_tun tundev [] = None"
| "find_tun tundev ((name, a) # ifs) =
     (if name \<noteq> tundev then find_tun tundev ifs
      else case a of V4 ip netmask \<Rightarrow> Some (ifv4_to_addr_prefix ip netmask) | V6 \<Rightarrow> find_tun tundev ifs)"

definition lookup_tun_ipv4 :: "(str \<times> if_addr) list option \<Rightarrow> str \<Rightarrow> (u32 \<times> u32) option" where
  "lookup_tun_ipv4 addrs tundev = (case addrs of None \<Rightarrow> None | Some ifs \<Rightarrow> find_tun tundev ifs)"

definition routes_mask :: "u32 \<Rightarrow> u32" where
  "routes_mask pfx =
     (if pfx = 0 then 0 else if 32 \<le> pfx then 0xFFFFFFFF
      else to_be (push_bit (32 - unat pfx) 0xFFFFFFFF))"

definition build_routes_array :: "route list \<Rightarrow> u32 \<Rightarrow> u32 \<Rightarrow> u32 list list" where
  "build_routes_array routes addr_be pfx =
     (let mask_be = routes_mask pfx
      in map (\<lambda>r. [dest_be r, prefix r, next_hop_be r, metric r])
           (filter (\<lambda>r. \<not> (prefix r = pfx \<and> (dest_be r AND mask_be) = (addr_be AND mask_be)
                          \<and> next_hop_be r = 0)) routes))"

definition dns_strings_to_array :: "str list \<Rightarrow> u32 list" where
  "dns_strings_to_array servers = List.map_filter (\<lambda>s. map_option to_be (parse_ipv4 s)) servers"

datatype gateway_host = GW_V4 u32 | GW_V6 | GW_Name

definition classify_gateway_host :: "str \<Rightarrow> gateway_host" where
  "classify_gateway_host host =
     (case parse_ipv4 host of
        Some v4 \<Rightarrow> GW_V4 (to_be v4)
      | None \<Rightarrow> if is_ipv6 host then GW_V6 else GW_Name)"

datatype nm_value = NM_Str str | NM_U32 u32 | NM_Bool bool | NM_U32s "u32 list" | NM_Strs "str list"

type_synonym nm_dict = "str \<rightharpoonup> nm_value"

datatype resolved = Resolved "if_addr list" | Resolve_Failed | Resolve_Timeout

record ip4_env =
  env_device_name :: "str option"
  env_ifaddrs :: "(str \<times> if_addr) list option"
  env_connected :: "(str \<times> str \<times> u32) option"
  env_lookup :: "str \<Rightarrow> resolved"
  env_device_path :: "str option"
  env_dns_servers :: "str list option"
  env_dns_search :: "str list option"
  env_proc_routes :: "str option"
  env_config_ok :: bool
  env_ip4_ok :: bool

fun first_v4 :: "if_addr list \<Rightarrow> u32 option" where
  "first_v4 [] = None"
| "first_v4 (V4 ip netmask # as) = Some (to_be ip)"
| "first_v4 (V6 # as) = first_v4 as"

definition external_gateway :: "ip4_env \<Rightarrow> u32" where
  "external_gateway env =
     (case env_connected env of
        Some (proto, host, port) \<Rightarrow>
          if host = [] then 0
          else (case classify_gateway_host host of
                  GW_V4 be \<Rightarrow> be
                | GW_V6 \<Rightarrow> 0
                | GW_Name \<Rightarrow>
                    (case env_lookup env (host @ '':0'') of
                       Resolved as \<Rightarrow> (case first_v4 as of Some be \<Rightarrow> be | None \<Rightarrow> 0)
                     | _ \<Rightarrow> 0))
      | None \<Rightarrow> 0)"

datatype ip4_error = Device_Name_Read | Empty_Device_Name | No_Tun_Address | No_Gateway | Emit_Failed

datatype ip4_signal = Config_Signal nm_dict | Ip4_Signal nm_dict

definition config_dict :: "str \<Rightarrow> u32 \<Rightarrow> nm_dict" where
  "config_dict tundev gw =
     [''tundev'' \<mapsto> NM_Str tundev, ''gateway'' \<mapsto> NM_U32 gw, ''has-ip4'' \<mapsto> NM_Bool True,
      ''has-ip6'' \<mapsto> NM_Bool False, ''can-persist'' \<mapsto> NM_Bool False]"

definition ip4_dict :: "str \<Rightarrow> u32 \<Rightarrow> u32 \<Rightarrow> str list \<Rightarrow> str list \<Rightarrow> bool \<Rightarrow> nm_dict" where
  "ip4_dict tundev addr pfx dns search has_default =
     (let d = [''tundev'' \<mapsto> NM_Str tundev, ''address'' \<mapsto> NM_U32 addr, ''prefix'' \<mapsto> NM_U32 pfx,
               ''internal-gateway'' \<mapsto> NM_U32 0, ''preserve-routes'' \<mapsto> NM_Bool True];
          d = (if dns \<noteq> [] then d(''dns'' \<mapsto> NM_U32s (dns_strings_to_array dns)) else d);
          d = (if search \<noteq> [] then d(''domains'' \<mapsto> NM_Strs search) else d)
      in if \<not> has_default then d(''never-default'' \<mapsto> NM_Bool True) else d)"

definition dns_config :: "ip4_env \<Rightarrow> str list \<times> str list" where
  "dns_config env =
     (case env_device_path env of
        Some p \<Rightarrow>
          (case env_dns_servers env of Some s \<Rightarrow> s | None \<Rightarrow> [],
           case env_dns_search env of Some s \<Rightarrow> s | None \<Rightarrow> [])
      | None \<Rightarrow> ([], []))"

text \<open>
  \<open>emit\<close>: the signals sent, in order, and the result.  A signal whose emission fails
  ends the call with an error.
\<close>

definition ip4_emit :: "ip4_env \<Rightarrow> ip4_signal list \<times> (ip4_error, unit) result" where
  "ip4_emit env =
     (case env_device_name env of
        None \<Rightarrow> ([], Inl Device_Name_Read)
      | Some tundev \<Rightarrow>
          if tundev = [] then ([], Inl Empty_Device_Name)
          else case lookup_tun_ipv4 (env_ifaddrs env) tundev of
                 None \<Rightarrow> ([], Inl No_Tun_Address)
               | Some (addr, pfx) \<Rightarrow>
                   (let gw = external_gateway env
                    in if gw = 0 then ([], Inl No_Gateway)
                       else let (dns, search) = dns_config env;
                                routes = for_tun_device (env_proc_routes env) tundev;
                                has_default = has_default_route routes
                            in if \<not> env_config_ok env then ([], Inl Emit_Failed)
                               else if \<not> env_ip4_ok env
                                    then ([Config_Signal (config_dict tundev gw)], Inl Emit_Failed)
                                    else ([Config_Signal (config_dict tundev gw),
                                           Ip4_Signal (ip4_dict tundev addr pfx dns search has_default)],
                                          Inr ())))"


section \<open>Properties\<close>

text \<open>Byte order.\<close>

lemma byte_masks:
  "w AND 0xFF = take_bit 8 (w :: u32)"
  "w AND 0xFF00 = push_bit 8 (take_bit 8 (drop_bit 8 w))"
  "w AND 0xFF0000 = push_bit 16 (take_bit 8 (drop_bit 16 w))"
proof -
  have a: "(0xFF :: u32) = mask 8" "(0xFF00 :: u32) = push_bit 8 (mask 8)"
    "(0xFF0000 :: u32) = push_bit 16 (mask 8)"
    by (simp_all add: mask_eq_exp_minus_1 push_bit_eq_mult)
  show "w AND 0xFF = take_bit 8 w" unfolding a by (rule bit_word_eqI) (auto simp: bit_simps)
  show "w AND 0xFF00 = push_bit 8 (take_bit 8 (drop_bit 8 w))"
    unfolding a by (rule bit_word_eqI) (auto simp: bit_simps)
  show "w AND 0xFF0000 = push_bit 16 (take_bit 8 (drop_bit 16 w))"
    unfolding a by (rule bit_word_eqI) (auto simp: bit_simps)
qed

lemma bit_to_be:
  assumes "n < 32"
  shows "bit (to_be w) n \<longleftrightarrow> bit w (if n < 8 then n + 24 else if n < 16 then n + 8
     else if n < 24 then n - 8 else n - 24)"
proof -
  consider "n < 8" | "8 \<le> n" "n < 16" | "16 \<le> n" "n < 24" | "24 \<le> n" using assms by linarith
  then show ?thesis
    by cases (use assms bit_imp_le_length [of w "n + 8"] bit_imp_le_length [of w "n + 24"] in
      \<open>auto simp: to_be_def byte_masks bit_simps add.commute less_diff_conv2\<close>)
qed

lemma to_be_involution: "to_be (to_be w) = w"
  proof (rule bit_word_eqI)
  fix n assume "n < LENGTH(32)"
  then consider "n < 8" | "8 \<le> n" "n < 16" | "16 \<le> n" "n < 24" | "24 \<le> n" "n < 32"
    by fastforce
  then show "bit (to_be (to_be w)) n = bit w n"
    by cases (simp_all add: bit_to_be less_diff_conv2)
qed

lemma to_be_and: "to_be (a AND b) = to_be a AND to_be b"
  by (rule bit_word_eqI) (auto simp: bit_to_be bit_simps)

lemma to_be_inject: "to_be a = to_be b \<longleftrightarrow> a = b"
  by (metis to_be_involution)


text \<open>Routing semantics: a route covers an address (in host order) if the first
  \<open>prefix\<close> bits agree.\<close>

definition route_covers :: "route \<Rightarrow> u32 \<Rightarrow> bool" where
  "route_covers r a \<longleftrightarrow>
     drop_bit (32 - unat (prefix r)) a = drop_bit (32 - unat (prefix r)) (to_be (dest_be r))"

lemma drop_32: "drop_bit 32 (a :: u32) = 0"
  by (rule bit_word_eqI) (auto simp: bit_simps dest: bit_imp_le_length)

lemma drop_31: "drop_bit 31 (a :: u32) = of_bool (bit a 31)"
proof (rule bit_word_eqI)
  fix n assume "n < LENGTH(32)"
  then show "bit (drop_bit 31 a) n \<longleftrightarrow> bit (of_bool (bit a 31) :: u32) n"
    using bit_imp_le_length [of a "n + 31"]
    by (cases "n = 0") (auto simp: bit_simps add.commute)
qed

lemma to_be_halves: "to_be 0 = 0" "to_be 0x80 = 0x80000000"
  by code_simp+

text \<open>
  C20: When the code reports a default route, the tunnel's routes really cover the whole
  IPv4 space: every address is covered by some route, for the literal \<open>0.0.0.0/0\<close> and
  for the split \<open>0.0.0.0/1\<close> + \<open>128.0.0.0/1\<close>.
\<close>

theorem default_route_covers_all:
  assumes "has_default_route routes"
  shows "\<exists>r \<in> set routes. route_covers r a"
proof -
  from assms consider r where "r \<in> set routes" "prefix r = 0" "dest_be r = 0"
    | r r' where "r \<in> set routes" "prefix r = 1" "dest_be r = 0"
        "r' \<in> set routes" "prefix r' = 1" "dest_be r' = 0x80"
    by (auto simp: has_default_route_def list_ex_iff Let_def split: if_splits)
  then show ?thesis
  proof cases
    case 1
    then show ?thesis by (intro bexI [of _ r]) (simp_all add: route_covers_def drop_32)
  next
    case 2
    have b: "bit (0x80000000 :: u32) 31" by code_simp
    show ?thesis
    proof (cases "bit a 31")
      case True
      with 2 b show ?thesis
        by (intro bexI [of _ r']) (simp_all add: route_covers_def drop_31 to_be_halves)
    next
      case False
      with 2 show ?thesis
        by (intro bexI [of _ r]) (simp_all add: route_covers_def drop_31 to_be_halves)
    qed
  qed
qed

lemma default_route_covers_all_witness:
  "\<exists>r \<in> set [\<lparr>dest_be = 0, prefix = 1, next_hop_be = 7, metric = 0\<rparr>,
             \<lparr>dest_be = 0x80, prefix = 1, next_hop_be = 7, metric = 0\<rparr>]. route_covers r 0x08080808"
  by (rule default_route_covers_all) (simp add: has_default_route_def)

lemma count_ones_le: "count_ones w \<le> 32"
proof -
  have "length (filter (bit w) [0..<32]) \<le> 32"
    using length_filter_le [of "bit w" "[0..<32]"] by simp
  then show ?thesis
    unfolding count_ones_def by (simp add: word_le_nat_alt unat_of_nat)
qed

text \<open>
  The procfs parser keeps only rows of the given device, and a prefix length read
  from a mask is at most 32.
\<close>

theorem proc_routes_sound:
  assumes "r \<in> set (parse_proc_routes raw tundev)"
  shows "prefix r \<le> 32 \<and> (\<exists>l \<in> set (lines raw). hd (split_whitespace l) = tundev)"
proof -
  from assms obtain l where l: "l \<in> set (drop 1 (lines raw))" "parse_route_line tundev l = Some r"
    by (auto simp: parse_proc_routes_def List.map_filter_def)
  from l(2) have "prefix r \<le> 32" "split_whitespace l \<noteq> []" "split_whitespace l ! 0 = tundev"
    by (auto simp: parse_route_line_def Let_def count_ones_le split: if_splits option.splits)
  with in_set_dropD [OF l(1)] show ?thesis by (metis hd_conv_nth)
qed

definition example_proc :: str where
  "example_proc = ''Iface'' @ [LF] @ ''tun0 00000000 0100000A 0003 0 0 50 00000000 0 0 0'' @ [LF]
     @ ''eth0 0000FE0A 00000000 0001 0 0 100 FFFFFFFF 0 0 0''"

lemma proc_routes_sound_witness:
  "prefix \<lparr>dest_be = 0, prefix = 0, next_hop_be = 0x0100000A, metric = 50\<rparr> \<le> 32
   \<and> (\<exists>l \<in> set (lines example_proc). hd (split_whitespace l) = ''tun0'')"
proof (rule proc_routes_sound)
  have "parse_proc_routes example_proc ''tun0'' =
     [\<lparr>dest_be = 0, prefix = 0, next_hop_be = 0x0100000A, metric = 50\<rparr>]"
    by code_simp
  then show "\<lparr>dest_be = 0, prefix = 0, next_hop_be = 0x0100000A, metric = 50\<rparr>
      \<in> set (parse_proc_routes example_proc ''tun0'')" by simp
qed

lemma mask_test:
  assumes "0 < k" "k < 32"
  shows "(a AND to_be (push_bit k 0xFFFFFFFF)) = (b AND to_be (push_bit k 0xFFFFFFFF)) \<longleftrightarrow>
    drop_bit k (to_be a) = drop_bit k (to_be (b :: u32))"
proof -
  have m: "(0xFFFFFFFF :: u32) = mask 32" by (simp add: mask_eq_exp_minus_1)
  have "(a AND to_be (push_bit k (mask 32))) = (b AND to_be (push_bit k (mask 32))) \<longleftrightarrow>
      (to_be a AND push_bit k (mask 32)) = (to_be b AND push_bit k (mask 32))"
    by (metis to_be_and to_be_involution)
  also have "\<dots> \<longleftrightarrow> drop_bit k (to_be a) = drop_bit k (to_be b)"
  proof
    assume h: "to_be a AND push_bit k (mask 32) = to_be b AND push_bit k (mask 32)"
    show "drop_bit k (to_be a) = drop_bit k (to_be b)"
    proof (rule bit_word_eqI)
      fix n
      from h have "bit (to_be a AND push_bit k (mask 32)) (k + n) = bit (to_be b AND push_bit k (mask 32)) (k + n)"
        by simp
      then show "bit (drop_bit k (to_be a)) n = bit (drop_bit k (to_be b)) n"
        using bit_imp_le_length [of "to_be a" "k + n"] bit_imp_le_length [of "to_be b" "k + n"]
        by (auto simp: bit_simps)
    qed
  next
    assume h: "drop_bit k (to_be a) = drop_bit k (to_be b)"
    show "to_be a AND push_bit k (mask 32) = to_be b AND push_bit k (mask 32)"
    proof (rule bit_word_eqI)
      fix n
      from h have "bit (drop_bit k (to_be a)) (n - k) = bit (drop_bit k (to_be b)) (n - k)" by simp
      then show "bit (to_be a AND push_bit k (mask 32)) n = bit (to_be b AND push_bit k (mask 32)) n"
        by (auto simp: bit_simps)
    qed
  qed
  finally show ?thesis unfolding m .
qed

text \<open>
  The on-link test of \<open>build_routes_array\<close>, made on byte-swapped words, is the
  test on network prefixes: for a prefix length below 32 it drops exactly the gateway-less
  routes of that length whose leading bits are those of the tunnel address.
\<close>

theorem routes_array_drops_on_link:
  assumes "0 < pfx" and "pfx < 32"
  shows "build_routes_array routes addr pfx =
    map (\<lambda>r. [dest_be r, prefix r, next_hop_be r, metric r])
      (filter (\<lambda>r. \<not> (prefix r = pfx \<and> route_covers r (to_be addr) \<and> next_hop_be r = 0)) routes)"
proof -
  have k: "0 < 32 - unat pfx" "32 - unat pfx < 32"
    using assms by (simp_all add: word_less_nat_alt unat_gt_0)
  have "(dest_be r AND routes_mask pfx) = (addr AND routes_mask pfx) \<longleftrightarrow> route_covers r (to_be addr)"
    if "prefix r = pfx" for r
    using assms mask_test [OF k, of "dest_be r" addr] that
    by (auto simp: routes_mask_def route_covers_def to_be_involution)
  then have "filter (\<lambda>r. \<not> (prefix r = pfx \<and> (dest_be r AND routes_mask pfx) = (addr AND routes_mask pfx)
      \<and> next_hop_be r = 0)) routes
    = filter (\<lambda>r. \<not> (prefix r = pfx \<and> route_covers r (to_be addr) \<and> next_hop_be r = 0)) routes"
    by (intro filter_cong) auto
  then show ?thesis by (simp add: build_routes_array_def)
qed

lemma routes_array_drops_on_link_witness:
  "build_routes_array [\<lparr>dest_be = 0x000000A, prefix = 8, next_hop_be = 0, metric = 0\<rparr>] 0x0100000A 8 =
    map (\<lambda>r. [dest_be r, prefix r, next_hop_be r, metric r])
      (filter (\<lambda>r. \<not> (prefix r = 8 \<and> route_covers r (to_be 0x0100000A) \<and> next_hop_be r = 0))
        [\<lparr>dest_be = 0x000000A, prefix = 8, next_hop_be = 0, metric = 0\<rparr>])"
  by (rule routes_array_drops_on_link) simp_all



definition example_env :: ip4_env where
  "example_env =
     \<lparr>env_device_name = Some ''tun0'', env_ifaddrs = Some [(''lo'', V4 0x7F000001 0xFF000000),
        (''tun0'', V4 0x0A080002 0xFFFFFF00)], env_connected = Some (''udp'', ''192.0.2.1'', 1194),
      env_lookup = (\<lambda>_. Resolve_Failed), env_device_path = Some ''/d'', env_dns_servers = Some [''10.8.0.1'', ''::1''],
      env_dns_search = Some [], env_proc_routes = Some example_proc, env_config_ok = True, env_ip4_ok = True\<rparr>"


text \<open>
  If \<open>emit\<close> fails, \<open>Ip4Config\<close> was not sent, so NetworkManager never sees an
  address without the rest; a failure before the first signal sends nothing at all.
\<close>

theorem ip4_emit_error:
  assumes "ip4_emit env = (sent, Inl e)"
  shows "(\<forall>d. Ip4_Signal d \<notin> set sent) \<and> (e \<noteq> Emit_Failed \<longrightarrow> sent = [])"
  using assms by (auto simp: ip4_emit_def Let_def split: option.splits if_splits prod.splits)

lemma ip4_emit_error_witness:
  "ip4_emit (example_env\<lparr>env_connected := None\<rparr>) = ([], Inl No_Gateway)"
proof -
  have "snd (ip4_emit (example_env\<lparr>env_connected := None\<rparr>)) = Inl No_Gateway" by code_simp
  then obtain sent where s: "ip4_emit (example_env\<lparr>env_connected := None\<rparr>) = (sent, Inl No_Gateway)"
    by (cases "ip4_emit (example_env\<lparr>env_connected := None\<rparr>)") auto
  from ip4_emit_error [OF this] s show ?thesis by simp
qed

text \<open>Dotted quads.\<close>

definition dotted :: "int \<Rightarrow> int \<Rightarrow> int \<Rightarrow> int \<Rightarrow> str" where
  "dotted a b c d = show_int a @ ''.'' @ show_int b @ ''.'' @ show_int c @ ''.'' @ show_int d"

lemma octets_parse:
  assumes "0 \<le> n" "n \<le> 255"
  shows "parse_octet (show_int n) = Some (of_int n)" "CHR ''.'' \<notin> set (show_int n)"
proof -
  have "list_all (\<lambda>n. parse_octet (show_int n) = Some (of_int n) \<and> CHR ''.'' \<notin> set (show_int n)) [0..255]"
    by code_simp
  with assms show "parse_octet (show_int n) = Some (of_int n)" "CHR ''.'' \<notin> set (show_int n)"
    by (auto simp: list_all_iff)
qed

text \<open>
  A DNS server given as a dotted quad reaches NetworkManager as the word whose
  memory bytes on a little-endian host are the four octets in order.
\<close>

theorem dns_server_encoding:
  assumes "0 \<le> a" "a \<le> 255" "0 \<le> b" "b \<le> 255" "0 \<le> c" "c \<le> 255" "0 \<le> d" "d \<le> 255"
  shows "dns_strings_to_array [dotted a b c d] =
    [to_be (ipv4_u32 (of_int a) (of_int b) (of_int c) (of_int d))]"
proof -
  have n: "\<forall>x \<in> set (show_int n). x \<noteq> CHR ''.''" if "0 \<le> n" "n \<le> 255" for n
    using octets_parse(2) [OF that] by auto
  have "split_on (\<lambda>c. c = CHR ''.'') (dotted a b c d) = [show_int a, show_int b, show_int c, show_int d]"
    using n assms by (simp add: dotted_def split_on_append split_on_no)
  then have "parse_ipv4 (dotted a b c d) = Some (ipv4_u32 (of_int a) (of_int b) (of_int c) (of_int d))"
    using assms by (simp add: parse_ipv4_def octets_parse)
  then show ?thesis by (simp add: dns_strings_to_array_def List.map_filter_simps)
qed

lemma dns_server_encoding_witness:
  "dns_strings_to_array [dotted 10 8 0 1] = [to_be (ipv4_u32 (of_int 10) (of_int 8) (of_int 0) (of_int 1))]"
  by (rule dns_server_encoding) simp_all

end
