(* ===== verification/Settings.thy ===== *)
theory Settings
  imports Prelude
begin

text \<open>
  \<open>nm-openvpn3-service/src/connection.rs\<close> and \<open>secrets.rs\<close>: reading the
  \<open>a{sa{sv}}\<close> dictionary that NetworkManager passes to the plugin, and the mapping
  between openvpn3's input slots and NetworkManager's secret keys.

  The variant type of the D-Bus library is a type parameter \<open>'v\<close>; the conversions
  the code calls on it are the fields of \<open>conv\<close>.  A dictionary of variants is read
  as the list of its entries in iteration order.
\<close>

section \<open>Variants\<close>

record 'v conv =
  as_str :: "'v \<Rightarrow> str option"
  as_ss :: "'v \<Rightarrow> dict option"
  as_sv :: "'v \<Rightarrow> (str \<times> 'v) list option"
  as_str_list :: "'v \<Rightarrow> str list option"
  clone :: "'v \<Rightarrow> 'v option"

type_synonym 'v settings = "str \<rightharpoonup> str \<rightharpoonup> 'v"

section \<open>connection.rs\<close>

datatype settings_error = Missing_Vpn | Missing_Data | Not_A_String str | Not_A_Dict

fun strings_or_bail :: "'v conv \<Rightarrow> dict \<Rightarrow> (str \<times> 'v) list \<Rightarrow> (settings_error, dict) result" where
  "strings_or_bail cv out [] = Inr out"
| "strings_or_bail cv out ((k, v) # m) =
     (case as_str cv v of
        Some s \<Rightarrow> strings_or_bail cv (out(k \<mapsto> s)) m
      | None \<Rightarrow> Inl (Not_A_String k))"

definition string_string_dict :: "'v conv \<Rightarrow> 'v \<Rightarrow> (settings_error, dict) result" where
  "string_string_dict cv value =
     (case as_ss cv value of
        Some m \<Rightarrow> Inr m
      | None \<Rightarrow>
          (case as_sv cv value of
             Some m \<Rightarrow> strings_or_bail cv Map.empty m
           | None \<Rightarrow> Inl Not_A_Dict))"

definition vpn_data :: "'v conv \<Rightarrow> 'v settings \<Rightarrow> (settings_error, dict) result" where
  "vpn_data cv settings =
     (case settings ''vpn'' of
        None \<Rightarrow> Inl Missing_Vpn
      | Some vpn \<Rightarrow>
          (case vpn ''data'' of None \<Rightarrow> Inl Missing_Data | Some raw \<Rightarrow> string_string_dict cv raw))"

definition vpn_secrets :: "'v conv \<Rightarrow> 'v settings \<Rightarrow> (settings_error, dict) result" where
  "vpn_secrets cv settings =
     (case settings ''vpn'' of
        None \<Rightarrow> Inr Map.empty
      | Some vpn \<Rightarrow>
          (case vpn ''secrets'' of
             None \<Rightarrow> Inr Map.empty
           | Some raw \<Rightarrow> string_string_dict cv raw))"

definition permission_user :: "str \<Rightarrow> str option" where
  "permission_user e =
     (case strip_prefix ''user:'' e of
        None \<Rightarrow> None
      | Some rest \<Rightarrow>
          (let name = (case split_on (\<lambda>c. c = CHR '':'') rest of n # _ \<Rightarrow> n | [] \<Rightarrow> [])
           in if name = [] then None else Some name))"

definition permission_users :: "'v conv \<Rightarrow> 'v settings \<Rightarrow> str list" where
  "permission_users cv settings =
     (case settings ''connection'' of
        None \<Rightarrow> []
      | Some conn \<Rightarrow>
          (case conn ''permissions'' of
             None \<Rightarrow> []
           | Some raw \<Rightarrow>
               (case as_str_list cv raw of
                  None \<Rightarrow> []
                | Some entries \<Rightarrow> List.map_filter permission_user entries)))"

definition connection_id :: "'v conv \<Rightarrow> 'v settings \<Rightarrow> str option" where
  "connection_id cv settings =
     (case settings ''connection'' of
        None \<Rightarrow> None
      | Some conn \<Rightarrow> (case conn ''id'' of None \<Rightarrow> None | Some raw \<Rightarrow> nonempty (as_str cv raw)))"

section \<open>secrets.rs\<close>

record input_slot =
  slot_type :: u32
  slot_group :: u32
  slot_id :: u32
  slot_name :: str
  slot_description :: str
  slot_mask_input :: bool

definition name_to_vpn_key :: "str \<Rightarrow> str" where
  "name_to_vpn_key n =
     (if n = ''username'' then ''username''
      else if n = ''password'' then ''password''
      else if contains_str n ''challenge'' \<or> contains_str n ''response'' then ''challenge-response''
      else if contains_str n ''private_key'' \<or> contains_str n ''key_pass'' then ''cert-pass''
      else if contains_str n ''http_proxy_user'' then ''http-proxy-username''
      else if contains_str n ''http_proxy_pass'' then ''http-proxy-password''
      else ''password'')"

definition slot_to_vpn_key :: "input_slot \<Rightarrow> str" where
  "slot_to_vpn_key slot = name_to_vpn_key (slot_name slot)"

definition lookup_value :: "str \<Rightarrow> dict \<Rightarrow> dict \<Rightarrow> str option" where
  "lookup_value vkey data secrets =
     (if vkey = ''username'' \<or> vkey = ''http-proxy-username'' then data vkey else secrets vkey)"

fun strings_or_skip :: "'v conv \<Rightarrow> dict \<Rightarrow> (str \<times> 'v) list \<Rightarrow> dict" where
  "strings_or_skip cv out [] = out"
| "strings_or_skip cv out ((k, v) # m) =
     (case as_str cv v of
        Some s \<Rightarrow> strings_or_skip cv (out(k \<mapsto> s)) m
      | None \<Rightarrow> strings_or_skip cv out m)"

definition flatten_str_map :: "'v conv \<Rightarrow> 'v \<Rightarrow> dict option" where
  "flatten_str_map cv v =
     (case as_ss cv v of
        Some m \<Rightarrow> Some m
      | None \<Rightarrow> map_option (strings_or_skip cv Map.empty) (as_sv cv v))"

definition sub_dict :: "'v conv \<Rightarrow> (str \<rightharpoonup> 'v) \<Rightarrow> str \<Rightarrow> dict" where
  "sub_dict cv vpn k =
     (case vpn k of
        None \<Rightarrow> Map.empty
      | Some v \<Rightarrow>
          (case clone cv v of
             None \<Rightarrow> Map.empty
           | Some v' \<Rightarrow> (case flatten_str_map cv v' of None \<Rightarrow> Map.empty | Some m \<Rightarrow> m)))"

definition split_vpn :: "'v conv \<Rightarrow> 'v settings \<Rightarrow> dict \<times> dict" where
  "split_vpn cv settings =
     (case settings ''vpn'' of
        Some vpn \<Rightarrow> (sub_dict cv vpn ''data'', sub_dict cv vpn ''secrets'')
      | None \<Rightarrow> (Map.empty, Map.empty))"

section \<open>The two readers of vpn.data\<close>

lemma strings_bail_skip:
  "strings_or_bail cv out m = Inr d \<Longrightarrow> strings_or_skip cv out m = d"
  by (induction cv out m rule: strings_or_bail.induct) (auto split: option.splits)

lemma skip_lookup:
  assumes "distinct (map fst m)"
  shows "strings_or_skip cv out m k =
    (case map_of m k of
       Some v \<Rightarrow> (case as_str cv v of Some s \<Rightarrow> Some s | None \<Rightarrow> out k) | None \<Rightarrow> out k)"
  using assms
proof (induction m arbitrary: out)
  case (Cons kv m)
  obtain k' v where kv: "kv = (k', v)" by (cases kv)
  with Cons.prems have "k' \<notin> fst ` set m" "distinct (map fst m)" by simp_all
  moreover from this(1) have "map_of m k' = None" by (simp add: map_of_eq_None_iff)
  ultimately show ?case
    using kv
    by (cases "as_str cv v"; cases "k' = k")
       (simp_all add: Cons.IH del: map_of_eq_Some_iff split: option.split)
qed simp

text \<open>
  Whenever the strict reader \<open>vpn_data\<close> that the profile is built from succeeds, the
  lenient reader \<open>split_vpn\<close> that answers credential prompts sees the same dictionary
  (for a variant that can be cloned).
\<close>

theorem split_vpn_agrees_with_vpn_data:
  assumes "vpn_data cv settings = Inr d" and "\<forall>v. clone cv v = Some v"
  shows "fst (split_vpn cv settings) = d"
  using assms strings_bail_skip
  by (fastforce simp: vpn_data_def split_vpn_def sub_dict_def string_string_dict_def
      flatten_str_map_def split: option.splits)

text \<open>A concrete variant type for the witnesses: a string, or a dictionary of variants.\<close>

datatype variant = V_Str str | V_Int int | V_Dict "(str \<times> variant) list"

definition variant_conv :: "variant conv" where
  "variant_conv = \<lparr>as_str = (\<lambda>v. case v of V_Str s \<Rightarrow> Some s | _ \<Rightarrow> None), as_ss = (\<lambda>v. None),
     as_sv = (\<lambda>v. case v of V_Dict m \<Rightarrow> Some m | _ \<Rightarrow> None), as_str_list = (\<lambda>v. None), clone = Some\<rparr>"

definition example_settings :: "variant settings" where
  "example_settings =
     [''vpn'' \<mapsto> [''data'' \<mapsto> V_Dict [(''remote'', V_Str ''h''), (''username'', V_Str ''u'')],
                ''secrets'' \<mapsto> V_Dict [(''password'', V_Str ''p''), (''n'', V_Int 3)]]]"

lemma split_vpn_agrees_with_vpn_data_witness:
  "fst (split_vpn variant_conv example_settings) = [''remote'' \<mapsto> ''h'', ''username'' \<mapsto> ''u'']"
  by (rule split_vpn_agrees_with_vpn_data)
     (simp_all add: variant_conv_def example_settings_def vpn_data_def string_string_dict_def)

text \<open>
  The lenient reader keeps every entry that is a string, whatever else the dictionary
  holds, and drops exactly the others.
\<close>

theorem flatten_keeps_strings:
  assumes "as_ss cv v = None" and "as_sv cv v = Some m" and "distinct (map fst m)"
  shows "\<exists>d. flatten_str_map cv v = Some d
    \<and> (\<forall>k s. d k = Some s \<longleftrightarrow> (\<exists>x. map_of m k = Some x \<and> as_str cv x = Some s))"
  using assms skip_lookup [OF assms(3), of cv Map.empty]
  by (auto simp: flatten_str_map_def simp del: map_of_eq_Some_iff split: option.splits)

lemma flatten_keeps_strings_witness:
  "\<exists>d. flatten_str_map variant_conv (V_Dict [(''password'', V_Str ''p''), (''n'', V_Int 3)]) = Some d
    \<and> (\<forall>k s. d k = Some s \<longleftrightarrow>
         (\<exists>x. map_of [(''password'', V_Str ''p''), (''n'', V_Int 3)] k = Some x
            \<and> as_str variant_conv x = Some s))"
  by (rule flatten_keeps_strings) (simp_all add: variant_conv_def)

text \<open>
  Every openvpn3 input slot maps to one of the six NetworkManager keys; the two
  username keys are looked up in vpn.data and never in vpn.secrets, so a user name is
  never treated as a secret and no secret is read from vpn.data.
\<close>

theorem slot_keys_routed:
  "slot_to_vpn_key slot \<in> {''username'', ''password'', ''challenge-response'', ''cert-pass'',
      ''http-proxy-username'', ''http-proxy-password''}
   \<and> lookup_value (slot_to_vpn_key slot) data secrets =
       (if slot_to_vpn_key slot \<in> {''username'', ''http-proxy-username''}
        then data (slot_to_vpn_key slot) else secrets (slot_to_vpn_key slot))"
  by (simp add: slot_to_vpn_key_def name_to_vpn_key_def lookup_value_def)

end
