(* ===== verification/Client.thy ===== *)
theory Client
  imports Settings
begin

text \<open>
  \<open>ovpn3-client/src/retry.rs\<close> and \<open>lib.rs\<close>: the client of the openvpn3 daemons.  A
  D-Bus call is an operation \<open>'w \<Rightarrow> (fdo_error, 'a) result \<times> 'w\<close> on a state of the bus;
  \<open>bus\<close> below is the general one: the replies the environment will give, in order,
  and the calls that were delivered to openvpn3 so far.  The locale \<open>dispatch\<close> states
  what the retry relies on, the documented meaning of the bus daemon's errors: an error
  raised before dispatch leaves no effect on the receiver.
\<close>

section \<open>retry.rs\<close>

text \<open>The FDO projection of a \<open>zbus::Error\<close> (\<open>Other_Fdo\<close>: every other variant).\<close>

datatype fdo_error =
    Service_Unknown | Spawn_Child_Exited | Unknown_Object | Unknown_Method str
  | No_Reply | Timed_Out | Disconnected_Err | Other_Fdo str

definition is_pre_dispatch_transient :: "fdo_error \<Rightarrow> bool" where
  "is_pre_dispatch_transient e =
     (case e of
        Service_Unknown \<Rightarrow> True
      | Spawn_Child_Exited \<Rightarrow> True
      | Unknown_Object \<Rightarrow> True
      | Unknown_Method msg \<Rightarrow> contains_str msg ''Object does not exist at path''
      | _ \<Rightarrow> False)"

datatype retry_error = Zero_Attempts | Call_Error fdo_error

type_synonym ('w, 'a) bus_op = "'w \<Rightarrow> (fdo_error, 'a) result \<times> 'w"

text \<open>The loop; \<open>left\<close> counts the attempts left after this one.  The wait between two
  attempts has no effect on the state and is not modelled.\<close>

fun retry_loop :: "nat \<Rightarrow> ('w, 'a) bus_op \<Rightarrow> 'w \<Rightarrow> (retry_error, 'a) result \<times> 'w" where
  "retry_loop 0 op w =
     (case op w of (Inr t, w') \<Rightarrow> (Inr t, w') | (Inl e, w') \<Rightarrow> (Inl (Call_Error e), w'))"
| "retry_loop (Suc left) op w =
     (case op w of
        (Inr t, w') \<Rightarrow> (Inr t, w')
      | (Inl e, w') \<Rightarrow>
          if \<not> is_pre_dispatch_transient e then (Inl (Call_Error e), w')
          else retry_loop left op w')"

definition with_activation_retry ::
  "nat \<Rightarrow> ('w, 'a) bus_op \<Rightarrow> 'w \<Rightarrow> (retry_error, 'a) result \<times> 'w" where
  "with_activation_retry attempts op w =
     (case attempts of 0 \<Rightarrow> (Inl Zero_Attempts, w) | Suc left \<Rightarrow> retry_loop left op w)"

section \<open>The contract of dispatch\<close>

locale dispatch =
  fixes op :: "('w, 'a) bus_op"
    and effects :: "'w \<Rightarrow> nat"
  assumes pre_dispatch_no_effect:
      "op w = (Inl e, w') \<Longrightarrow> is_pre_dispatch_transient e \<Longrightarrow> effects w' = effects w"
    and at_most_one: "op w = (r, w') \<Longrightarrow> effects w \<le> effects w' \<and> effects w' \<le> effects w + 1"
begin

lemma loop_effects:
  "retry_loop left op w = (r, w') \<Longrightarrow> effects w \<le> effects w' \<and> effects w' \<le> effects w + 1"
proof (induction left arbitrary: w)
  case 0
  then show ?case using at_most_one by (auto split: prod.splits sum.splits)
next
  case (Suc left)
  obtain r1 w1 where o: "op w = (r1, w1)" by (cases "op w")
  show ?case
  proof (cases r1)
    case (Inr t)
    with Suc.prems o at_most_one [OF o] show ?thesis by auto
  next
    case (Inl e)
    show ?thesis
    proof (cases "is_pre_dispatch_transient e")
      case True
      with Suc.prems o Inl have "retry_loop left op w1 = (r, w')" by simp
      from Suc.IH [OF this] pre_dispatch_no_effect [OF _ True] o Inl show ?thesis by simp
    next
      case False
      with Suc.prems o Inl at_most_one [OF o] show ?thesis by auto
    qed
  qed
qed

lemma retry_effects:
  "with_activation_retry attempts op w = (r, w') \<Longrightarrow> effects w \<le> effects w' \<and> effects w' \<le> effects w + 1"
  using loop_effects by (auto simp: with_activation_retry_def split: nat.splits)

end

section \<open>The bus\<close>

datatype call =
    Import str str bool | New_Tunnel str | Set_Override_Bool str str bool
  | Set_Override_String str str str | Remove str | Session_Connect str | Session_Disconnect str
  | Access_Grant str u32 | Set_Public_Access str bool | User_Input_Provide str u32 u32 u32 str

text \<open>\<open>script n\<close> is what the environment answers to the \<open>n\<close>-th call.\<close>

record bus =
  script :: "nat \<Rightarrow> (fdo_error, str) result"
  clock :: nat
  delivered :: "call list"

text \<open>
  One call: an error raised before dispatch is not delivered; every other answer,
  errors included, may have taken effect.
\<close>

definition bus_call :: "call \<Rightarrow> (bus, str) bus_op" where
  "bus_call c b =
     (let r = script b (clock b);
          b = b\<lparr>clock := Suc (clock b)\<rparr>
      in case r of
           Inl e \<Rightarrow> (Inl e, if is_pre_dispatch_transient e then b else b\<lparr>delivered := delivered b @ [c]\<rparr>)
         | Inr v \<Rightarrow> (Inr v, b\<lparr>delivered := delivered b @ [c]\<rparr>))"

interpretation bus_dispatch: dispatch "bus_call c" "\<lambda>b. length (delivered b)" for c
  by unfold_locales (auto simp: bus_call_def Let_def split: sum.splits if_splits)

section \<open>lib.rs: calls\<close>

definition import_config :: "str \<Rightarrow> str \<Rightarrow> bool \<Rightarrow> bus \<Rightarrow> (retry_error, str) result \<times> bus" where
  "import_config name ovpn_profile single_use b =
     with_activation_retry 3 (bus_call (Import name ovpn_profile single_use)) b"

definition new_tunnel :: "str \<Rightarrow> bus \<Rightarrow> (retry_error, str) result \<times> bus" where
  "new_tunnel config_path b = with_activation_retry 3 (bus_call (New_Tunnel config_path)) b"

definition config_set_override_bool :: "str \<Rightarrow> str \<Rightarrow> bool \<Rightarrow> (bus, str) bus_op" where
  "config_set_override_bool config_path name v = bus_call (Set_Override_Bool config_path name v)"

definition config_set_override_string :: "str \<Rightarrow> str \<Rightarrow> str \<Rightarrow> (bus, str) bus_op" where
  "config_set_override_string config_path name v = bus_call (Set_Override_String config_path name v)"

definition config_remove :: "str \<Rightarrow> (bus, str) bus_op" where
  "config_remove config_path = bus_call (Remove config_path)"

definition session_connect :: "str \<Rightarrow> (bus, str) bus_op" where
  "session_connect session_path = bus_call (Session_Connect session_path)"

definition session_disconnect :: "str \<Rightarrow> (bus, str) bus_op" where
  "session_disconnect session_path = bus_call (Session_Disconnect session_path)"

definition session_access_grant :: "str \<Rightarrow> u32 \<Rightarrow> (bus, str) bus_op" where
  "session_access_grant session_path uid = bus_call (Access_Grant session_path uid)"

definition session_set_public_access :: "str \<Rightarrow> bool \<Rightarrow> (bus, str) bus_op" where
  "session_set_public_access session_path v = bus_call (Set_Public_Access session_path v)"

definition session_provide_input :: "str \<Rightarrow> input_slot \<Rightarrow> str \<Rightarrow> (bus, str) bus_op" where
  "session_provide_input session_path slot v =
     bus_call (User_Input_Provide session_path (slot_type slot) (slot_group slot) (slot_id slot) v)"

section \<open>lib.rs: session_wait_ready\<close>

text \<open>
  \<open>ready i\<close> is the answer to the \<open>i\<close>-th \<open>Ready\<close> call and \<open>latency i\<close> the milliseconds
  until it arrives; the loop sleeps 100 ms between attempts.  The result is the answer,
  with the number of attempts made.
\<close>

function wait_ready_loop ::
  "(nat \<Rightarrow> bool) \<Rightarrow> (nat \<Rightarrow> nat) \<Rightarrow> nat \<Rightarrow> nat \<Rightarrow> nat \<Rightarrow> bool \<times> nat" where
  "wait_ready_loop ready latency deadline now i =
     (if ready i then (True, Suc i)
      else if now + latency i < deadline
           then wait_ready_loop ready latency deadline (now + latency i + 100) (Suc i)
           else (False, Suc i))"
  by pat_completeness auto
termination
  by (relation "measure (\<lambda>(ready, latency, deadline, now, i). deadline - now)") auto

declare wait_ready_loop.simps [simp del]

definition session_wait_ready :: "(nat \<Rightarrow> bool) \<Rightarrow> (nat \<Rightarrow> nat) \<Rightarrow> nat \<Rightarrow> bool \<times> nat" where
  "session_wait_ready ready latency timeout = wait_ready_loop ready latency timeout 0 0"

section \<open>lib.rs: session_fetch_input_slots\<close>

fun fetch_ids ::
  "(u32 \<Rightarrow> ('w, str \<times> str \<times> bool) bus_op) \<Rightarrow> u32 \<Rightarrow> u32 \<Rightarrow> u32 list \<Rightarrow> 'w \<Rightarrow> input_slot list \<times> 'w" where
  "fetch_ids fetch t g [] w = ([], w)"
| "fetch_ids fetch t g (i # is) w =
     (case fetch i w of
        (Inr (name, descr, mask_input), w') \<Rightarrow>
          (let (out, w'') = fetch_ids fetch t g is w'
           in (\<lparr>slot_type = t, slot_group = g, slot_id = i, slot_name = name,
                slot_description = descr, slot_mask_input = mask_input\<rparr> # out, w''))
      | (Inl e, w') \<Rightarrow> fetch_ids fetch t g is w')"

fun fetch_pairs ::
  "(u32 \<Rightarrow> u32 \<Rightarrow> ('w, u32 list) bus_op) \<Rightarrow> (u32 \<Rightarrow> u32 \<Rightarrow> u32 \<Rightarrow> ('w, str \<times> str \<times> bool) bus_op)
   \<Rightarrow> (u32 \<times> u32) list \<Rightarrow> 'w \<Rightarrow> input_slot list \<times> 'w" where
  "fetch_pairs check fetch [] w = ([], w)"
| "fetch_pairs check fetch ((t, g) # ps) w =
     (case check t g w of
        (Inl e, w') \<Rightarrow> fetch_pairs check fetch ps w'
      | (Inr ids, w') \<Rightarrow>
          (let (out, w'') = fetch_ids (fetch t g) t g ids w';
               (rest, w''') = fetch_pairs check fetch ps w''
           in (out @ rest, w''')))"

definition session_fetch_input_slots ::
  "('w, (u32 \<times> u32) list) bus_op \<Rightarrow> (u32 \<Rightarrow> u32 \<Rightarrow> ('w, u32 list) bus_op)
   \<Rightarrow> (u32 \<Rightarrow> u32 \<Rightarrow> u32 \<Rightarrow> ('w, str \<times> str \<times> bool) bus_op)
   \<Rightarrow> 'w \<Rightarrow> (fdo_error, input_slot list) result \<times> 'w" where
  "session_fetch_input_slots get_type_group check fetch w =
     (case get_type_group w of
        (Inl e, w') \<Rightarrow> (Inl e, w')
      | (Inr pairs, w') \<Rightarrow> (let (out, w'') = fetch_pairs check fetch pairs w' in (Inr out, w'')))"

section \<open>lib.rs: session_get_connected_to\<close>

record 'v endpoint_conv =
  ep_conv :: "'v conv"
  ep_u32 :: "'v \<Rightarrow> u32 option"
  ep_ssu :: "'v \<Rightarrow> (str \<times> str \<times> u32) option"

definition endpoint_str :: "'v endpoint_conv \<Rightarrow> 'v option \<Rightarrow> str" where
  "endpoint_str ec v =
     (case v of
        None \<Rightarrow> []
      | Some x \<Rightarrow>
          (case clone (ep_conv ec) x of
             None \<Rightarrow> []
           | Some x' \<Rightarrow> (case as_str (ep_conv ec) x' of Some s \<Rightarrow> s | None \<Rightarrow> [])))"

definition endpoint_u32 :: "'v endpoint_conv \<Rightarrow> 'v option \<Rightarrow> u32" where
  "endpoint_u32 ec v =
     (case v of
        None \<Rightarrow> 0
      | Some x \<Rightarrow>
          (case clone (ep_conv ec) x of
             None \<Rightarrow> 0
           | Some x' \<Rightarrow> (case ep_u32 ec x' of Some n \<Rightarrow> n | None \<Rightarrow> 0)))"

definition parse_connected_to :: "str \<Rightarrow> str \<times> str \<times> u32" where
  "parse_connected_to s =
     (let rest = (case rsplit_once (CHR ''@'') s of Some (_, r) \<Rightarrow> r | None \<Rightarrow> s)
      in case rsplit_once (CHR '':'') rest of
           Some (host, port_s) \<Rightarrow> ([], host, case parse_u32 port_s of Some p \<Rightarrow> p | None \<Rightarrow> 0)
         | None \<Rightarrow> ([], rest, 0))"

definition read_connected_to :: "'v endpoint_conv \<Rightarrow> 'v \<Rightarrow> (str \<times> str \<times> u32) option" where
  "read_connected_to ec value =
     (case (case clone (ep_conv ec) value of None \<Rightarrow> None | Some c \<Rightarrow> ep_ssu ec c) of
        Some t \<Rightarrow> Some t
      | None \<Rightarrow> map_option parse_connected_to (as_str (ep_conv ec) value))"

text \<open>Each probe is \<open>None\<close> when the property read (or its decoding) failed.\<close>

definition session_get_connected_to ::
  "'v endpoint_conv \<Rightarrow> 'v option \<Rightarrow> 'v option \<Rightarrow> (str \<times> str \<times> u32) option" where
  "session_get_connected_to ec last_connection connected_to =
     (let legacy = (case connected_to of None \<Rightarrow> None | Some v \<Rightarrow> read_connected_to ec v)
      in case last_connection of
           None \<Rightarrow> legacy
         | Some v \<Rightarrow>
             (case as_sv (ep_conv ec) v of
                None \<Rightarrow> legacy
              | Some entries \<Rightarrow>
                  (let m = map_of entries;
                       host = endpoint_str ec (case m ''ip'' of Some x \<Rightarrow> Some x | None \<Rightarrow> m ''host'')
                   in if host \<noteq> []
                      then Some (endpoint_str ec (m ''protocol''), host, endpoint_u32 ec (m ''port''))
                      else legacy)))"

section \<open>Properties\<close>


lemma retry_loop_answer:
  "\<exists>k \<le> left. (\<forall>i < k. \<exists>e. script b (clock b + i) = Inl e \<and> is_pre_dispatch_transient e)
     \<and> (k < left \<longrightarrow> (\<forall>e. script b (clock b + k) = Inl e \<longrightarrow> \<not> is_pre_dispatch_transient e))
     \<and> fst (retry_loop left (bus_call c) b) =
         (case script b (clock b + k) of Inr v \<Rightarrow> Inr v | Inl e \<Rightarrow> Inl (Call_Error e))"
proof (induction left arbitrary: b)
  case 0
  show ?case by (auto simp: bus_call_def Let_def split: sum.splits)
next
  case (Suc left)
  show ?case
  proof (cases "\<exists>e. script b (clock b) = Inl e \<and> is_pre_dispatch_transient e")
    case False
    then show ?thesis
      by (intro exI [of _ 0]) (auto simp: bus_call_def Let_def split: sum.splits)
  next
    case True
    then obtain e where e: "script b (clock b) = Inl e" "is_pre_dispatch_transient e" by blast
    let ?b = "b\<lparr>clock := Suc (clock b)\<rparr>"
    from Suc.IH [of ?b] obtain k where k: "k \<le> left"
      "\<forall>i < k. \<exists>e. script b (Suc (clock b) + i) = Inl e \<and> is_pre_dispatch_transient e"
      "k < left \<longrightarrow> (\<forall>e. script b (Suc (clock b) + k) = Inl e \<longrightarrow> \<not> is_pre_dispatch_transient e)"
      "fst (retry_loop left (bus_call c) ?b) =
         (case script b (Suc (clock b) + k) of Inr v \<Rightarrow> Inr v | Inl e \<Rightarrow> Inl (Call_Error e))"
      by auto
    have "\<forall>i < Suc k. \<exists>e. script b (clock b + i) = Inl e \<and> is_pre_dispatch_transient e"
      using e k(2) by (auto simp: less_Suc_eq_0_disj)
    moreover have "bus_call c b = (Inl e, ?b)" using e by (simp add: bus_call_def)
    ultimately show ?thesis
      using e k by (intro exI [of _ "Suc k"]) simp
  qed
qed

text \<open>
  The retry gives the caller the first answer that is not a pre-dispatch error, or the
  third answer: \<open>import_config\<close> tries again exactly on the errors that cannot have taken
  effect, and at most twice.
\<close>

theorem import_config_answer:
  "\<exists>k \<le> 2. (\<forall>i < k. \<exists>e. script b (clock b + i) = Inl e \<and> is_pre_dispatch_transient e)
     \<and> (k < 2 \<longrightarrow> (\<forall>e. script b (clock b + k) = Inl e \<longrightarrow> \<not> is_pre_dispatch_transient e))
     \<and> fst (import_config name prof single_use b) =
         (case script b (clock b + k) of Inr v \<Rightarrow> Inr v | Inl e \<Rightarrow> Inl (Call_Error e))"
  using retry_loop_answer [of 2 b "Import name prof single_use"]
  by (simp add: import_config_def with_activation_retry_def eval_nat_numeral)

lemma import_config_answer_witness:
  "fst (import_config ''n'' ''p'' True \<lparr>script = (\<lambda>n. if n = 0 then Inl Service_Unknown else Inr ''/c/1''),
     clock = 0, delivered = []\<rparr>) = Inr ''/c/1''"
proof -
  let ?b = "\<lparr>script = (\<lambda>n. if n = 0 then Inl Service_Unknown else Inr ''/c/1''), clock = 0, delivered = []\<rparr> :: bus"
  from import_config_answer [of ?b "''n''" "''p''" True] obtain k where
    "k < 2 \<longrightarrow> (\<forall>e. script ?b (clock ?b + k) = Inl e \<longrightarrow> \<not> is_pre_dispatch_transient e)"
    "fst (import_config ''n'' ''p'' True ?b) =
       (case script ?b (clock ?b + k) of Inr v \<Rightarrow> Inr v | Inl e \<Rightarrow> Inl (Call_Error e))" by blast
  then show ?thesis by (cases "k = 0") (auto simp: is_pre_dispatch_transient_def)
qed


text \<open>The readiness poll.\<close>

lemma wait_ready_bound:
  assumes "wait_ready_loop ready latency deadline now i = (ok, n)" and "now \<le> deadline + 100"
  shows "i < n \<and> (n - Suc i) * 100 \<le> deadline + 100 - now \<and> (ok \<longleftrightarrow> ready (n - 1))
    \<and> (\<forall>j. i \<le> j \<and> j < n - 1 \<longrightarrow> \<not> ready j)"
  using assms
proof (induction ready latency deadline now i rule: wait_ready_loop.induct)
  case (1 ready latency deadline now i)
  show ?case
  proof (cases "ready i \<or> \<not> now + latency i < deadline")
    case True
    with 1(2) have "n = Suc i \<and> ok = ready i" by (auto simp: wait_ready_loop.simps [of ready] split: if_splits)
    with 1(3) show ?thesis by auto
  next
    case False
    with 1(2) have step: "wait_ready_loop ready latency deadline (now + latency i + 100) (Suc i) = (ok, n)"
      by (subst (asm) wait_ready_loop.simps) simp
    with 1(1) False have ih: "Suc i < n \<and> (n - Suc (Suc i)) * 100 \<le> deadline + 100 - (now + latency i + 100)
      \<and> ok = ready (n - 1) \<and> (\<forall>j. Suc i \<le> j \<and> j < n - 1 \<longrightarrow> \<not> ready j)" by auto
    have "n - Suc i = Suc (n - Suc (Suc i))" using ih by linarith
    moreover have "(n - Suc (Suc i)) * 100 \<le> deadline - now" using ih False by linarith
    moreover have "(n - Suc i) * 100 = 100 + (n - Suc (Suc i)) * 100" using calculation(1) by simp
    ultimately have "(n - Suc i) * 100 \<le> deadline + 100 - now" using False by linarith
    moreover have "\<not> ready j" if "i \<le> j" "j < n - 1" for j
      using that ih False by (cases "j = i") auto
    ultimately show ?thesis using ih by auto
  qed
qed

text \<open>
  C34: Waiting for a session always ends: with the 5 s budget of \<open>do_connect\<close> it makes at
  most 52 \<open>Ready\<close> calls, however slow they are, and succeeds exactly when the last one
  did, all earlier ones having failed.
\<close>

theorem wait_ready_terminates:
  "\<exists>ok n. session_wait_ready ready latency 5000 = (ok, n) \<and> 1 \<le> n \<and> n \<le> 52
     \<and> ok = ready (n - 1) \<and> (\<forall>j < n - 1. \<not> ready j)"
proof -
  obtain ok n where w: "session_wait_ready ready latency 5000 = (ok, n)"
    by (cases "session_wait_ready ready latency 5000")
  with wait_ready_bound [of ready latency 5000 0 0 ok n]
  have "0 < n \<and> (n - 1) * 100 \<le> 5100 \<and> ok = ready (n - 1) \<and> (\<forall>j < n - 1. \<not> ready j)"
    by (simp add: session_wait_ready_def)
  with w show ?thesis by (intro exI [of _ ok] exI [of _ n]) auto
qed

lemma wait_ready_terminates_witness:
  "fst (session_wait_ready (\<lambda>i. 3 \<le> i) (\<lambda>i. 1) 5000)
   \<longleftrightarrow> 3 \<le> snd (session_wait_ready (\<lambda>i. 3 \<le> i) (\<lambda>i. 1) 5000) - 1"
  using wait_ready_terminates [of "\<lambda>i. 3 \<le> i" "\<lambda>i. 1"] by auto

lemma fetch_ids_coords:
  "fetch_ids fetch t g is w = (out, w') \<Longrightarrow> slot \<in> set out \<Longrightarrow>
   slot_type slot = t \<and> slot_group slot = g \<and> slot_id slot \<in> set is"
  by (induction "is" arbitrary: w w' out) (fastforce split: prod.splits sum.splits)+

lemma fetch_pairs_coords:
  "fetch_pairs check fetch ps w = (out, w') \<Longrightarrow> slot \<in> set out \<Longrightarrow>
   (slot_type slot, slot_group slot) \<in> set ps"
proof (induction ps arbitrary: w w' out)
  case (Cons p ps)
  obtain t g where p: "p = (t, g)" by (cases p)
  obtain r w1 where c: "check t g w = (r, w1)" by (cases "check t g w")
  show ?case
  proof (cases r)
    case (Inl e)
    with Cons c p show ?thesis by auto
  next
    case (Inr ids)
    obtain o1 w2 where f: "fetch_ids (fetch t g) t g ids w1 = (o1, w2)"
      by (cases "fetch_ids (fetch t g) t g ids w1")
    obtain o2 w3 where r: "fetch_pairs check fetch ps w2 = (o2, w3)"
      by (cases "fetch_pairs check fetch ps w2")
    from Cons.prems c p Inr f r have "out = o1 @ o2" by simp
    with Cons.prems(2) fetch_ids_coords [OF f] Cons.IH [OF r] p show ?thesis by auto
  qed
qed simp

text \<open>
  The input queue is either enumerated or reported as an error, never mistaken for an
  empty one: the call fails exactly when the pair list cannot be read, and every slot it
  returns belongs to one of the listed pairs.
\<close>

theorem fetch_slots_sound:
  assumes "get_type_group w = (r, w1)"
  shows "(case r of
      Inl e \<Rightarrow> session_fetch_input_slots get_type_group check fetch w = (Inl e, w1)
    | Inr pairs \<Rightarrow> \<exists>out w2. session_fetch_input_slots get_type_group check fetch w = (Inr out, w2)
        \<and> (\<forall>slot \<in> set out. (slot_type slot, slot_group slot) \<in> set pairs))"
proof (cases r)
  case (Inr pairs)
  obtain out w2 where f: "fetch_pairs check fetch pairs w1 = (out, w2)"
    by (cases "fetch_pairs check fetch pairs w1")
  with assms Inr fetch_pairs_coords [OF f] show ?thesis
    by (auto simp: session_fetch_input_slots_def)
qed (use assms in \<open>simp add: session_fetch_input_slots_def\<close>)

lemma fetch_slots_sound_witness:
  "\<exists>out w2. session_fetch_input_slots (\<lambda>w. (Inr [(1, 2)], w)) (\<lambda>t g w. (Inr [7], w))
      (\<lambda>t g i w. (Inr (''username'', [], False), w)) () = (Inr out, w2)
    \<and> (\<forall>slot \<in> set out. (slot_type slot, slot_group slot) \<in> set [(1, 2)])"
  using fetch_slots_sound [of "\<lambda>w. (Inr [(1, 2)], w)" "()" "Inr [(1, 2)]" "()"
      "\<lambda>t g w. (Inr [7], w)" "\<lambda>t g i w. (Inr (''username'', [], False), w)"]
  by simp

text \<open>The legacy endpoint string.\<close>

lemma split_once_first: "d \<notin> set a \<Longrightarrow> split_once d (a @ d # b) = Some (a, b)"
  by (induction a) auto

lemma rsplit_once_last: "d \<notin> set b \<Longrightarrow> rsplit_once d (a @ d # b) = Some (a, b)"
  by (simp add: rsplit_once_def split_once_first)

lemma rsplit_once_none: "d \<notin> set a \<Longrightarrow> rsplit_once d a = None"
proof -
  have "split_once d r = None" if "d \<notin> set r" for r using that by (induction r) auto
  then show "d \<notin> set a \<Longrightarrow> rsplit_once d a = None" by (simp add: rsplit_once_def)
qed

text \<open>
  The three spellings of the legacy \<open>connected_to\<close> string are read alike: with or
  without a user, the host keeps its own colons (an IPv6 address) and the port is the
  number after the last one; without a port the whole rest is the host.
\<close>

theorem connected_to_spellings:
  assumes "0 \<le> port" and "port \<le> 65535" and "CHR ''@'' \<notin> set host"
  shows "parse_connected_to (host @ '':'' @ show_int port) = ([], host, of_int port)
    \<and> parse_connected_to (user @ ''@'' @ host @ '':'' @ show_int port) = ([], host, of_int port)
    \<and> (CHR '':'' \<notin> set host \<longrightarrow> parse_connected_to (user @ ''@'' @ host) = ([], host, 0))"
proof -
  have nd: "\<not> is_ascii_digit (CHR '':'')" "\<not> is_ascii_digit (CHR ''@'')" by code_simp+
  have d: "CHR '':'' \<notin> set (show_int port)" "CHR ''@'' \<notin> set (show_int port)"
    using show_int_digits(2) [OF assms(1)] nd by auto
  have p: "parse_u32 (show_int port) = Some (of_int port)"
    using parse_show [of port 4294967295] assms(1,2) by (simp add: parse_u32_def)
  have r: "rsplit_once (CHR ''@'') (host @ '':'' @ show_int port) = None"
    using assms(3) d(2) by (intro rsplit_once_none) auto
  have u: "rsplit_once (CHR ''@'') (user @ ''@'' @ x) = Some (user, x)" if "CHR ''@'' \<notin> set x" for x
    using rsplit_once_last [OF that, of user] by simp
  have c: "rsplit_once (CHR '':'') (host @ '':'' @ show_int port) = Some (host, show_int port)"
    using rsplit_once_last [OF d(1), of host] by simp
  have x: "CHR ''@'' \<notin> set (host @ '':'' @ show_int port)" using assms(3) d(2) by auto
  show ?thesis
    unfolding parse_connected_to_def Let_def r u [OF x] u [OF assms(3)]
    using c p by (auto simp: rsplit_once_none)
qed

lemma connected_to_spellings_witness:
  "parse_connected_to (''me'' @ ''@'' @ ''fe80::1'' @ '':'' @ show_int 1194) = ([], ''fe80::1'', of_int 1194)"
  using connected_to_spellings [of 1194 "''fe80::1''" "''me''"] by auto

end
