(* ===== verification/Status.thy ===== *)
theory Status
  imports Prelude
begin

text \<open>
  \<open>nm-openvpn3-service/src/state.rs\<close> and \<open>status.rs\<close>: the service states and
  failure reasons of the libnm wire contract, and the typed reading of openvpn3's
  \<open>StatusChange\<close> events with its projection to a NetworkManager state.
\<close>

section \<open>state.rs\<close>

datatype nm_state = Unknown | Init | Shutdown | Starting | Started | Stopping | Stopped

fun state_as_u32 :: "nm_state \<Rightarrow> u32" where
  "state_as_u32 Unknown = 0"
| "state_as_u32 Init = 1"
| "state_as_u32 Shutdown = 2"
| "state_as_u32 Starting = 3"
| "state_as_u32 Started = 4"
| "state_as_u32 Stopping = 5"
| "state_as_u32 Stopped = 6"

datatype nm_failure = Login_Failed | Connect_Failed | Bad_Ip_Config

fun failure_as_u32 :: "nm_failure \<Rightarrow> u32" where
  "failure_as_u32 Login_Failed = 0"
| "failure_as_u32 Connect_Failed = 1"
| "failure_as_u32 Bad_Ip_Config = 2"

section \<open>status.rs\<close>

datatype status_major = Maj_Connection | Maj_Session

definition major_from_u32 :: "u32 \<Rightarrow> status_major option" where
  "major_from_u32 v =
     (if v = 2 then Some Maj_Connection else if v = 3 then Some Maj_Session else None)"

datatype connection_minor =
    Connecting | Connected | Disconnecting | Disconnected | Failed | Conn_Auth_Failed
  | Reconnecting | Conn_Done

fun minor_as_u32 :: "connection_minor \<Rightarrow> u32" where
  "minor_as_u32 Connecting = 6"
| "minor_as_u32 Connected = 7"
| "minor_as_u32 Disconnecting = 8"
| "minor_as_u32 Disconnected = 9"
| "minor_as_u32 Failed = 10"
| "minor_as_u32 Conn_Auth_Failed = 11"
| "minor_as_u32 Reconnecting = 12"
| "minor_as_u32 Conn_Done = 16"

definition minor_from_u32 :: "u32 \<Rightarrow> connection_minor option" where
  "minor_from_u32 v =
     (if v = 6 then Some Connecting else if v = 7 then Some Connected
      else if v = 8 then Some Disconnecting else if v = 9 then Some Disconnected
      else if v = 10 then Some Failed else if v = 11 then Some Conn_Auth_Failed
      else if v = 12 then Some Reconnecting else if v = 16 then Some Conn_Done else None)"

datatype session_minor = Sess_Auth_Failed

definition session_minor_from_u32 :: "u32 \<Rightarrow> session_minor option" where
  "session_minor_from_u32 v = (if v = 11 then Some Sess_Auth_Failed else None)"

datatype status = Connection connection_minor | Session session_minor

definition from_wire :: "u32 \<Rightarrow> u32 \<Rightarrow> status option" where
  "from_wire major minor =
     (case major_from_u32 major of
        Some Maj_Connection \<Rightarrow>
          (case minor_from_u32 minor of Some m \<Rightarrow> Some (Connection m) | None \<Rightarrow> None)
      | Some Maj_Session \<Rightarrow>
          (case session_minor_from_u32 minor of Some m \<Rightarrow> Some (Session m) | None \<Rightarrow> None)
      | None \<Rightarrow> None)"

fun to_nm_state :: "status \<Rightarrow> nm_state option" where
  "to_nm_state (Connection Connecting) = Some Starting"
| "to_nm_state (Connection Reconnecting) = Some Starting"
| "to_nm_state (Connection Connected) = Some Started"
| "to_nm_state (Connection Disconnected) = Some Stopped"
| "to_nm_state (Connection Failed) = Some Stopped"
| "to_nm_state (Connection Conn_Auth_Failed) = Some Stopped"
| "to_nm_state (Connection Conn_Done) = Some Stopped"
| "to_nm_state (Session Sess_Auth_Failed) = Some Stopped"
| "to_nm_state (Connection Disconnecting) = None"

fun failure_reason :: "status \<Rightarrow> nm_failure" where
  "failure_reason (Connection Conn_Auth_Failed) = Login_Failed"
| "failure_reason (Session Sess_Auth_Failed) = Login_Failed"
| "failure_reason _ = Connect_Failed"

section \<open>Encoding and classification\<close>

fun status_wire :: "status \<Rightarrow> u32 \<times> u32" where
  "status_wire (Connection m) = (2, minor_as_u32 m)"
| "status_wire (Session Sess_Auth_Failed) = (3, 11)"

lemma from_wire_status: "(case status_wire s of (a, b) \<Rightarrow> from_wire a b) = Some s"
proof (cases s)
  case (Connection m)
  then show ?thesis by (cases m) (simp_all add: from_wire_def major_from_u32_def minor_from_u32_def)
next
  case (Session m)
  then show ?thesis by (cases m) (simp add: from_wire_def major_from_u32_def session_minor_from_u32_def)
qed

lemma from_wire_sound:
  assumes "from_wire a b = Some s"
  shows "status_wire s = (a, b)"
  using assms
  by (auto simp: from_wire_def major_from_u32_def minor_from_u32_def session_minor_from_u32_def
      split: option.splits if_splits status_major.splits)

text \<open>
  C22: The wire decoding accepts exactly the nine modelled events: \<open>from_wire\<close> returns a
  status for a pair of codes if and only if the pair is the encoding of that status.
\<close>

theorem from_wire_exact: "from_wire major minor = Some s \<longleftrightarrow> status_wire s = (major, minor)"
  using from_wire_status [of s] from_wire_sound by fastforce

text \<open>
  What a status event does to NetworkManager's view, on the wire codes: exactly
  CONN_CONNECTED starts the connection, exactly the five terminal events (disconnected,
  failed, authentication failed, done, session authentication failed) stop it, connecting
  and reconnecting keep it starting, only CONN_DISCONNECTING says nothing; and a login
  failure is reported on exactly the two authentication events.
\<close>

theorem status_projection:
  "(to_nm_state s = Some Started \<longleftrightarrow> status_wire s = (2, 7))
   \<and> (to_nm_state s = Some Stopped \<longleftrightarrow> status_wire s \<in> set [(2, 9), (2, 10), (2, 11), (2, 16), (3, 11)])
   \<and> (to_nm_state s = Some Starting \<longleftrightarrow> status_wire s \<in> set [(2, 6), (2, 12)])
   \<and> (to_nm_state s = None \<longleftrightarrow> status_wire s = (2, 8))
   \<and> (failure_reason s = Login_Failed \<longleftrightarrow> status_wire s \<in> set [(2, 11), (3, 11)])"
proof (cases s)
  case (Connection m)
  then show ?thesis by (cases m) simp_all
next
  case (Session m)
  then show ?thesis by (cases m) simp
qed

text \<open>The events the service may set its state to from a status change.\<close>

lemma to_nm_state_range: "to_nm_state s = Some st \<Longrightarrow> st \<in> {Starting, Started, Stopped}"
  by (cases s rule: to_nm_state.cases) auto

end
