(* ===== verification/Plugin.thy ===== *)
theory Plugin
  imports Build_Profile Settings Status
begin

text \<open>
  \<open>nm-openvpn3-service/src/plugin.rs\<close> and \<open>connect_coord.rs\<close>: the VPN plugin.  The
  method handlers and the background tasks run concurrently on one runtime, so each is
  a state machine: its program counter names the await point it is suspended at, with
  the locals that live across it, and one step runs the code from there to the next
  await point.  \<open>shared\<close> is what they share: the connect lock and teardown flag of the
  coordinator, the service state, the session record, the three per-session flags (an
  \<open>Arc\<close> is a number, the flags are maps from it) and the observable effects so far,
  newest first.  What a step learns from outside (D-Bus replies, signals, files) is
  its \<open>reply\<close>.  \<open>Plugin_Run\<close> composes the machines.
\<close>

section \<open>Helpers without state\<close>

definition MAX_PROFILE_BYTES :: nat where "MAX_PROFILE_BYTES = 1048576"

definition OVERRIDE_BOOLS :: "(str \<times> str) list" where
  "OVERRIDE_BOOLS =
     [(''override-route-nopull'', ''route-nopull''),
      (''override-force-default-gateway'', ''force-default-gateway''),
      (''override-block-ipv6'', ''block-ipv6''),
      (''override-dns-setup-disabled'', ''dns-setup-disabled''),
      (''override-dco'', ''dco'')]"

text \<open>A profile file as the reader sees it; each \<open>None\<close> / \<open>False\<close> is a failed call.\<close>

record profile_file =
  pf_opened :: bool
  pf_stat :: "(bool \<times> nat) option"
  pf_read :: "str option"

datatype profile_error = Open_Failed | Stat_Failed | Not_Regular | Too_Large nat | Read_Failed | Grew

text \<open>Bytes of a string in UTF-8 (characters up to U+00FF).\<close>

definition utf8_len :: "str \<Rightarrow> nat" where
  "utf8_len s = sum_list (map (\<lambda>c. if (of_char c :: nat) < 128 then 1 else 2) s)"

definition read_profile_file :: "profile_file \<Rightarrow> (profile_error, str) result" where
  "read_profile_file f =
     (if \<not> pf_opened f then Inl Open_Failed
      else case pf_stat f of
             None \<Rightarrow> Inl Stat_Failed
           | Some (is_file, len) \<Rightarrow>
               if \<not> is_file then Inl Not_Regular
               else if MAX_PROFILE_BYTES < len then Inl (Too_Large len)
               else case pf_read f of
                      None \<Rightarrow> Inl Read_Failed
                    | Some content \<Rightarrow>
                          if MAX_PROFILE_BYTES < utf8_len content then Inl Grew else Inr content)"

text \<open>\<open>apply_overrides\<close>: the \<open>SetOverride\<close> calls it makes, in order.\<close>

datatype override_value = OV_True | OV_Str str

definition override_calls :: "dict \<Rightarrow> (str \<times> override_value) list" where
  "override_calls data =
     map (\<lambda>(vpn_key, name). (name, OV_True))
       (filter (\<lambda>(vpn_key, name). data vpn_key = Some ''yes'') OVERRIDE_BOOLS)
     @ (case data ''override-log-level'' of
          None \<Rightarrow> []
        | Some level \<Rightarrow>
            if level \<noteq> [] \<and> level \<noteq> ''0'' then
              (case parse_u8 level of
                 Some n \<Rightarrow> if 1 \<le> n \<and> n \<le> 6 then [(''log-level'', OV_Str level)] else []
               | None \<Rightarrow> [])
            else [])"

definition lowest_run_user_uid :: "str list option \<Rightarrow> u32 option" where
  "lowest_run_user_uid names =
     (case names of
        None \<Rightarrow> None
      | Some ns \<Rightarrow>
          (case filter (\<lambda>uid. uid \<noteq> 0) (List.map_filter parse_u32 ns) of
             [] \<Rightarrow> None | u # us \<Rightarrow> Some (foldl min u us)))"

fun find_map :: "('a \<Rightarrow> 'b option) \<Rightarrow> 'a list \<Rightarrow> 'b option" where
  "find_map f [] = None"
| "find_map f (x # xs) = (case f x of Some y \<Rightarrow> Some y | None \<Rightarrow> find_map f xs)"

text \<open>What the plugin is started with and reads of its host: \<open>--persist\<close>, the variant
  conversions, the passwd database, the names in \<open>/run/user\<close>.\<close>

record 'v env =
  env_persist :: bool
  env_conv :: "'v conv"
  env_uid_of :: "str \<Rightarrow> u32 option"
  env_run_user :: "str list option"

definition grant_uid :: "'v env \<Rightarrow> 'v settings \<Rightarrow> u32 option" where
  "grant_uid env settings =
     (case find_map (env_uid_of env) (permission_users (env_conv env) settings) of
        Some u \<Rightarrow> Some u
      | None \<Rightarrow> lowest_run_user_uid (env_run_user env))"

definition config_name :: "dict \<Rightarrow> str option \<Rightarrow> str" where
  "config_name data conn_id =
     (case data ''connection-name'' of
        Some n \<Rightarrow> n | None \<Rightarrow> (case conn_id of Some n \<Rightarrow> n | None \<Rightarrow> ''nm-openvpn3-rust''))"

definition secrets_hints :: "str \<Rightarrow> input_slot list \<Rightarrow> str list" where
  "secrets_hints msg needed =
     (if msg \<noteq> [] then [''x-vpn-message:'' @ msg] else []) @ map slot_to_vpn_key needed"

definition secrets_prompt :: "str \<Rightarrow> str" where
  "secrets_prompt msg = (if msg = [] then ''OpenVPN 3 needs authentication'' else msg)"

text \<open>The counter difference of \<open>byte_rate\<close> (\<open>i64\<close>, saturating, clamped at 0).\<close>

definition byte_delta :: "64 word \<Rightarrow> 64 word \<Rightarrow> int" where
  "byte_delta prev cur =
     max 0 (min 9223372036854775807 (max (- 9223372036854775808) (sint cur - sint prev)))"

section \<open>Shared state\<close>

record sess =
  config_path :: "str option"
  session_path :: "str option"
  tasks :: "nat list"
  pending_slots :: "input_slot list"
  current_data :: dict
  current_secrets :: dict
  flags :: nat

datatype event =
    Ev_Import str str str | Ev_Override str str override_value | Ev_Tunnel str | Ev_Connect str
  | Ev_Disconnect str | Ev_Remove str | Ev_Grant str u32 | Ev_Provide str input_slot str
  | Ev_State nm_state | Ev_Failure "nat option" nm_failure | Ev_Config nat | Ev_Secrets str "str list"

record shared =
  holder :: "nat option"
  teardown :: bool
  svc :: nm_state
  sess :: sess
  ip4_emitted :: "nat \<Rightarrow> bool"
  disconnect_requested :: "nat \<Rightarrow> bool"
  failure_emitted :: "nat \<Rightarrow> bool"
  next_flags :: nat
  next_tid :: nat
  quit :: nat
  trace :: "event list"

definition sess_default :: "nat \<Rightarrow> sess" where
  "sess_default g =
     \<lparr>config_path = None, session_path = None, tasks = [], pending_slots = [],
      current_data = Map.empty, current_secrets = Map.empty, flags = g\<rparr>"

definition plugin_new :: shared where
  "plugin_new =
     \<lparr>holder = None, teardown = False, svc = Init, sess = sess_default 0,
      ip4_emitted = (\<lambda>_. False), disconnect_requested = (\<lambda>_. False),
      failure_emitted = (\<lambda>_. False), next_flags = 1, next_tid = 0, quit = 0, trace = []\<rparr>"

definition ev :: "event \<Rightarrow> shared \<Rightarrow> shared" where
  "ev e s = s\<lparr>trace := e # trace s\<rparr>"

text \<open>Three new \<open>Arc\<close>s, all false.\<close>

definition new_flags :: "shared \<Rightarrow> nat \<times> shared" where
  "new_flags s =
     (let g = next_flags s
      in (g, s\<lparr>next_flags := Suc g, ip4_emitted := (ip4_emitted s)(g := False),
               disconnect_requested := (disconnect_requested s)(g := False),
               failure_emitted := (failure_emitted s)(g := False)\<rparr>))"

section \<open>connect_coord.rs\<close>

definition lock_connect :: "nat \<Rightarrow> shared \<Rightarrow> shared option" where
  "lock_connect t s = (if holder s = None then Some (s\<lparr>holder := Some t\<rparr>) else None)"

definition unlock :: "shared \<Rightarrow> shared" where
  "unlock s = s\<lparr>holder := None\<rparr>"

definition clear_teardown :: "shared \<Rightarrow> shared" where
  "clear_teardown s = s\<lparr>teardown := False\<rparr>"

definition teardown_requested :: "shared \<Rightarrow> bool" where
  "teardown_requested s = teardown s"

text \<open>\<open>lock_disconnect\<close> is two steps: the store, then the wait for the lock.\<close>

definition request_teardown :: "shared \<Rightarrow> shared" where
  "request_teardown s = s\<lparr>teardown := True\<rparr>"

section \<open>set_state_via and emit_failure_once\<close>

text \<open>The locked half of \<open>set_state_via\<close>: the new state, and whether it changed.\<close>

definition set_state_locked :: "nm_state \<Rightarrow> shared \<Rightarrow> bool \<times> shared" where
  "set_state_locked new s = (if svc s = new then (False, s) else (True, s\<lparr>svc := new\<rparr>))"

text \<open>The compare-and-swap of \<open>emit_failure_once\<close>.\<close>

definition failure_cas :: "nat \<Rightarrow> shared \<Rightarrow> bool \<times> shared" where
  "failure_cas g s =
     (if failure_emitted s g then (False, s)
      else (True, s\<lparr>failure_emitted := (failure_emitted s)(g := True)\<rparr>))"

definition ip4_cas :: "nat \<Rightarrow> shared \<Rightarrow> bool \<times> shared" where
  "ip4_cas g s =
     (if ip4_emitted s g then (False, s)
      else (True, s\<lparr>ip4_emitted := (ip4_emitted s)(g := True)\<rparr>))"

definition ip4_rollback :: "nat \<Rightarrow> shared \<Rightarrow> shared" where
  "ip4_rollback g s = s\<lparr>ip4_emitted := (ip4_emitted s)(g := False)\<rparr>"


section \<open>Program counters\<close>

text \<open>What a step learns from outside; each step reads the fields of its own call.\<close>

record reply =
  rp_ok :: bool
  rp_path :: "str option"
  rp_file :: profile_file
  rp_pair :: "(u32 \<times> u32) option"
  rp_device :: "str option"
  rp_slots :: "input_slot list option"
  rp_message :: "str option"

text \<open>The locals of \<open>do_connect\<close> that live across its await points.\<close>

record locals =
  l_data :: dict
  l_map :: dict
  l_secrets :: dict
  l_uid :: "u32 option"
  l_flags :: nat
  l_id :: "str option"

text \<open>\<open>connect\<close>, with \<open>do_connect\<close> and \<open>cleanup_session\<close> inlined.\<close>

datatype 'v cpc =
    C_Lock "'v settings"                            \<comment> \<open>waits for the connect lock\<close>
  | C_Gate "'v settings"                            \<comment> \<open>refuse a second session; parse the settings\<close>
  | C_Read locals str                               \<comment> \<open>reads the profile file\<close>
  | C_Starting locals str
  | C_Emit_Starting locals str
  | C_Check0 locals str                             \<comment> \<open>teardown check before the import\<close>
  | C_Import locals str
  | C_Override locals str "(str \<times> override_value) list"
  | C_Tunnel locals str
  | C_Drop_Config str
  | C_Stash locals str str
  | C_Check1 locals str
  | C_Ready locals str
  | C_Listen locals str
  | C_Grant locals str
  | C_Check2 locals str                             \<comment> \<open>last check before \<open>session.Connect\<close>\<close>
  | C_Connect locals str
  | C_Arm locals str
  | K_Take str                                      \<comment> \<open>\<open>cleanup_session\<close>\<close>
  | K_Disc1 str "str option"
  | K_Disc2 str "str option"
  | K_Remove str
  | C_Error                                         \<comment> \<open>the error arm of \<open>connect\<close>\<close>
  | C_Stopped
  | C_Emit_Stopped
  | C_Failure
  | C_Returned bool

datatype dpc =
    D_Flag | D_Lock | D_Take | D_Disc1 str "str option" | D_Disc2 str "str option"
  | D_Remove str | D_Stopped | D_Emit | D_Quit | D_Returned

text \<open>What the status watchers do after a state change was published.\<close>

datatype 'l after = A_Continue 'l | A_Fail nm_failure | A_Unless_Requested nm_failure

datatype 'l watch =
    W_Attach
  | W_Wait 'l                                       \<comment> \<open>next signal, or next tick\<close>
  | W_Status 'l                                     \<comment> \<open>poller only: reads \<open>status\<close>\<close>
  | W_Device 'l "status option"                     \<comment> \<open>poller only: reads \<open>device_name\<close>\<close>
  | W_Ip4 'l
  | W_Set nm_state "'l after"
  | W_Emit nm_state "'l after"
  | W_Check nm_failure                              \<comment> \<open>suppressed during a requested teardown?\<close>
  | W_Cas nm_failure
  | W_Failure nm_failure
  | W_End

record poll =
  p_ip4 :: bool
  p_ticks :: nat
  p_errs :: nat

datatype spc = S_Sleep | S_Fetch | S_End

datatype apc =
    A_Attach | A_Wait | A_Fetch str | A_Snap str "input_slot list"
  | A_Provide str "input_slot list" "input_slot list" dict dict
  | A_Stash str "input_slot list" | A_Secrets str "input_slot list"
  | A_Error | A_Cas | A_Failure | A_End

datatype 'v npc =
    N_Take "'v settings" | N_Loop str "input_slot list" dict dict nat
  | N_Failed str "input_slot list" dict dict nat | N_Returned bool

datatype 'v task =
    T_Connect "'v cpc"
  | T_Disconnect dpc
  | T_New_Secrets "'v npc"
  | T_Listener nat str "unit watch"
  | T_Poller nat str "poll watch"
  | T_Stats nat spc
  | T_Attention nat str apc

section \<open>connect and do_connect\<close>

definition connect_gate :: "'v env \<Rightarrow> 'v settings \<Rightarrow> shared \<Rightarrow> 'v cpc \<times> shared" where
  "connect_gate env settings s =
     (if session_path (sess s) \<noteq> None then (C_Error, s)
      else let s = clear_teardown s;
               (g, s) = new_flags s
           in case vpn_data (env_conv env) settings of
                Inl e \<Rightarrow> (C_Error, s)
              | Inr data \<Rightarrow>
                  (let (data_map, secret_map) = split_vpn (env_conv env) settings;
                       l = \<lparr>l_data = data, l_map = data_map, l_secrets = secret_map,
                            l_uid = grant_uid env settings, l_flags = g,
                            l_id = connection_id (env_conv env) settings\<rparr>
                   in case data ''nm-openvpn3-profile'' of
                        Some path \<Rightarrow> (C_Read l path, s)
                      | None \<Rightarrow>
                          (case build_profile_string data_map secret_map of
                             Inl e \<Rightarrow> (C_Error, s)
                           | Inr prof \<Rightarrow> (C_Starting l prof, s))))"

definition stash_session :: "locals \<Rightarrow> str \<Rightarrow> str \<Rightarrow> shared \<Rightarrow> shared" where
  "stash_session l cfg sp s =
     s\<lparr>sess := (sess s)\<lparr>config_path := Some cfg, session_path := Some sp, current_data := l_map l,
                        current_secrets := l_secrets l, flags := l_flags l\<rparr>\<rparr>"

text \<open>The locked part of \<open>cleanup_session\<close>: the tasks to abort and the config to remove.\<close>

definition cleanup_locked :: "shared \<Rightarrow> nat list \<times> str option \<times> shared" where
  "cleanup_locked s =
     (let ss = sess s
      in (tasks ss, config_path ss,
          s\<lparr>disconnect_requested := (disconnect_requested s)(flags ss := True),
            sess := ss\<lparr>tasks := [], config_path := None, session_path := None,
                       current_data := Map.empty, current_secrets := Map.empty\<rparr>\<rparr>))"

definition after_cleanup_disconnect :: "str option \<Rightarrow> 'v cpc" where
  "after_cleanup_disconnect cfg = (case cfg of Some c \<Rightarrow> K_Remove c | None \<Rightarrow> C_Error)"

text \<open>The result of a step: the next counter, the state, tasks spawned, tasks aborted.\<close>

type_synonym 'v outcome = "'v task \<times> shared \<times> (nat \<times> 'v task) list \<times> nat list"

definition spawn_pair :: "(nat \<Rightarrow> (nat \<times> 'v task) list) \<Rightarrow> shared \<Rightarrow> (nat \<times> 'v task) list \<times> shared" where
  "spawn_pair mk s =
     (let n = next_tid s
      in (mk n, s\<lparr>next_tid := n + 2, sess := (sess s)\<lparr>tasks := tasks (sess s) @ [n, n + 1]\<rparr>\<rparr>))"

definition stay :: "'v cpc \<Rightarrow> shared \<Rightarrow> 'v outcome option" where
  "stay pc s = Some (T_Connect pc, s, [], [])"

fun connect_step :: "'v env \<Rightarrow> nat \<Rightarrow> reply \<Rightarrow> 'v cpc \<Rightarrow> shared \<Rightarrow> 'v outcome option" where
  "connect_step env t r (C_Lock settings) s =
     (case lock_connect t s of None \<Rightarrow> None | Some s \<Rightarrow> stay (C_Gate settings) s)"
| "connect_step env t r (C_Gate settings) s =
     (let (pc, s) = connect_gate env settings s in stay pc s)"
| "connect_step env t r (C_Read l path) s =
     (case read_profile_file (rp_file r) of
        Inl e \<Rightarrow> stay C_Error s | Inr prof \<Rightarrow> stay (C_Starting l prof) s)"
| "connect_step env t r (C_Starting l prof) s =
     (let (changed, s) = set_state_locked Starting s
      in stay (if changed then C_Emit_Starting l prof else C_Check0 l prof) s)"
| "connect_step env t r (C_Emit_Starting l prof) s =
     stay (C_Check0 l prof) (ev (Ev_State Starting) s)"
| "connect_step env t r (C_Check0 l prof) s =
     stay (if teardown_requested s then C_Error else C_Import l prof) s"
| "connect_step env t r (C_Import l prof) s =
     (case rp_path r of
        None \<Rightarrow> stay C_Error s
      | Some cfg \<Rightarrow>
          stay (C_Override l cfg (override_calls (l_data l)))
            (ev (Ev_Import (config_name (l_data l) (l_id l)) prof cfg) s))"
| "connect_step env t r (C_Override l cfg []) s = stay (C_Tunnel l cfg) s"
| "connect_step env t r (C_Override l cfg ((name, v) # os)) s =
     stay (C_Override l cfg os) (ev (Ev_Override cfg name v) s)"
| "connect_step env t r (C_Tunnel l cfg) s =
     (case rp_path r of
        None \<Rightarrow> stay (C_Drop_Config cfg) s
      | Some sp \<Rightarrow> stay (C_Stash l cfg sp) (ev (Ev_Tunnel sp) s))"
| "connect_step env t r (C_Drop_Config cfg) s = stay C_Error (ev (Ev_Remove cfg) s)"
| "connect_step env t r (C_Stash l cfg sp) s = stay (C_Check1 l sp) (stash_session l cfg sp s)"
| "connect_step env t r (C_Check1 l sp) s =
     stay (if teardown_requested s then K_Take sp else C_Ready l sp) s"
| "connect_step env t r (C_Ready l sp) s = stay (if rp_ok r then C_Listen l sp else K_Take sp) s"
| "connect_step env t r (C_Listen l sp) s =
     (let (new, s) = spawn_pair (\<lambda>n. [(n, T_Listener (l_flags l) sp W_Attach),
                                      (n + 1, T_Attention (l_flags l) sp A_Attach)]) s
      in Some (T_Connect (C_Grant l sp), s, new, []))"
| "connect_step env t r (C_Grant l sp) s =
     stay (C_Check2 l sp) (case l_uid l of Some u \<Rightarrow> ev (Ev_Grant sp u) s | None \<Rightarrow> s)"
| "connect_step env t r (C_Check2 l sp) s =
     stay (if teardown_requested s then K_Take sp else C_Connect l sp) s"
| "connect_step env t r (C_Connect l sp) s =
     stay (if rp_ok r then C_Arm l sp else K_Take sp) (ev (Ev_Connect sp) s)"
| "connect_step env t r (C_Arm l sp) s =
     (let (new, s) = spawn_pair (\<lambda>n. [(n, T_Poller (l_flags l) sp W_Attach),
                                      (n + 1, T_Stats (l_flags l) S_Sleep)]) s
      in Some (T_Connect (C_Returned True), unlock s, new, []))"
| "connect_step env t r (K_Take sp) s =
     (let (ts, cfg, s) = cleanup_locked s in Some (T_Connect (K_Disc1 sp cfg), s, [], ts))"
| "connect_step env t r (K_Disc1 sp cfg) s =
     stay (if rp_ok r then after_cleanup_disconnect cfg else K_Disc2 sp cfg) (ev (Ev_Disconnect sp) s)"
| "connect_step env t r (K_Disc2 sp cfg) s =
     stay (after_cleanup_disconnect cfg) (ev (Ev_Disconnect sp) s)"
| "connect_step env t r (K_Remove cfg) s = stay C_Error (ev (Ev_Remove cfg) s)"
| "connect_step env t r C_Error s =
     (if teardown_requested s then stay (C_Returned False) (unlock s) else stay C_Stopped s)"
| "connect_step env t r C_Stopped s =
     (let (changed, s) = set_state_locked Stopped s
      in stay (if changed then C_Emit_Stopped else C_Failure) s)"
| "connect_step env t r C_Emit_Stopped s = stay C_Failure (ev (Ev_State Stopped) s)"
| "connect_step env t r C_Failure s =
     stay (C_Returned False) (unlock (ev (Ev_Failure None Connect_Failed) s))"
| "connect_step env t r (C_Returned b) s = None"

section \<open>disconnect\<close>

text \<open>The locked part: \<open>mem::take\<close> of the session, leaving a default one.\<close>

definition take_session :: "shared \<Rightarrow> sess \<times> shared" where
  "take_session s =
     (let old = sess s;
          s = s\<lparr>disconnect_requested := (disconnect_requested s)(flags old := True)\<rparr>;
          (g, s) = new_flags s
      in (old, s\<lparr>sess := sess_default g\<rparr>))"

definition after_disconnect_calls :: "str option \<Rightarrow> dpc" where
  "after_disconnect_calls cfg = (case cfg of Some c \<Rightarrow> D_Remove c | None \<Rightarrow> D_Stopped)"

definition dstay :: "dpc \<Rightarrow> shared \<Rightarrow> 'v outcome option" where
  "dstay pc s = Some (T_Disconnect pc, s, [], [])"

fun disconnect_step :: "'v env \<Rightarrow> nat \<Rightarrow> reply \<Rightarrow> dpc \<Rightarrow> shared \<Rightarrow> 'v outcome option" where
  "disconnect_step env t r D_Flag s = dstay D_Lock (request_teardown s)"
| "disconnect_step env t r D_Lock s =
     (case lock_connect t s of None \<Rightarrow> None | Some s \<Rightarrow> dstay D_Take s)"
| "disconnect_step env t r D_Take s =
     (let (old, s) = take_session s
      in Some (T_Disconnect
                 (case session_path old of
                    Some sp \<Rightarrow> D_Disc1 sp (config_path old)
                  | None \<Rightarrow> after_disconnect_calls (config_path old)),
               s, [], tasks old))"
| "disconnect_step env t r (D_Disc1 sp cfg) s =
     dstay (if rp_ok r then after_disconnect_calls cfg else D_Disc2 sp cfg) (ev (Ev_Disconnect sp) s)"
| "disconnect_step env t r (D_Disc2 sp cfg) s =
     dstay (after_disconnect_calls cfg) (ev (Ev_Disconnect sp) s)"
| "disconnect_step env t r (D_Remove cfg) s = dstay D_Stopped (ev (Ev_Remove cfg) s)"
| "disconnect_step env t r D_Stopped s =
     (let (changed, s) = set_state_locked Stopped s in dstay (if changed then D_Emit else D_Quit) s)"
| "disconnect_step env t r D_Emit s = dstay D_Quit (ev (Ev_State Stopped) s)"
| "disconnect_step env t r D_Quit s =
     dstay D_Returned (unlock (if env_persist env then s else s\<lparr>quit := Suc (quit s)\<rparr>))"
| "disconnect_step env t r D_Returned s = None"


section \<open>The status listener and the status poller\<close>

definition after_state :: "'l after \<Rightarrow> 'l watch" where
  "after_state k =
     (case k of
        A_Continue l \<Rightarrow> W_Wait l
      | A_Fail reason \<Rightarrow> W_Cas reason
      | A_Unless_Requested reason \<Rightarrow> W_Check reason)"

text \<open>The steps the two watchers share: \<open>set_state_via\<close>, the teardown check and
  \<open>emit_failure_once\<close>.\<close>

fun watch_report :: "nat \<Rightarrow> 'l watch \<Rightarrow> shared \<Rightarrow> 'l watch \<times> shared" where
  "watch_report g (W_Set st k) s =
     (let (changed, s) = set_state_locked st s in (if changed then W_Emit st k else after_state k, s))"
| "watch_report g (W_Emit st k) s = (after_state k, ev (Ev_State st) s)"
| "watch_report g (W_Check reason) s = (if disconnect_requested s g then W_End else W_Cas reason, s)"
| "watch_report g (W_Cas reason) s =
     (let (won, s) = failure_cas g s in (if won then W_Failure reason else W_End, s))"
| "watch_report g (W_Failure reason) s = (W_End, ev (Ev_Failure (Some g) reason) s)"
| "watch_report g pc s = (pc, s)"

text \<open>\<open>Ip4Config\<close> emission by the winner of the race, with the roll-back on failure.\<close>

definition watch_ip4 :: "nat \<Rightarrow> reply \<Rightarrow> 'l \<Rightarrow> shared \<Rightarrow> 'l watch \<times> shared" where
  "watch_ip4 g r l s =
     (if rp_ok r then (W_Set Started (A_Continue l), ev (Ev_Config g) s)
      else (W_Set Stopped (A_Fail Bad_Ip_Config), ip4_rollback g s))"

definition listener_signal :: "nat \<Rightarrow> u32 \<times> u32 \<Rightarrow> shared \<Rightarrow> unit watch \<times> shared" where
  "listener_signal g sig s =
     (case from_wire (fst sig) (snd sig) of
        None \<Rightarrow> (W_Wait (), s)
      | Some status \<Rightarrow>
          (case to_nm_state status of
             None \<Rightarrow> (W_Wait (), s)
           | Some target \<Rightarrow>
               if target = Started then
                 (let (won, s) = ip4_cas g s
                  in if won then (W_Ip4 (), s) else (W_Set Started (A_Continue ()), s))
               else if target = Stopped then
                 (W_Set Stopped (A_Unless_Requested (failure_reason status)), s)
               else (W_Set target (A_Continue ()), s)))"

fun listener_step :: "nat \<Rightarrow> reply \<Rightarrow> unit watch \<Rightarrow> shared \<Rightarrow> (unit watch \<times> shared) option" where
  "listener_step g r W_Attach s = Some (if rp_ok r then W_Wait () else W_End, s)"
| "listener_step g r (W_Wait u) s =
     Some (case rp_pair r of None \<Rightarrow> (W_End, s) | Some sig \<Rightarrow> listener_signal g sig s)"
| "listener_step g r (W_Ip4 u) s = Some (watch_ip4 g r () s)"
| "listener_step g r W_End s = None"
| "listener_step g r (W_Status u) s = None"
| "listener_step g r (W_Device u st) s = None"
| "listener_step g r pc s = Some (watch_report g pc s)"

definition poll_start :: poll where
  "poll_start = \<lparr>p_ip4 = False, p_ticks = 0, p_errs = 0\<rparr>"

definition past_started :: "poll \<Rightarrow> poll" where
  "past_started l = l\<lparr>p_ip4 := True, p_ticks := 0\<rparr>"

definition poller_tick :: "poll \<Rightarrow> poll watch" where
  "poller_tick l =
     (let l = l\<lparr>p_ticks := Suc (p_ticks l)\<rparr>
      in if \<not> p_ip4 l \<and> 100 \<le> p_ticks l then W_Set Stopped (A_Fail Connect_Failed) else W_Status l)"

text \<open>The \<open>match target\<close> of the poller.\<close>

definition poller_target ::
  "nat \<Rightarrow> poll \<Rightarrow> status option \<Rightarrow> nm_state option \<Rightarrow> shared \<Rightarrow> poll watch \<times> shared" where
  "poller_target g l status target s =
     (case target of
        None \<Rightarrow> (W_Wait l, s)
      | Some st \<Rightarrow>
          if st = Started \<and> \<not> p_ip4 l then
            (let (won, s) = ip4_cas g s
             in if won then (W_Ip4 (past_started l), s) else (W_Wait (past_started l), s))
          else if st = Stopped then
            (W_Set Stopped (A_Unless_Requested
               (case status of Some x \<Rightarrow> failure_reason x | None \<Rightarrow> Connect_Failed)), s)
          else if \<not> p_ip4 l then (W_Set st (A_Continue l), s)
          else (W_Wait l, s))"

definition status_target :: "status option \<Rightarrow> nm_state option" where
  "status_target status = (case status of Some x \<Rightarrow> to_nm_state x | None \<Rightarrow> None)"

text \<open>The error arms of the poller's status read.\<close>

definition poller_error :: "poll \<Rightarrow> poll watch" where
  "poller_error l =
     (if p_ip4 l then
        (let l = l\<lparr>p_errs := Suc (p_errs l)\<rparr>
         in if p_errs l < 6 then W_Wait l else W_Set Stopped (A_Fail Connect_Failed))
      else W_Wait l)"

definition poller_status :: "nat \<Rightarrow> poll \<Rightarrow> (u32 \<times> u32) option \<Rightarrow> shared \<Rightarrow> poll watch \<times> shared" where
  "poller_status g l answer s =
     (case answer of
        Some (major, minor) \<Rightarrow>
          (let l = l\<lparr>p_errs := 0\<rparr>;
               status = from_wire major minor;
               target = status_target status
           in if \<not> p_ip4 l \<and> target \<noteq> Some Stopped then (W_Device l status, s)
              else poller_target g l status target s)
      | None \<Rightarrow> (poller_error l, s))"

definition poller_device :: "nat \<Rightarrow> poll \<Rightarrow> status option \<Rightarrow> str option \<Rightarrow> shared \<Rightarrow> poll watch \<times> shared" where
  "poller_device g l status dev s =
     (let target = (case dev of
                      Some d \<Rightarrow> if starts_with d ''tun'' then Some Started else status_target status
                    | None \<Rightarrow> status_target status)
      in poller_target g l status target s)"

fun poller_step :: "nat \<Rightarrow> reply \<Rightarrow> poll watch \<Rightarrow> shared \<Rightarrow> (poll watch \<times> shared) option" where
  "poller_step g r W_Attach s = Some (if rp_ok r then W_Wait poll_start else W_End, s)"
| "poller_step g r (W_Wait l) s = Some (poller_tick l, s)"
| "poller_step g r (W_Status l) s = Some (poller_status g l (rp_pair r) s)"
| "poller_step g r (W_Device l status) s = Some (poller_device g l status (rp_device r) s)"
| "poller_step g r (W_Ip4 l) s = Some (watch_ip4 g r l s)"
| "poller_step g r W_End s = None"
| "poller_step g r pc s = Some (watch_report g pc s)"

section \<open>The stats timer\<close>

fun stats_step :: "nat \<Rightarrow> spc \<Rightarrow> shared \<Rightarrow> (spc \<times> shared) option" where
  "stats_step g S_Sleep s = Some (if failure_emitted s g then S_End else S_Fetch, s)"
| "stats_step g S_Fetch s = Some (S_Sleep, s)"
| "stats_step g S_End s = None"

section \<open>The attention listener (handle_attention inlined)\<close>

definition attention_value :: "input_slot \<Rightarrow> dict \<Rightarrow> dict \<Rightarrow> str option" where
  "attention_value slot data secrets = nonempty (lookup_value (slot_to_vpn_key slot) data secrets)"

definition attention_done :: "str \<Rightarrow> input_slot list \<Rightarrow> apc" where
  "attention_done msg needed = (if needed = [] then A_Wait else A_Stash msg needed)"

fun attention_step :: "nat \<Rightarrow> str \<Rightarrow> reply \<Rightarrow> apc \<Rightarrow> shared \<Rightarrow> (apc \<times> shared) option" where
  "attention_step g sp r A_Attach s = Some (if rp_ok r then A_Wait else A_End, s)"
| "attention_step g sp r A_Wait s =
     Some (case rp_message r of None \<Rightarrow> A_End | Some msg \<Rightarrow> A_Fetch msg, s)"
| "attention_step g sp r (A_Fetch msg) s =
     Some (case rp_slots r of
             None \<Rightarrow> A_Error | Some slots \<Rightarrow> if slots = [] then A_Wait else A_Snap msg slots, s)"
| "attention_step g sp r (A_Snap msg slots) s =
     Some (if session_path (sess s) \<noteq> Some sp then A_Wait
           else A_Provide msg slots [] (current_data (sess s)) (current_secrets (sess s)), s)"
| "attention_step g sp r (A_Provide msg [] needed data secrets) s = Some (attention_done msg needed, s)"
| "attention_step g sp r (A_Provide msg (slot # slots) needed data secrets) s =
     (case attention_value slot data secrets of
        Some v \<Rightarrow>
          Some (if rp_ok r then A_Provide msg slots needed data secrets else A_Error,
                ev (Ev_Provide sp slot v) s)
      | None \<Rightarrow> Some (A_Provide msg slots (needed @ [slot]) data secrets, s))"
| "attention_step g sp r (A_Stash msg needed) s =
     Some (A_Secrets msg needed, s\<lparr>sess := (sess s)\<lparr>pending_slots := needed\<rparr>\<rparr>)"
| "attention_step g sp r (A_Secrets msg needed) s =
     Some (if rp_ok r then A_Wait else A_Error,
           ev (Ev_Secrets (secrets_prompt msg) (secrets_hints msg needed)) s)"
| "attention_step g sp r A_Error s = Some (if disconnect_requested s g then A_End else A_Cas, s)"
| "attention_step g sp r A_Cas s =
     (let (won, s) = failure_cas g s in Some (if won then A_Failure else A_End, s))"
| "attention_step g sp r A_Failure s = Some (A_End, ev (Ev_Failure (Some g) Login_Failed) s)"
| "attention_step g sp r A_End s = None"

section \<open>new_secrets\<close>

text \<open>The locked part: refresh the snapshot while a session is live, take the pending slots.\<close>

definition take_pending :: "dict \<Rightarrow> dict \<Rightarrow> shared \<Rightarrow> str option \<times> input_slot list \<times> shared" where
  "take_pending data secrets s =
     (let ss = sess s;
          ss' = (if session_path ss \<noteq> None
                 then ss\<lparr>current_data := data, current_secrets := secrets\<rparr> else ss)
      in (session_path ss, pending_slots ss, s\<lparr>sess := ss'\<lparr>pending_slots := []\<rparr>\<rparr>))"

fun new_secrets_step :: "'v env \<Rightarrow> reply \<Rightarrow> 'v npc \<Rightarrow> shared \<Rightarrow> ('v npc \<times> shared) option" where
  "new_secrets_step env r (N_Take settings) s =
     (let (data, secrets) = split_vpn (env_conv env) settings;
          (path, pending, s) = take_pending data secrets s
      in Some (if pending = [] then N_Returned True
               else case path of
                      None \<Rightarrow> N_Returned True | Some sp \<Rightarrow> N_Loop sp pending data secrets 0, s))"
| "new_secrets_step env r (N_Loop sp [] data secrets missing) s = Some (N_Returned (missing = 0), s)"
| "new_secrets_step env r (N_Loop sp (slot # slots) data secrets missing) s =
     (if teardown_requested s then Some (N_Returned True, s)
      else case attention_value slot data secrets of
             Some v \<Rightarrow>
               Some (if rp_ok r then N_Loop sp slots data secrets missing
                     else N_Failed sp slots data secrets missing, ev (Ev_Provide sp slot v) s)
           | None \<Rightarrow> Some (N_Loop sp slots data secrets (Suc missing), s))"
| "new_secrets_step env r (N_Failed sp slots data secrets missing) s =
     Some (if teardown_requested s then N_Returned True
           else N_Loop sp slots data secrets (Suc missing), s)"
| "new_secrets_step env r (N_Returned b) s = None"

section \<open>need_secrets and one step of any task\<close>

definition need_secrets :: "'v settings \<Rightarrow> str" where
  "need_secrets settings = []"

fun task_step :: "'v env \<Rightarrow> nat \<Rightarrow> reply \<Rightarrow> 'v task \<Rightarrow> shared \<Rightarrow> 'v outcome option" where
  "task_step env t r (T_Connect pc) s = connect_step env t r pc s"
| "task_step env t r (T_Disconnect pc) s = disconnect_step env t r pc s"
| "task_step env t r (T_New_Secrets pc) s =
     map_option (\<lambda>(pc, s). (T_New_Secrets pc, s, [], [])) (new_secrets_step env r pc s)"
| "task_step env t r (T_Listener g sp pc) s =
     map_option (\<lambda>(pc, s). (T_Listener g sp pc, s, [], [])) (listener_step g r pc s)"
| "task_step env t r (T_Poller g sp pc) s =
     map_option (\<lambda>(pc, s). (T_Poller g sp pc, s, [], [])) (poller_step g r pc s)"
| "task_step env t r (T_Stats g pc) s =
     map_option (\<lambda>(pc, s). (T_Stats g pc, s, [], [])) (stats_step g pc s)"
| "task_step env t r (T_Attention g sp pc) s =
     map_option (\<lambda>(pc, s). (T_Attention g sp pc, s, [], [])) (attention_step g sp r pc s)"

end
