(* ===== verification/Auth_Dialog.thy ===== *)
theory Auth_Dialog
  imports Plugin
begin

text \<open>
  \<open>nm-openvpn3-auth-dialog/src/main.rs\<close>: the process NetworkManager runs to learn which
  secrets to ask for.  It reads the settings from its standard input, decides what is
  needed from the service's hints or, without hints, from the settings and the key file,
  and writes a key file that describes the prompts.  A line of input is \<open>None\<close> where
  reading it fails; \<open>tr\<close> is the message catalogue, a function of the message.
\<close>

section \<open>read_vpn_details\<close>

datatype dialog_error = Missing_Args | Wrong_Service str | No_External_Ui | Bad_Stdin

definition NM_SERVICE :: str where
  "NM_SERVICE = ''org.freedesktop.NetworkManager.openvpn3''"

record details =
  d_data :: dict
  d_secrets :: dict
  d_key :: "(str \<times> bool) option"

definition details_init :: details where
  "details_init = \<lparr>d_data = Map.empty, d_secrets = Map.empty, d_key = None\<rparr>"

text \<open>The \<open>match (prefix, &current_key)\<close>, arm by arm.\<close>

definition details_pair :: "str \<Rightarrow> str \<Rightarrow> details \<Rightarrow> details" where
  "details_pair prefix val d =
     (if prefix \<in> {''DATA_KEY'', ''SECRET_KEY''} \<and> val = [] then d\<lparr>d_key := None\<rparr>
      else if prefix = ''DATA_KEY'' then d\<lparr>d_key := Some (val, False)\<rparr>
      else if prefix = ''SECRET_KEY'' then d\<lparr>d_key := Some (val, True)\<rparr>
      else case d_key d of
             Some (k, secret) \<Rightarrow>
               if prefix = ''DATA_VAL'' \<and> \<not> secret
               then d\<lparr>d_data := (d_data d)(k \<mapsto> val), d_key := None\<rparr>
               else if prefix = ''SECRET_VAL'' \<and> secret
               then d\<lparr>d_secrets := (d_secrets d)(k \<mapsto> val), d_key := None\<rparr>
               else d
           | None \<Rightarrow> d)"

definition details_line :: "str \<Rightarrow> details \<Rightarrow> details" where
  "details_line l d =
     (if l = [] then d\<lparr>d_key := None\<rparr>
      else case split_once (CHR ''='') l of
             Some (prefix, val) \<Rightarrow> details_pair prefix val d
           | None \<Rightarrow> d)"

fun read_details :: "str option list \<Rightarrow> details \<Rightarrow> (dialog_error, details) result" where
  "read_details [] d = Inr d"
| "read_details (None # ls) d = Inl Bad_Stdin"
| "read_details (Some l # ls) d =
     (if l = ''DONE'' then Inr d else read_details ls (details_line l d))"

definition read_vpn_details :: "str option list \<Rightarrow> (dialog_error, dict \<times> dict) result" where
  "read_vpn_details input =
     (case read_details input details_init of
        Inl e \<Rightarrow> Inl e | Inr d \<Rightarrow> Inr (d_data d, d_secrets d))"

section \<open>What is needed\<close>

definition secret_required_flag :: "dict \<Rightarrow> str \<Rightarrow> bool" where
  "secret_required_flag data key =
     (case data (key @ ''-flags'') of
        None \<Rightarrow> True
      | Some raw \<Rightarrow>
          (let bits = (case parse_u32 raw of Some n \<Rightarrow> n | None \<Rightarrow> 0) in and bits 4 = 0))"

text \<open>\<open>std::str::from_utf8\<close> succeeds on a byte string; a byte is a character here.\<close>

definition byte_in :: "nat \<Rightarrow> nat \<Rightarrow> char \<Rightarrow> bool" where
  "byte_in lo hi c \<longleftrightarrow> lo \<le> of_char c \<and> of_char c \<le> hi"

fun utf8_ok :: "str \<Rightarrow> bool" where
  "utf8_ok [] = True"
| "utf8_ok (a # s) =
     (if byte_in 0 0x7F a then utf8_ok s
      else case s of
             [] \<Rightarrow> False
           | b # s2 \<Rightarrow>
               if byte_in 0xC2 0xDF a then byte_in 0x80 0xBF b \<and> utf8_ok s2
               else (case s2 of
                       [] \<Rightarrow> False
                     | c # s3 \<Rightarrow>
                         if byte_in 0xE0 0xEF a then
                           byte_in (if byte_in 0xE0 0xE0 a then 0xA0 else 0x80)
                                   (if byte_in 0xED 0xED a then 0x9F else 0xBF) b
                           \<and> byte_in 0x80 0xBF c \<and> utf8_ok s3
                         else (case s3 of
                                 [] \<Rightarrow> False
                               | d # s4 \<Rightarrow>
                                   byte_in 0xF0 0xF4 a
                                   \<and> byte_in (if byte_in 0xF0 0xF0 a then 0x90 else 0x80)
                                             (if byte_in 0xF4 0xF4 a then 0x8F else 0xBF) b
                                   \<and> byte_in 0x80 0xBF c \<and> byte_in 0x80 0xBF d \<and> utf8_ok s4)))"

definition MAX_KEYFILE_BYTES :: nat where "MAX_KEYFILE_BYTES = 262144"

record key_file =
  kf_opened :: bool
  kf_stat :: "(bool \<times> nat) option"
  kf_read :: "str option"

definition is_encrypted_keyfile_path :: "(str \<Rightarrow> key_file) \<Rightarrow> str \<Rightarrow> bool" where
  "is_encrypted_keyfile_path fs path =
     (let lower = to_ascii_lowercase path
      in if ends_with lower ''.p12'' \<or> ends_with lower ''.pfx'' then True
         else if \<not> kf_opened (fs path) then True
         else case kf_stat (fs path) of
                None \<Rightarrow> True
              | Some (is_file, len) \<Rightarrow>
                  if \<not> is_file \<or> MAX_KEYFILE_BYTES < len then True
                  else case kf_read (fs path) of
                         None \<Rightarrow> True
                       | Some bytes \<Rightarrow>
                           if MAX_KEYFILE_BYTES < length bytes then True
                           else (let txt = (if utf8_ok bytes then bytes else [])
                                 in contains_str txt ''Proc-Type: 4,ENCRYPTED''
                                    \<or> contains_str txt ''BEGIN ENCRYPTED PRIVATE KEY''))"

record needed =
  n_password :: bool
  n_certpass :: bool
  n_proxypass :: bool
  n_challenge :: bool
  n_echo :: bool
  n_prompt :: "str option"

definition needed_default :: needed where
  "needed_default =
     \<lparr>n_password = False, n_certpass = False, n_proxypass = False, n_challenge = False,
      n_echo = False, n_prompt = None\<rparr>"

definition needs_hint :: "needed \<Rightarrow> str \<Rightarrow> needed" where
  "needs_hint out h =
     (case strip_prefix ''x-vpn-message:'' h of
        Some msg \<Rightarrow> (if n_prompt out = None then out\<lparr>n_prompt := Some msg\<rparr> else out)
      | None \<Rightarrow>
          if h = ''password'' then out\<lparr>n_password := True\<rparr>
          else if h = ''cert-pass'' then out\<lparr>n_certpass := True\<rparr>
          else if h = ''http-proxy-password'' then out\<lparr>n_proxypass := True\<rparr>
          else if h = ''challenge-response'' \<or> h = ''x-dynamic-challenge:challenge-response''
          then out\<lparr>n_challenge := True\<rparr>
          else if h = ''x-dynamic-challenge-echo:challenge-response''
          then out\<lparr>n_challenge := True, n_echo := True\<rparr>
          else out)"

definition needs :: "(str \<Rightarrow> key_file) \<Rightarrow> dict \<Rightarrow> str list \<Rightarrow> needed" where
  "needs fs data hints =
     (if hints \<noteq> [] then foldl needs_hint needed_default hints
      else case data ''connection-type'' of
             None \<Rightarrow> needed_default
           | Some ctype \<Rightarrow>
               (let out =
                  (if ctype = ''tls'' \<or> ctype = ''password-tls'' then
                     (let out = (if ctype = ''password-tls'' \<and> secret_required_flag data ''password''
                                 then needed_default\<lparr>n_password := True\<rparr> else needed_default)
                      in case data ''key'' of
                           Some key_path \<Rightarrow>
                             if is_encrypted_keyfile_path fs key_path then out\<lparr>n_certpass := True\<rparr> else out
                         | None \<Rightarrow> out)
                   else if ctype = ''password'' \<and> secret_required_flag data ''password''
                   then needed_default\<lparr>n_password := True\<rparr>
                   else needed_default)
                in case data ''proxy-server'' of
                     Some proxy \<Rightarrow>
                       if proxy \<noteq> [] \<and> secret_required_flag data ''http-proxy-password''
                       then out\<lparr>n_proxypass := True\<rparr> else out
                   | None \<Rightarrow> out))"

section \<open>The key file\<close>

fun escape :: "str \<Rightarrow> str" where
  "escape [] = []"
| "escape (c # s) =
     (if c = BACKSLASH then [BACKSLASH, BACKSLASH]
      else if c = LF then [BACKSLASH, CHR ''n'']
      else if c = CR then [BACKSLASH, CHR ''r'']
      else if c = TAB then [BACKSLASH, CHR ''t'']
      else [c]) @ escape s"

definition writeln :: "str \<Rightarrow> str" where
  "writeln l = l @ [LF]"

definition show_bool :: "bool \<Rightarrow> str" where
  "show_bool b = (if b then ''true'' else ''false'')"

definition write_no_secret :: str where
  "write_no_secret =
     writeln ''[VPN Plugin UI]'' @ writeln ''Version=2'' @ writeln [] @ writeln ''[no-secret]''
     @ writeln ''Value=true'' @ writeln ''Label='' @ writeln ''IsSecret=true''
     @ writeln ''ShouldAsk=false'' @ writeln ''ForceEcho=false''"

datatype msg =
    M_Need_Auth | M_Title | M_Password | M_Cert_Password | M_Proxy_Password | M_Challenge

definition write_entry :: "str \<Rightarrow> str \<Rightarrow> str \<Rightarrow> bool \<Rightarrow> bool \<Rightarrow> str" where
  "write_entry key val label force_echo should_ask =
     writeln [] @ writeln (''['' @ key @ '']'') @ writeln (''Value='' @ escape val)
     @ writeln (''Label='' @ escape label) @ writeln ''IsSecret=true''
     @ writeln (''ShouldAsk='' @ show_bool should_ask) @ writeln (''ForceEcho='' @ show_bool force_echo)"

definition write_eui_keyfile :: "(msg \<Rightarrow> str) \<Rightarrow> str \<Rightarrow> needed \<Rightarrow> bool \<Rightarrow> str" where
  "write_eui_keyfile tr prompt n allow =
     writeln ''[VPN Plugin UI]'' @ writeln ''Version=2''
     @ writeln (''Description='' @ escape prompt) @ writeln (''Title='' @ escape (tr M_Title))
     @ write_entry ''password'' [] (tr M_Password) False (n_password n \<and> allow)
     @ write_entry ''cert-pass'' [] (tr M_Cert_Password) False (n_certpass n \<and> allow)
     @ write_entry ''http-proxy-password'' [] (tr M_Proxy_Password) False (n_proxypass n \<and> allow)
     @ write_entry ''challenge-response'' [] (tr M_Challenge) (n_echo n) (n_challenge n \<and> allow)"

section \<open>run\<close>

record dialog_args =
  a_uuid :: "str option"
  a_name :: "str option"
  a_service :: "str option"
  a_allow_interaction :: bool
  a_external_ui_mode :: bool
  a_hints :: "str list"

text \<open>\<open>str::replace\<close>: every occurrence, from the left, without overlap.\<close>

fun replace_fuel :: "nat \<Rightarrow> str \<Rightarrow> str \<Rightarrow> str \<Rightarrow> str" where
  "replace_fuel 0 p r s = s"
| "replace_fuel (Suc n) p r [] = []"
| "replace_fuel (Suc n) p r (c # s) =
     (case strip_prefix p (c # s) of
        Some rest \<Rightarrow> r @ replace_fuel n p r rest
      | None \<Rightarrow> c # replace_fuel n p r s)"

definition replace_str :: "str \<Rightarrow> str \<Rightarrow> str \<Rightarrow> str" where
  "replace_str p r s = replace_fuel (length s) p r s"

definition prompt_text :: "(msg \<Rightarrow> str) \<Rightarrow> dialog_args \<Rightarrow> needed \<Rightarrow> str" where
  "prompt_text tr args n =
     (case n_prompt n of
        Some p \<Rightarrow> p
      | None \<Rightarrow>
          replace_str ''{name}'' (case a_name args of Some name \<Rightarrow> name | None \<Rightarrow> []) (tr M_Need_Auth))"

definition asks_anything :: "needed \<Rightarrow> bool" where
  "asks_anything n \<longleftrightarrow> n_password n \<or> n_certpass n \<or> n_proxypass n \<or> n_challenge n"

definition dialog_run ::
  "(msg \<Rightarrow> str) \<Rightarrow> (str \<Rightarrow> key_file) \<Rightarrow> dialog_args \<Rightarrow> str option list \<Rightarrow> (dialog_error, str) result" where
  "dialog_run tr fs args input =
     (if a_uuid args = None \<or> a_name args = None \<or> a_service args = None then Inl Missing_Args
      else if a_service args \<noteq> Some NM_SERVICE then
        Inl (Wrong_Service (case a_service args of Some s \<Rightarrow> s | None \<Rightarrow> []))
      else if \<not> a_external_ui_mode args then Inl No_External_Ui
      else case read_vpn_details input of
             Inl e \<Rightarrow> Inl e
           | Inr (data, secrets) \<Rightarrow>
               (let n = needs fs data (a_hints args)
                in if \<not> asks_anything n then Inr write_no_secret
                   else Inr (write_eui_keyfile tr (prompt_text tr args n) n (a_allow_interaction args))))"

section \<open>The input stream\<close>

text \<open>
  The stream libnm documents for this protocol: key and value lines, each pair closed by an
  empty line, first the data, then the secrets, then \<open>DONE\<close>.
\<close>

definition vpn_stream :: "(str \<times> str) list \<Rightarrow> (str \<times> str) list \<Rightarrow> str list" where
  "vpn_stream data secrets =
     concat (map (\<lambda>(k, v). [''DATA_KEY='' @ k, ''DATA_VAL='' @ v, []]) data)
     @ concat (map (\<lambda>(k, v). [''SECRET_KEY='' @ k, ''SECRET_VAL='' @ v, []]) secrets)
     @ [''DONE'']"

lemma details_stream_line:
  "details_line (''DATA_KEY='' @ k) d = details_pair ''DATA_KEY'' k d"
  "details_line (''DATA_VAL='' @ k) d = details_pair ''DATA_VAL'' k d"
  "details_line (''SECRET_KEY='' @ k) d = details_pair ''SECRET_KEY'' k d"
  "details_line (''SECRET_VAL='' @ k) d = details_pair ''SECRET_VAL'' k d"
  "details_line [] d = d\<lparr>d_key := None\<rparr>"
  by (simp_all add: details_line_def)

lemmas details_stream_simps [simp] = details_stream_line [unfolded append_Cons append_Nil]

lemma read_data:
  assumes "\<forall>(k, v) \<in> set ps. k \<noteq> []"
  shows "read_details (map Some (concat (map (\<lambda>(k, v). [''DATA_KEY='' @ k, ''DATA_VAL='' @ v, []]) ps)) @ ls) d
    = read_details ls (if ps = [] then d else d\<lparr>d_data := d_data d ++ map_of (rev ps), d_key := None\<rparr>)"
  using assms
proof (induction ps arbitrary: d)
  case (Cons p ps)
  obtain k v where p: "p = (k, v)" by (cases p)
  with Cons show ?case
    by (auto simp: details_pair_def)
qed simp

lemma read_secrets:
  assumes "\<forall>(k, v) \<in> set ps. k \<noteq> []"
  shows "read_details (map Some (concat (map (\<lambda>(k, v). [''SECRET_KEY='' @ k, ''SECRET_VAL='' @ v, []]) ps)) @ ls) d
    = read_details ls (if ps = [] then d else d\<lparr>d_secrets := d_secrets d ++ map_of (rev ps), d_key := None\<rparr>)"
  using assms
proof (induction ps arbitrary: d)
  case (Cons p ps)
  obtain k v where p: "p = (k, v)" by (cases p)
  with Cons show ?case
    by (auto simp: details_pair_def)
qed simp



section \<open>The hints of the service\<close>

lemma key_not_tag:
  "strip_prefix ''x-vpn-message:'' (slot_to_vpn_key slot) = None"
  by (simp add: slot_to_vpn_key_def name_to_vpn_key_def)

lemma tag_stripped: "strip_prefix ''x-vpn-message:'' (''x-vpn-message:'' @ msg) = Some msg"
  by simp

lemma needs_slot_hints:
  "foldl needs_hint out (map slot_to_vpn_key slots) =
     out\<lparr>n_password := n_password out \<or> ''password'' \<in> set (map slot_to_vpn_key slots),
         n_certpass := n_certpass out \<or> ''cert-pass'' \<in> set (map slot_to_vpn_key slots),
         n_proxypass := n_proxypass out \<or> ''http-proxy-password'' \<in> set (map slot_to_vpn_key slots),
         n_challenge := n_challenge out \<or> ''challenge-response'' \<in> set (map slot_to_vpn_key slots)\<rparr>"
proof (induction slots arbitrary: out)
  case (Cons slot slots)
  have "slot_to_vpn_key slot \<in> set [''username'', ''password'', ''challenge-response'', ''cert-pass'',
      ''http-proxy-username'', ''http-proxy-password'']"
    by (simp add: slot_to_vpn_key_def name_to_vpn_key_def)
  with Cons show ?case
    by (auto simp: needs_hint_def key_not_tag)
qed simp

text \<open>
  C32: The dialog and the service agree on the hints: for any prompt and any batch of input
  slots the service asks NetworkManager for, the dialog shows exactly that prompt and asks
  for exactly the secrets among the slots' keys; so a batch of user-name slots alone
  asks for nothing, and the slots stay unanswered.
\<close>

theorem dialog_understands_service_hints:
  assumes "slots \<noteq> []"
  shows "needs fs data (secrets_hints message slots) =
      \<lparr>n_password = ''password'' \<in> set (map slot_to_vpn_key slots),
       n_certpass = ''cert-pass'' \<in> set (map slot_to_vpn_key slots),
       n_proxypass = ''http-proxy-password'' \<in> set (map slot_to_vpn_key slots),
       n_challenge = ''challenge-response'' \<in> set (map slot_to_vpn_key slots),
       n_echo = False, n_prompt = nonempty (Some message)\<rparr>
    \<and> (set (map slot_to_vpn_key slots) \<subseteq> {''username'', ''http-proxy-username''} \<longrightarrow>
        \<not> asks_anything (needs fs data (secrets_hints message slots)))"
proof -
  have "secrets_hints message slots \<noteq> []" using assms by (simp add: secrets_hints_def)
  then have "needs fs data (secrets_hints message slots)
      = foldl needs_hint (if message = [] then needed_default else needed_default\<lparr>n_prompt := Some message\<rparr>)
          (map slot_to_vpn_key slots)"
    by (simp add: needs_def secrets_hints_def needs_hint_def tag_stripped needed_default_def del: append.simps strip_prefix.simps)
  then show ?thesis
    by (auto simp: needs_slot_hints needed_default_def nonempty_def asks_anything_def)
qed

definition password_slot :: input_slot where
  "password_slot = \<lparr>slot_type = 1, slot_group = 1, slot_id = 0, slot_name = ''password'',
                    slot_description = [], slot_mask_input = True\<rparr>"

definition no_key_file :: key_file where
  "no_key_file = \<lparr>kf_opened = False, kf_stat = None, kf_read = None\<rparr>"

lemma dialog_understands_service_hints_witness:
  "n_password (needs (\<lambda>_. no_key_file) Map.empty (secrets_hints ''Log in'' [password_slot]))"
  using dialog_understands_service_hints [of "[password_slot]" "\<lambda>_. no_key_file" Map.empty "''Log in''"]
  by (simp add: password_slot_def slot_to_vpn_key_def name_to_vpn_key_def)

section \<open>The key file has a fixed shape\<close>

text \<open>The escapes of the key file format.\<close>

fun unescape :: "str \<Rightarrow> str" where
  "unescape [] = []"
| "unescape [c] = [c]"
| "unescape (c # d # s) =
     (if c = BACKSLASH then
        (if d = CHR ''n'' then LF else if d = CHR ''r'' then CR else if d = CHR ''t'' then TAB
         else if d = CHR ''s'' then CHR '' '' else d) # unescape s
      else c # unescape (d # s))"

lemma unescape_Cons: "c \<noteq> BACKSLASH \<Longrightarrow> unescape (c # s) = c # unescape s"
  by (cases s) auto

lemma special_distinct:
  "LF \<noteq> BACKSLASH" "CR \<noteq> BACKSLASH" "TAB \<noteq> BACKSLASH" "LF \<noteq> CR" "LF \<noteq> TAB" "CR \<noteq> TAB"
  "BACKSLASH \<noteq> CHR ''n''" "BACKSLASH \<noteq> CHR ''r''" "BACKSLASH \<noteq> CHR ''t''" "BACKSLASH \<noteq> CHR ''s''"
  "LF \<noteq> CHR ''n''" "LF \<noteq> CHR ''r''" "LF \<noteq> CHR ''t''" "CR \<noteq> CHR ''n''" "CR \<noteq> CHR ''r''" "CR \<noteq> CHR ''t''"
  by (simp_all add: LF_def CR_def TAB_def BACKSLASH_def)

lemma unescape_escape: "unescape (escape s) = s"
  by (induction s) (auto simp: unescape_Cons special_distinct)

lemma escape_plain: "LF \<notin> set (escape s) \<and> CR \<notin> set (escape s)"
  by (induction s) (auto simp: special_distinct)

lemma strip_cr_plain_line: "CR \<notin> set l \<Longrightarrow> strip_cr l = l"
proof (cases "l = []")
  case False
  then have "last l \<in> set l" by simp
  moreover assume "CR \<notin> set l"
  ultimately show ?thesis by (metis strip_cr_id)
qed (simp add: strip_cr_def strip_suffix_def)

definition entry_lines :: "str \<Rightarrow> str \<Rightarrow> bool \<Rightarrow> bool \<Rightarrow> str list" where
  "entry_lines key label force_echo should_ask =
     [[], ''['' @ key @ '']'', ''Value='', ''Label='' @ escape label, ''IsSecret=true'',
      ''ShouldAsk='' @ show_bool should_ask, ''ForceEcho='' @ show_bool force_echo]"

definition keyfile_lines :: "(msg \<Rightarrow> str) \<Rightarrow> str \<Rightarrow> needed \<Rightarrow> bool \<Rightarrow> str list" where
  "keyfile_lines tr prompt n allow =
     [''[VPN Plugin UI]'', ''Version=2'', ''Description='' @ escape prompt, ''Title='' @ escape (tr M_Title)]
     @ entry_lines ''password'' (tr M_Password) False (n_password n \<and> allow)
     @ entry_lines ''cert-pass'' (tr M_Cert_Password) False (n_certpass n \<and> allow)
     @ entry_lines ''http-proxy-password'' (tr M_Proxy_Password) False (n_proxypass n \<and> allow)
     @ entry_lines ''challenge-response'' (tr M_Challenge) (n_echo n) (n_challenge n \<and> allow)"

lemma keyfile_text:
  "write_eui_keyfile tr prompt n allow = concat (map (\<lambda>l. l @ [LF]) (keyfile_lines tr prompt n allow))"
  by (simp add: write_eui_keyfile_def keyfile_lines_def write_entry_def entry_lines_def writeln_def)

lemma keyfile_lines_plain:
  "\<forall>l \<in> set (keyfile_lines tr prompt n allow). LF \<notin> set l \<and> CR \<notin> set l"
  using escape_plain
  by (simp add: keyfile_lines_def entry_lines_def show_bool_def LF_def CR_def)

text \<open>
  C25: No server text can change the dialog's answer: whatever the prompt (which openvpn3
  takes from the VPN server), the translations and the needed secrets are, the key file has
  exactly the 32 lines of \<open>keyfile_lines\<close>, its group headers are the five fixed ones in
  order, and the description line carries the prompt, recoverable exactly.
\<close>

theorem dialog_keyfile_no_injection:
  "lines (write_eui_keyfile tr prompt n allow) = keyfile_lines tr prompt n allow
   \<and> length (keyfile_lines tr prompt n allow) = 32
   \<and> filter (\<lambda>l. starts_with l ''['') (keyfile_lines tr prompt n allow)
     = [''[VPN Plugin UI]'', ''[password]'', ''[cert-pass]'', ''[http-proxy-password]'', ''[challenge-response]'']
   \<and> unescape (escape prompt) = prompt"
proof -
  have "lines (write_eui_keyfile tr prompt n allow @ []) = keyfile_lines tr prompt n allow @ lines []"
    unfolding keyfile_text
    by (rule lines_lines) (use keyfile_lines_plain strip_cr_plain_line in blast)
  moreover have "filter (\<lambda>l. starts_with l ''['') (keyfile_lines tr prompt n allow)
     = [''[VPN Plugin UI]'', ''[password]'', ''[cert-pass]'', ''[http-proxy-password]'', ''[challenge-response]'']"
    by (simp add: keyfile_lines_def entry_lines_def starts_with_def)
  ultimately show ?thesis
    by (simp add: unescape_escape) (simp add: keyfile_lines_def entry_lines_def)
qed

text \<open>Without interaction the dialog never asks.\<close>

lemma no_interaction_no_questions:
  "''ShouldAsk=true'' \<notin> set (keyfile_lines tr prompt n False)"
  by (simp add: keyfile_lines_def entry_lines_def show_bool_def)

end
