(* ===== verification/Cross_Emitter.thy ===== *)
theory Cross_Emitter
  imports Build_Profile Nm_Data "HOL-Library.Multiset"
begin

text \<open>
  What \<open>cross_emitter_agreement.rs\<close> tests on a corpus, for every dictionary: the
  two hand-maintained \<open>.ovpn\<close> emitters against each other, and the connect-side
  text against the tokenizer (no value of \<open>vpn.data\<close> can smuggle a directive).
\<close>

section \<open>The duplicated helpers are equal\<close>

lemma nm_get_eq: "nm_get data k = get data k"
  by (simp add: nm_get_def get_def arg_is_set_def)

lemma ie_is_pkcs12_path_eq: "ie_is_pkcs12_path p = is_pkcs12_path p"
  by (simp add: ie_is_pkcs12_path_def is_pkcs12_path_def)

lemma ie_is_safe_route_line_eq: "ie_is_safe_route_line l = is_safe_route_line l"
  by (auto simp: ie_is_safe_route_line_def is_safe_route_line_def ALLOWED_ROUTES_def
      is_route_arg_char_def [abs_def] split: list.split)

lemma split_remote_eq: "split_remote gw = parse_remote gw"
  by (simp add: split_remote_def parse_remote_def parse_remote_bare_def Let_def
      split: option.split)

lemmas copy_eqs = nm_get_eq ie_is_pkcs12_path_eq ie_is_safe_route_line_eq split_remote_eq

section \<open>Splitting a line without quoting characters\<close>

definition inert :: "char \<Rightarrow> bool" where
  "inert c \<longleftrightarrow> c \<notin> {DQUOTE, SQUOTE, BACKSLASH, CHR '';'', CHR ''#''}"

lemma hd_split_on: "hd (split_on P s) = takeWhile (\<lambda>c. \<not> P c) s"
  by (induction s) (auto split: list.split simp: neq_Nil_conv)

lemma split_on_takeWhile:
  "split_on P s =
     (case dropWhile (\<lambda>c. \<not> P c) s of
        [] \<Rightarrow> [takeWhile (\<lambda>c. \<not> P c) s]
      | _ # r \<Rightarrow> takeWhile (\<lambda>c. \<not> P c) s # split_on P r)"
proof (induction s)
  case (Cons a s)
  then show ?case
    by (cases "P a"; cases "dropWhile (\<lambda>c. \<not> P c) s")
       (simp_all del: dropWhile_eq_Nil_conv takeWhile_eq_all_conv)
qed simp

lemma set_split_on: "c \<in> set s \<Longrightarrow> P c \<or> (\<exists>p \<in> set (split_on P s). c \<in> set p)"
proof (induction s)
  case (Cons a s)
  then show ?case
    by (cases "split_on P s") auto
qed simp

lemma tok_plain_inert:
  assumes "\<forall>c \<in> set s. inert c"
  shows "tok_plain tok s =
    Inr (tok @ takeWhile (\<lambda>c. \<not> is_ascii_whitespace c) s, dropWhile (\<lambda>c. \<not> is_ascii_whitespace c) s)"
  using assms by (induction s arbitrary: tok) (auto simp: inert_def)

lemma tokenize_inert:
  assumes "\<forall>c \<in> set s. inert c"
  shows "tokenize s = Inr (filter (\<lambda>p. p \<noteq> []) (split_on is_ascii_whitespace s))"
  using assms
proof (induction s rule: length_induct)
  case (1 s)
  show ?case
  proof (cases s)
    case (Cons c cs)
    let ?nw = "\<lambda>c. \<not> is_ascii_whitespace c"
    show ?thesis
    proof (cases "is_ascii_whitespace c")
      case True
      with 1 Cons show ?thesis by (simp add: tokenize.simps(2))
    next
      case False
      from 1(2) Cons have in_s: "\<forall>c \<in> set s. inert c" by simp
      then have q: "c \<noteq> DQUOTE" "c \<noteq> SQUOTE" "c \<noteq> CHR '';''" "c \<noteq> CHR ''#''"
        using Cons by (auto simp: inert_def)
      have tp: "tok_plain [] (c # cs) = Inr (takeWhile ?nw s, dropWhile ?nw s)"
        using tok_plain_inert [OF in_s, of "[]"] Cons by simp
      have rest: "tokenize (dropWhile ?nw s) =
          Inr (filter (\<lambda>p. p \<noteq> []) (split_on is_ascii_whitespace (dropWhile ?nw s)))"
      proof (rule 1(1) [rule_format])
        show "length (dropWhile ?nw s) < length s"
          using False Cons length_dropWhile_le [of ?nw cs] by (simp add: less_Suc_eq_le)
        show "inert x" if "x \<in> set (dropWhile ?nw s)" for x
          using that in_s by (auto dest: set_dropWhileD)
      qed
      have tok: "tokenize s = Inr (takeWhile ?nw s #
          filter (\<lambda>p. p \<noteq> []) (split_on is_ascii_whitespace (dropWhile ?nw s)))"
        using False q tp rest by (simp add: Cons tokenize.simps(2) del: tok_plain.simps)
      have first: "takeWhile ?nw s \<noteq> []" using False Cons by simp
      show ?thesis
        unfolding tok
      proof (cases "dropWhile ?nw s")
        case Nil
        then show "Inr (takeWhile ?nw s #
            filter (\<lambda>p. p \<noteq> []) (split_on is_ascii_whitespace (dropWhile ?nw s))) =
          Inr (filter (\<lambda>p. p \<noteq> []) (split_on is_ascii_whitespace s))"
          using first
          by (simp add: split_on_takeWhile [of is_ascii_whitespace s]
              del: dropWhile_eq_Nil_conv takeWhile_eq_all_conv)
      next
        case (Cons w r)
        then have "is_ascii_whitespace w" by (simp add: dropWhile_eq_Cons_conv)
        with Cons show "Inr (takeWhile ?nw s #
            filter (\<lambda>p. p \<noteq> []) (split_on is_ascii_whitespace (dropWhile ?nw s))) =
          Inr (filter (\<lambda>p. p \<noteq> []) (split_on is_ascii_whitespace s))"
          using first
          by (simp add: split_on_takeWhile [of is_ascii_whitespace s]
              del: dropWhile_eq_Nil_conv takeWhile_eq_all_conv)
      qed
    qed
  qed simp
qed

section \<open>A safe route line is one directive\<close>

lemma ascii_whitespace_whitespace: "is_ascii_whitespace c \<Longrightarrow> is_whitespace c"
  by (auto simp: is_ascii_whitespace_def is_whitespace_def)

lemma safe_route_chars:
  assumes "is_safe_route_line l" and "c \<in> set l"
  shows "inert c" "\<not> is_control c"
proof -
  from assms(1) obtain d toks where split: "split_whitespace l = d # toks"
    and d: "d \<in> set ALLOWED_ROUTES" and toks: "\<forall>t \<in> set toks. \<forall>c \<in> set t. is_route_arg_char c"
    and ctl: "\<not> list_ex is_control l"
    by (auto simp: is_safe_route_line_def list_all_iff split: if_splits list.splits)
  from ctl assms(2) show "\<not> is_control c" by (auto simp: list_ex_iff)
  have dchars: "\<forall>c \<in> set d. inert c"
    using d by (auto simp: ALLOWED_ROUTES_def inert_def char_class_defs)
  have arg: "is_route_arg_char c \<Longrightarrow> inert c" for c
    by (auto simp: is_route_arg_char_def inert_def char_class_defs)
  have ws: "is_whitespace c \<Longrightarrow> inert c" for c
    by (auto simp: inert_def char_class_defs)
  from set_split_on [OF assms(2), of is_whitespace]
  have "is_whitespace c \<or> (\<exists>p \<in> set (split_whitespace l). c \<in> set p)"
    by (auto simp: split_whitespace_def)
  with split dchars toks arg ws show "inert c" by auto
qed

lemma trim_ends:
  assumes "trim s \<noteq> []"
  shows "\<not> is_whitespace (hd (trim s))" and "\<not> is_whitespace (last (trim s))"
proof -
  have "trim s = rev (dropWhile is_whitespace (rev (dropWhile is_whitespace s)))"
    by (simp add: trim_def trim_end_def trim_start_def)
  then show "\<not> is_whitespace (last (trim s))"
    using assms hd_dropWhile [of is_whitespace "rev (dropWhile is_whitespace s)"]
    by (simp add: last_rev)
  obtain pre suf where "dropWhile is_whitespace s = trim s @ suf"
    using takeWhile_dropWhile_id [of is_whitespace "rev (dropWhile is_whitespace s)"]
    by (metis \<open>trim s = _\<close> rev_append rev_rev_ident)
  moreover from this assms have "dropWhile is_whitespace s \<noteq> []" by auto
  ultimately show "\<not> is_whitespace (hd (trim s))"
    using assms hd_dropWhile [of is_whitespace s] by (metis hd_append2)
qed

text \<open>The words the tokenizer makes of a line, and the first word up to any whitespace.\<close>

definition line_words :: "str \<Rightarrow> str list" where
  "line_words l = filter (\<lambda>p. p \<noteq> []) (split_on is_ascii_whitespace l)"

definition first_word :: "str \<Rightarrow> str" where
  "first_word s = takeWhile (\<lambda>c. \<not> is_whitespace c) s"

lemma hd_filter_split_on:
  assumes "s \<noteq> []" and "\<not> P (hd s)"
  shows "hd (filter (\<lambda>p. p \<noteq> []) (split_on P s)) = takeWhile (\<lambda>c. \<not> P c) s"
    and "filter (\<lambda>p. p \<noteq> []) (split_on P s) \<noteq> []"
proof -
  have "takeWhile (\<lambda>c. \<not> P c) s \<noteq> []" using assms by (cases s) auto
  moreover obtain r where "split_on P s = takeWhile (\<lambda>c. \<not> P c) s # r"
    using split_on_nonempty [of P s] hd_split_on [of P s] by (metis list.collapse)
  ultimately show "hd (filter (\<lambda>p. p \<noteq> []) (split_on P s)) = takeWhile (\<lambda>c. \<not> P c) s"
    "filter (\<lambda>p. p \<noteq> []) (split_on P s) \<noteq> []" by simp_all
qed

lemma safe_route_first_word:
  assumes "is_safe_route_line l" and "l \<noteq> []" and "\<not> is_whitespace (hd l)"
  shows "first_word l \<in> set ALLOWED_ROUTES"
  using assms(1) hd_filter_split_on [OF assms(2), of is_whitespace] assms(3)
  by (auto simp: is_safe_route_line_def split_whitespace_def first_word_def
      split: if_splits list.splits)

lemma first_word_takeWhile:
  "first_word (takeWhile (\<lambda>c. \<not> is_ascii_whitespace c) l) = first_word l"
  by (induction l) (auto simp: first_word_def ascii_whitespace_whitespace)

lemma safe_route_good_line:
  assumes "is_safe_route_line l" and "l \<noteq> []"
    and "\<not> is_whitespace (hd l)" and "\<not> is_whitespace (last l)"
  shows "good_line l (line_words l)" and "first_word (hd (line_words l)) \<in> set ALLOWED_ROUTES"
proof -
  let ?first = "takeWhile (\<lambda>c. \<not> is_ascii_whitespace c) l"
  have hd_l: "\<not> is_ascii_whitespace (hd l)"
    using assms(3) ascii_whitespace_whitespace by blast
  have words: "hd (line_words l) = ?first" "line_words l \<noteq> []"
    using hd_filter_split_on [where P = is_ascii_whitespace, OF assms(2) hd_l] by (simp_all add: line_words_def)
  have fw: "first_word l \<in> set ALLOWED_ROUTES"
    by (rule safe_route_first_word [OF assms(1-3)])
  then show "first_word (hd (line_words l)) \<in> set ALLOWED_ROUTES"
    by (simp add: words first_word_takeWhile)
  have "hd (first_word l) = hd l" "first_word l \<noteq> []"
    using assms(2,3) by (cases l; simp add: first_word_def)+
  with fw have r: "hd l = CHR ''r''" by (auto simp: ALLOWED_ROUTES_def)
  then have plain: "plain_name ?first"
    using assms(2) hd_l by (cases l) (auto simp: plain_name_def starts_with_def)
  have "LF \<notin> set l"
    using safe_route_chars(2) [OF assms(1), of LF] by (auto simp: is_control_def LF_def)
  moreover have "last l \<noteq> CR"
    using safe_route_chars(2) [OF assms(1), of "last l"] assms(2)
    by (auto simp: is_control_def CR_def)
  moreover have "tokenize l = Inr (line_words l)"
    unfolding line_words_def by (rule tokenize_inert) (use safe_route_chars(1) [OF assms(1)] in blast)
  ultimately show "good_line l (line_words l)"
    using assms(2,3) r words plain by (simp add: good_line_def strip_cr_id)
qed


section \<open>The connect-side text read back\<close>

text \<open>The names the code writes before its fixed tail, and directives that run programs.\<close>

definition BODY_NAMES :: "str list" where
  "BODY_NAMES =
     [''client'', ''remote'', ''remote-random'', ''remote-random-hostname'', ''allow-pull-fqdn'',
      ''tun-ipv6'', ''push-peer-info'', ''pkcs12'', ''ca'', ''cert'', ''key'', ''auth-user-pass'',
      ''secret'', ''reneg-sec'', ''max-routes'', ''cipher'', ''data-ciphers'',
      ''data-ciphers-fallback'', ''tls-cipher'', ''auth'', ''keysize'', ''allow-compression'',
      ''comp-lzo'', ''compress'', ''float'', ''mssfix'', ''mtu-disc'', ''tun-mtu'',
      ''connect-timeout'', ''fragment'', ''crl-verify'', ''dev'', ''dev-type'', ''proto'', ''port'',
      ''ping'', ''ping-exit'', ''ping-restart'', ''ifconfig'', ''remote-cert-tls'', ''ns-cert-type'',
      ''tls-remote'', ''verify-x509-name'', ''tls-auth'', ''tls-crypt'', ''tls-crypt-v2'',
      ''tls-version-min'', ''tls-version-max'', ''extra-certs'', ''http-proxy'',
      ''http-proxy-retry'', ''socks-proxy'', ''socks-proxy-retry'']"

definition GUARDED_NAMES :: "str list" where
  "GUARDED_NAMES =
     [''script-security'', ''up'', ''down'', ''route-up'', ''route-pre-down'', ''ipchange'',
      ''tls-verify'', ''auth-user-pass-verify'', ''client-connect'', ''client-disconnect'',
      ''learn-address'', ''plugin'', ''management'', ''config'', ''log'', ''writepid'', ''iproute'',
      ''user'', ''group'', ''nobind'', ''auth-nocache'', ''persist-key'', ''persist-tun'']"

fun entry_words :: "entry \<Rightarrow> str list" where
  "entry_words (Words ws) = ws"
| "entry_words (Raw l) = line_words l"

definition named_in :: "str set \<Rightarrow> entry list \<Rightarrow> bool" where
  "named_in N es \<longleftrightarrow> (\<forall>e \<in> set es. \<exists>ws. e = Words ws \<and> ws \<noteq> [] \<and> hd ws \<in> N)"

lemma named_in_simps:
  "named_in N []" "named_in N (Words ws # es) \<longleftrightarrow> ws \<noteq> [] \<and> hd ws \<in> N \<and> named_in N es"
  "named_in N (xs @ ys) \<longleftrightarrow> named_in N xs \<and> named_in N ys"
  by (auto simp: named_in_def)

lemma named_in_helpers:
  "tag \<in> N \<Longrightarrow> named_in N (str_entry tag v)" "tag \<in> N \<Longrightarrow> named_in N (int_entry tag v)"
  "tag \<in> N \<Longrightarrow> named_in N (flag_entry data key tag)"
  by (simp_all add: str_entry_def int_entry_def flag_entry_def named_in_simps split: option.split)

text \<open>Every entry but the preserved routes is named by a literal of the code.\<close>

lemma named_blocks:
  "named_in (set BODY_NAMES) (client_entries data)"
  "named_in (set BODY_NAMES) (map (\<lambda>gw. Words (remote_words gw)) gws)"
  "named_in (set BODY_NAMES) (flags_entries data)"
  "named_in (set BODY_NAMES) (cert_entries b data)"
  "named_in (set BODY_NAMES) (auth_entries data)"
  "named_in (set BODY_NAMES) (compress_entries data)"
  "named_in (set BODY_NAMES) (mssfix_entries data)"
  "named_in (set BODY_NAMES) (crl_entries data)"
  "named_in (set BODY_NAMES) (dev_entries data)"
  "named_in (set BODY_NAMES) (ifconfig_entries data)"
  "named_in (set BODY_NAMES) (tls_entries data)"
  "named_in (set BODY_NAMES) (proxy_entries data)"
proof -
  show "named_in (set BODY_NAMES) (map (\<lambda>gw. Words (remote_words gw)) gws)"
    by (auto simp: named_in_def remote_words_def BODY_NAMES_def split: prod.split)
qed (simp_all add: client_entries_def flags_entries_def cert_entries_def auth_entries_def
      compress_entries_def mssfix_entries_def crl_entries_def dev_entries_def ifconfig_entries_def
      tls_entries_def proxy_entries_def proxy_entry_def named_in_simps
      named_in_helpers Let_def BODY_NAMES_def split: option.split)

lemma named_ints:
  "\<forall>(k, tag) \<in> set ks. tag \<in> N \<Longrightarrow> named_in N (int_entries data ks)"
  by (induction ks) (auto simp: int_entries_def named_in_simps named_in_helpers)

lemma named_strs:
  "\<forall>(k, tag) \<in> set ks. tag \<in> N \<Longrightarrow> named_in N (str_entries data ks)"
  by (induction ks) (auto simp: str_entries_def named_in_simps named_in_helpers)

lemma named_before_routes: "named_in (set BODY_NAMES) (before_routes data gateways)"
  unfolding before_routes_def named_in_simps
  by (intro conjI named_blocks named_ints named_strs named_in_helpers; simp add: BODY_NAMES_def)

lemma connect_body_cases:
  assumes "e \<in> set (connect_body data gateways)"
  obtains ws where "e = Words ws" "ws \<noteq> []" "hd ws \<in> set BODY_NAMES"
    | l where "e = Raw l" "l \<in> set (route_list data)"
  using assms named_before_routes [of data gateways] named_blocks(11,12) [of data]
  by (auto simp: connect_body_def named_in_def)

lemma route_list_safe:
  assumes "l \<in> set (route_list data)"
  shows "is_safe_route_line l" "l \<noteq> []" "\<not> is_whitespace (hd l)" "\<not> is_whitespace (last l)"
  using assms trim_ends by (auto simp: route_list_def split: option.splits)

lemma plain_literals:
  "n \<in> set BODY_NAMES \<union> hd ` set tail_words \<Longrightarrow> plain_name n"
  by (auto simp: BODY_NAMES_def tail_words_def plain_name_def starts_with_def)

definition entry_good :: "entry \<Rightarrow> bool" where
  "entry_good e \<longleftrightarrow> good_line (entry_text e) (entry_words e)"

lemma connect_entries_good:
  assumes "e \<in> set (connect_entries data gateways)"
  shows "entry_good e"
proof -
  from assms consider "e \<in> set (connect_body data gateways)" | "e \<in> set (map Words tail_words)"
    by (auto simp: connect_entries_def)
  then show ?thesis
  proof cases
    case 1
    then show ?thesis
    proof (cases rule: connect_body_cases)
      case (1 ws)
      then show ?thesis by (simp add: entry_good_def good_words_line plain_literals)
    next
      case (2 l)
      from safe_route_good_line(1) [OF route_list_safe [OF 2(2)]] 2(1)
      show ?thesis by (simp add: entry_good_def)
    qed
  next
    case 2
    then obtain ws where "e = Words ws" "ws \<in> set tail_words" by auto
    then show ?thesis
      by (auto simp: entry_good_def tail_words_def intro!: good_words_line plain_literals)
  qed
qed

lemma body_not_guarded:
  assumes "n \<in> set BODY_NAMES"
  shows "n \<notin> set GUARDED_NAMES"
proof -
  have "list_all (\<lambda>n. n \<notin> set GUARDED_NAMES) BODY_NAMES" by code_simp
  with assms show ?thesis by (simp add: list_all_iff)
qed

lemma allowed_not_guarded:
  assumes "first_word n \<in> set ALLOWED_ROUTES"
  shows "n \<notin> set GUARDED_NAMES"
proof -
  have "list_all (\<lambda>n. first_word n \<notin> set ALLOWED_ROUTES) GUARDED_NAMES" by code_simp
  with assms show ?thesis by (auto simp: list_all_iff)
qed

definition entry_directive :: "entry \<Rightarrow> directive" where
  "entry_directive e = directive_of (entry_words e)"

lemma parse_entries:
  assumes "\<forall>e \<in> set es. entry_good e"
  shows "parse_directives (entries_text es) = Inr (map entry_directive es)"
proof -
  have "list_all2 good_line (map entry_text es) (map entry_words es)"
    using assms by (induction es) (simp_all add: entry_good_def)
  from parse_good_text [OF this] show ?thesis
    by (simp add: entries_text_def entry_directive_def comp_def)
qed

lemma connect_text_parses:
  assumes "build_profile_string data secrets = Inr text"
  obtains gateways where "get data ''remote'' = Some gateways"
    and "parse_directives text = Inr (map entry_directive (connect_entries data gateways))"
  using assms parse_entries connect_entries_good
  by (auto simp: build_profile_text split: option.splits)

text \<open>
  C4: No value of \<open>vpn.data\<close> can smuggle a directive into the profile handed to
  openvpn3.  Whatever the dictionary holds, the emitted text tokenizes without
  error into option directives: first a body whose names are literals of the
  emitter or begin with an allow-listed route directive, and none of which is a
  script hook, a plugin, or one of the hardening directives, then exactly the
  hard-coded tail (nobind, auth-nocache, script-security 2, ...).
\<close>

theorem build_profile_no_injection:
  assumes "build_profile_string data secrets = Inr text"
  shows "\<exists>body. parse_directives text = Inr (body @ map directive_of tail_words)
    \<and> (\<forall>d \<in> set body. \<exists>n args. d = Option n args \<and> n \<notin> set GUARDED_NAMES
         \<and> (n \<in> set BODY_NAMES \<or> first_word n \<in> set ALLOWED_ROUTES))"
proof -
  from assms obtain gateways where
    p: "parse_directives text = Inr (map entry_directive (connect_entries data gateways))"
    by (rule connect_text_parses)
  let ?body = "map entry_directive (connect_body data gateways)"
  have "\<exists>n args. entry_directive e = Option n args \<and> n \<notin> set GUARDED_NAMES
      \<and> (n \<in> set BODY_NAMES \<or> first_word n \<in> set ALLOWED_ROUTES)"
    if "e \<in> set (connect_body data gateways)" for e
    using that
  proof (cases rule: connect_body_cases)
    case (1 ws)
    then have "entry_directive e = Option (hd ws) (tl ws)"
      by (simp add: entry_directive_def directive_of_def)
    with body_not_guarded 1(3) show ?thesis by blast
  next
    case (2 l)
    have fw: "first_word (hd (line_words l)) \<in> set ALLOWED_ROUTES"
      by (rule safe_route_good_line(2) [OF route_list_safe [OF 2(2)]])
    have "entry_directive e = Option (hd (line_words l)) (tl (line_words l))"
      by (simp add: entry_directive_def directive_of_def 2(1))
    with fw allowed_not_guarded show ?thesis by blast
  qed
  moreover have "map entry_directive (connect_entries data gateways) = ?body @ map directive_of tail_words"
    by (simp add: connect_entries_def entry_directive_def)
  ultimately show ?thesis using p by (intro exI [of _ ?body]) auto
qed

definition example_hostile :: dict where
  "example_hostile = [''connection-type'' \<mapsto> ''tls'', ''remote'' \<mapsto> ''vpn'',
     ''cipher'' \<mapsto> ''x'' @ [LF] @ ''up /tmp/evil'',
     ''nm-openvpn3-extra-routes'' \<mapsto> ''route-up /tmp/x'' @ [LF] @ ''route 10.0.0.0'']"

lemma build_profile_no_injection_witness:
  "\<exists>text. build_profile_string example_hostile Map.empty = Inr text
    \<and> (\<exists>body. parse_directives text = Inr (body @ map directive_of tail_words)
        \<and> (\<forall>d \<in> set body. \<exists>n args. d = Option n args \<and> n \<notin> set GUARDED_NAMES
             \<and> (n \<in> set BODY_NAMES \<or> first_word n \<in> set ALLOWED_ROUTES)))"
proof -
  have "get example_hostile ''remote'' = Some ''vpn''"
    by (simp add: get_def arg_is_set_def nonempty_def example_hostile_def)
  then obtain out where t: "build_profile_string example_hostile Map.empty = Inr out"
    by (simp add: build_profile_text)
  from build_profile_no_injection [OF this] t show ?thesis by blast
qed

section \<open>The two emitters agree\<close>

lemma nm_get_fun: "nm_get = get"
  by (intro ext) (rule nm_get_eq)

abbreviation dirs :: "entry list \<Rightarrow> directive list" where
  "dirs es \<equiv> map entry_directive es"

lemma entry_directive_Words [simp]: "entry_directive (Words (n # args)) = Option n args"
  by (simp add: entry_directive_def directive_of_def)

lemma dirs_str: "dirs (str_entry tag v) = fd_opt tag v"
  by (simp add: str_entry_def fd_opt_def push_opt_def split: option.split)

lemma dirs_flag: "dirs (flag_entry data key tag) = (if get data key = Some ''yes'' then push_flag tag else [])"
  by (simp add: flag_entry_def push_flag_def)

lemma dirs_fd_flag: "dirs (flag_entry data key key) = fd_flag data key"
  by (simp add: dirs_flag fd_flag_def nm_get_fun)

definition int_ok :: "dict \<Rightarrow> str \<Rightarrow> bool" where
  "int_ok data k \<longleftrightarrow> (case get data k of Some v \<Rightarrow> parse_i64 v \<noteq> None | None \<Rightarrow> True)"

lemma dirs_int: "int_ok data k \<Longrightarrow> dirs (int_entry tag (get data k)) = fd_opt tag (get data k)"
  by (cases "get data k") (auto simp: int_entry_def int_ok_def fd_opt_def push_opt_def)

lemma dirs_remotes:
  "dirs (map (\<lambda>gw. Words (remote_words gw)) (filter (\<lambda>gw. gw \<noteq> []) (map trim gws))) = fd_remotes gws"
  by (induction gws rule: fd_remotes.induct)
     (auto simp: Let_def remote_words_def split_remote_eq push_opt_def opt_list_def
        split: prod.split option.split)

lemma dirs_route_lines:
  "dirs (map Raw (filter (\<lambda>l. l \<noteq> [] \<and> is_safe_route_line l) (map trim ls))) = fd_route_lines ls"
proof (induction ls)
  case (Cons l ls)
  show ?case
  proof (cases "trim l \<noteq> [] \<and> is_safe_route_line (trim l)")
    case True
    then have "good_line (trim l) (line_words (trim l))"
      using trim_ends by (intro safe_route_good_line(1)) auto
    then have "tokenize (trim l) = Inr (line_words (trim l))" "line_words (trim l) \<noteq> []"
      by (simp_all add: good_line_def)
    then show ?thesis using True Cons
      by (cases "line_words (trim l)")
         (simp_all add: ie_is_safe_route_line_eq entry_directive_def directive_of_def push_opt_def)
  qed (use Cons in \<open>auto simp: ie_is_safe_route_line_eq Let_def\<close>)
qed simp

lemma dirs_routes: "dirs (map Raw (route_list data)) = fd_routes data"
  unfolding route_list_def fd_routes_def nm_get_fun
  by (cases "get data ''nm-openvpn3-extra-routes''") (simp_all only: option.case dirs_route_lines list.map)

lemma dirs_head:
  assumes "get data ''remote'' = Some gateways"
  shows "dirs (client_entries data @ map (\<lambda>gw. Words (remote_words gw)) (remote_list gateways)
     @ flags_entries data) = fd_head data"
  using assms dirs_remotes [of "split_on is_remote_sep gateways"]
  by (simp add: fd_head_def client_entries_def flags_entries_def remote_list_def nm_get_fun
      is_tls_like_def dirs_fd_flag push_flag_def is_remote_sep_def [abs_def] del: map_map)

lemma dirs_certs:
  assumes "connect_collapse data \<Longrightarrow> get data ''ca'' = get data ''cert''"
  shows "dirs (cert_entries (connect_collapse data) data) = fd_certs data"
proof -
  let ?c = "get data ''cert''" and ?k = "get data ''key''" and ?a = "get data ''ca''"
  show ?thesis
    using assms
    unfolding fd_certs_def cert_entries_def nm_get_fun ie_is_pkcs12_path_eq connect_collapse_def
      is_tls_like_def needs_user_cert_def
    by (cases ?c; cases ?k; cases ?a) (auto simp: Let_def dirs_str fd_opt_def push_opt_def)
qed

lemma dirs_auth: "dirs (auth_entries data) = fd_auth data"
  by (auto simp: Let_def auth_entries_def fd_auth_def nm_get_fun is_password_like_def push_flag_def push_opt_def
      opt_list_def split: option.split)

lemma dirs_compress: "dirs (compress_entries data) = fd_compress data"
  by (auto simp: compress_entries_def fd_compress_def nm_get_fun dirs_str fd_opt_def push_flag_def
      push_opt_def split: option.split)

lemma dirs_dev: "dirs (dev_entries data) = fd_dev data"
  unfolding dev_entries_def fd_dev_def chosen_dev_def nm_get_fun
  by (simp add: dirs_str push_opt_def)

lemma dirs_proxy: "dirs (proxy_entries data) = fd_proxy data"
  by (simp add: proxy_entries_def fd_proxy_def proxy_entry_def nm_get_fun dirs_flag push_opt_def
      split: option.split)

lemma dirs_tail: "dirs (map Words tail_words) = fd_tail"
  by (simp add: tail_words_def fd_tail_def push_flag_def push_opt_def)

definition mssfix_ok :: "dict \<Rightarrow> bool" where
  "mssfix_ok data \<longleftrightarrow> (case get data ''mssfix'' of
       Some v \<Rightarrow> v = ''yes'' \<or> (\<exists>n. parse_i64 v = Some n \<and> show_int n = v) | None \<Rightarrow> True)"

lemma dirs_mtu:
  assumes "mssfix_ok data"
  shows "dirs (flag_entry data ''float'' ''float'' @ mssfix_entries data @ ifconfig_entries data) = fd_mtu data"
  using assms
  by (auto simp: fd_mtu_def mssfix_entries_def mssfix_ok_def ifconfig_entries_def nm_get_fun dirs_fd_flag
      push_opt_def push_flag_def split: option.splits)

lemma x509_eq: "fd_x509 x = x509_words x"
  by (auto simp: fd_x509_def x509_words_def split: option.split)

lemma dirs_case:
  "dirs (case v of Some x \<Rightarrow> [Words (t # f x)] | None \<Rightarrow> []) =
     (case v of Some x \<Rightarrow> push_opt t (f x) | None \<Rightarrow> [])"
  by (simp add: push_opt_def split: option.split)

lemma opt_list_case: "opt_list v = (case v of Some x \<Rightarrow> [x] | None \<Rightarrow> [])"
  by (rule opt_list_def)

definition crl_directives :: "dict \<Rightarrow> directive list" where
  "crl_directives data =
     (case get data ''crl-verify-file'' of
        Some file \<Rightarrow> push_opt ''crl-verify'' [file]
      | None \<Rightarrow>
          (case get data ''crl-verify-dir'' of
             Some dir \<Rightarrow> push_opt ''crl-verify'' [dir, ''dir''] | None \<Rightarrow> []))"

lemma dirs_crl:
  "dirs (crl_entries data) =
     (if is_tls_like (get data ''connection-type'') then crl_directives data else [])"
  by (simp add: crl_entries_def crl_directives_def push_opt_def split: option.split)

lemma dirs_tls_crl:
  "mset (dirs (tls_entries data)) + mset (dirs (crl_entries data)) = mset (fd_tls data)"
proof (cases "is_tls_like (get data ''connection-type'')")
  case True
  then have ct: "get data ''connection-type'' \<in> {Some ''tls'', Some ''password'', Some ''password-tls''}"
    by (simp add: is_tls_like_def)
  have fd: "mset (fd_tls data) = mset (crl_directives data) + mset (fd_pairs data tls_pairs)
     + mset (fd_opt ''tls-crypt'' (get data ''tls-crypt''))
     + mset (fd_opt ''tls-crypt-v2'' (get data ''tls-crypt-v2''))
     + mset (case get data ''verify-x509-name'' of
               Some x \<Rightarrow> push_opt ''verify-x509-name'' (x509_words x) | None \<Rightarrow> [])
     + mset (case get data ''ta'' of
               Some ta \<Rightarrow> push_opt ''tls-auth'' (ta # opt_list (get data ''ta-dir'')) | None \<Rightarrow> [])
     + mset (case get data ''tls-version-min'' of
               Some v \<Rightarrow> push_opt ''tls-version-min''
                 (v # (if get data ''tls-version-min-or-highest'' = Some ''yes''
                       then [''or-highest''] else [])) | None \<Rightarrow> [])"
    unfolding fd_tls_def nm_get_fun if_P [OF ct] crl_directives_def [symmetric] x509_eq
      opt_list_case [symmetric] append.simps mset_append
    by (simp only: ac_simps)
  show ?thesis
    unfolding fd
    by (simp only: dirs_crl tls_entries_def True if_True append.simps map_append dirs_case dirs_str
        fd_pairs_def tls_pairs_def nm_get_fun list.map prod.case concat.simps append_Nil2 mset_append
        ac_simps)
next
  case False
  then show ?thesis
    by (auto simp: tls_entries_def crl_entries_def fd_tls_def is_tls_like_def nm_get_fun)
qed


lemma fd_pairs_simps:
  "fd_pairs data [] = []" "fd_pairs data ((k, tag) # ks) = fd_opt tag (get data k) @ fd_pairs data ks"
  by (simp_all add: fd_pairs_def nm_get_fun)

lemma dirs_strs: "dirs (str_entries data ks) = fd_pairs data ks"
  by (induction ks) (auto simp: str_entries_def fd_pairs_simps dirs_str)

lemma dirs_ints: "\<forall>(k, tag) \<in> set ks. int_ok data k \<Longrightarrow> dirs (int_entries data ks) = fd_pairs data ks"
  by (induction ks) (auto simp: int_entries_def fd_pairs_simps dirs_int)

text \<open>The keys the connect side parses as an integer before it emits them.\<close>

definition INT_KEYS :: "str list" where
  "INT_KEYS = [''reneg-seconds'', ''max-routes'', ''keysize'', ''tunnel-mtu'', ''connect-timeout'',
     ''fragment-size'', ''port'', ''ping'', ''ping-exit'', ''ping-restart'']"

text \<open>What the agreement asks of a dictionary: integers where the connect side parses
  one, and the same bundle in all three slots where it collapses a PKCS#12 pair.\<close>

definition emitters_comparable :: "dict \<Rightarrow> bool" where
  "emitters_comparable data \<longleftrightarrow> list_all (int_ok data) INT_KEYS \<and> mssfix_ok data
     \<and> (connect_collapse data \<longrightarrow> get data ''ca'' = get data ''cert'')"

lemma dirs_before_routes:
  assumes "emitters_comparable data" and "get data ''remote'' = Some gateways"
  shows "mset (dirs (before_routes data gateways)) + mset (dirs (tls_entries data)) =
    mset (fd_head data) + mset (fd_certs data) + mset (fd_auth data) + mset (fd_pairs data pairs_str)
    + mset (fd_compress data) + mset (fd_mtu data) + mset (fd_tls data) + mset (fd_dev data)"
proof -
  have ok: "int_ok data k" if "k \<in> set INT_KEYS" for k
    using assms(1) that by (auto simp: emitters_comparable_def list_all_iff)
  have ints: "dirs (int_entries data ks) = fd_pairs data ks" if "fst ` set ks \<subseteq> set INT_KEYS" for ks
    using that ok by (intro dirs_ints) force
  have m: "mssfix_ok data" and c: "fd_certs data = dirs (cert_entries (connect_collapse data) data)"
    using assms(1) by (auto simp: emitters_comparable_def intro!: dirs_certs [symmetric])
  note blocks = dirs_head [OF assms(2), symmetric] c dirs_auth [symmetric]
    dirs_compress [symmetric] dirs_mtu [OF m, symmetric] dirs_tls_crl [symmetric] dirs_dev [symmetric]
  have p: "mset (fd_pairs data pairs_str) =
     mset (dirs (int_entries data [(''reneg-seconds'', ''reneg-sec''), (''max-routes'', ''max-routes'')]))
     + mset (dirs (str_entries data [(''cipher'', ''cipher''), (''data-ciphers'', ''data-ciphers''),
         (''data-ciphers-fallback'', ''data-ciphers-fallback''), (''tls-cipher'', ''tls-cipher''),
         (''auth'', ''auth'')]))
     + mset (dirs (int_entries data [(''keysize'', ''keysize'')]))
     + mset (dirs (str_entries data [(''allow-compression'', ''allow-compression'')]))
     + mset (dirs (str_entries data [(''mtu-disc'', ''mtu-disc'')]))
     + mset (dirs (int_entries data [(''tunnel-mtu'', ''tun-mtu''), (''connect-timeout'', ''connect-timeout''),
         (''fragment-size'', ''fragment'')]))
     + mset (dirs (int_entries data [(''port'', ''port''), (''ping'', ''ping''), (''ping-exit'', ''ping-exit''),
         (''ping-restart'', ''ping-restart'')]))"
    by (simp add: ints INT_KEYS_def dirs_strs)
       (simp only: pairs_str_def fd_pairs_simps mset_append append_Nil2 ac_simps)
  show ?thesis
    unfolding blocks p before_routes_def map_append mset_append by (simp only: ac_simps)
qed

lemma emitters_agree:
  assumes "build_profile_string data secrets = Inr out" and "emitters_comparable data"
  shows "\<exists>ds. parse_directives out = Inr ds \<and> mset ds = mset (from_nm_data data)"
proof -
  from assms(1) obtain gateways where g: "get data ''remote'' = Some gateways"
    "parse_directives out = Inr (dirs (connect_entries data gateways))"
    by (rule connect_text_parses)
  have "mset (dirs (connect_entries data gateways)) = mset (from_nm_data data)"
    using dirs_before_routes [OF assms(2) g(1)] 
    by (simp add: connect_entries_def connect_body_def from_nm_data_def dirs_routes dirs_proxy dirs_tail ac_simps
        del: map_map)
  with g(2) show ?thesis by blast
qed

text \<open>
  C6: The connect-side emitter and the export-side emitter agree: for every
  dictionary with integers in the integer fields (and one bundle in all three slots
  if it is a PKCS#12 bundle), parsing the text that \<open>build_profile_string\<close> sends
  to openvpn3 gives the directives of \<open>from_nm_data\<close>, up to their order.
\<close>

theorem cross_emitter_agreement:
  assumes "build_profile_string data secrets = Inr out" and "emitters_comparable data"
  shows "\<exists>ds. parse_directives out = Inr ds \<and> mset ds = mset (from_nm_data data)"
  by (rule emitters_agree [OF assms])

definition example_vpn :: dict where
  "example_vpn = [''connection-type'' \<mapsto> ''password-tls'', ''remote'' \<mapsto> ''vpn.example.com:443:tcp, [fe80::1]'',
     ''ca'' \<mapsto> ''/etc/my ca.pem'', ''cert'' \<mapsto> ''/c.pem'', ''key'' \<mapsto> ''/k.pem'', ''port'' \<mapsto> ''1194'',
     ''mssfix'' \<mapsto> ''1450'', ''ta'' \<mapsto> ''/ta.key'', ''ta-dir'' \<mapsto> ''1'',
     ''nm-openvpn3-extra-routes'' \<mapsto> ''route 10.0.0.0 255.0.0.0'']"

lemma cross_emitter_agreement_witness:
  "\<exists>out ds. build_profile_string example_vpn Map.empty = Inr out \<and> parse_directives out = Inr ds
     \<and> mset ds = mset (from_nm_data example_vpn)"
proof -
  have n: "parse_i64 ''1450'' = Some 1450" "show_int 1450 = ''1450''" "parse_i64 ''1194'' = Some 1194"
    by code_simp+
  have ok: "emitters_comparable example_vpn"
    by (simp add: emitters_comparable_def int_ok_def mssfix_ok_def INT_KEYS_def example_vpn_def get_def
        arg_is_set_def nonempty_def connect_collapse_def n)
  have "get example_vpn ''remote'' \<noteq> None"
    by (simp add: example_vpn_def get_def arg_is_set_def nonempty_def)
  then obtain out where "build_profile_string example_vpn Map.empty = Inr out"
    by (auto simp: build_profile_text)
  with cross_emitter_agreement [OF this ok] show ?thesis by blast
qed

definition example_bad_port :: dict where
  "example_bad_port = [''remote'' \<mapsto> ''vpn'', ''port'' \<mapsto> ''auto'']"

text \<open>
  Outside that set the two emitters differ: a port that is no integer is dropped
  on the way to openvpn3 but written to an exported file.
\<close>

theorem emitters_differ_on_bad_port:
  "\<exists>out ds. build_profile_string example_bad_port Map.empty = Inr out \<and> parse_directives out = Inr ds
     \<and> Option ''port'' [''auto''] \<in> set (from_nm_data example_bad_port)
     \<and> Option ''port'' [''auto''] \<notin> set ds"
proof -
  have r: "get example_bad_port ''remote'' = Some ''vpn''"
    by (simp add: example_bad_port_def get_def arg_is_set_def nonempty_def)
  then obtain out where o: "build_profile_string example_bad_port Map.empty = Inr out"
    by (auto simp: build_profile_text)
  then have p: "parse_directives out = Inr (dirs (connect_entries example_bad_port ''vpn''))"
    using r by (auto elim: connect_text_parses)
  have "Option ''port'' [''auto''] \<notin> set (dirs (connect_entries example_bad_port ''vpn''))" by code_simp
  moreover have "Option ''port'' [''auto''] \<in> set (from_nm_data example_bad_port)" by code_simp
  ultimately show ?thesis using o p by blast
qed

text \<open>
  The helpers that the two crates keep as copies of each other compute the same
  functions: the \<open>vpn.data\<close> lookup, the PKCS#12 test, the route allow-list, the
  splitting of a remote and the quoting of an argument.
\<close>

theorem duplicated_helpers_agree:
  "nm_get data k = get data k \<and> ie_is_pkcs12_path p = is_pkcs12_path p
   \<and> ie_is_safe_route_line l = is_safe_route_line l \<and> split_remote gw = parse_remote gw
   \<and> ie_push_escaped out v = push_escaped out v"
  by (simp add: copy_eqs ie_push_escaped_eq)

end
