(* ===== verification/Nm_Roundtrip.thy ===== *)
theory Nm_Roundtrip
  imports Cross_Emitter
begin

text \<open>
  Export followed by import at the level of \<open>vpn.data\<close>: what of a dictionary
  \<open>as_nm_data\<close> recovers from the directives of \<open>from_nm_data\<close> (one remote entry, the
  scalar settings, the connection type).
\<close>

section \<open>One remote\<close>

lemma split_once_None: "d \<notin> set a \<Longrightarrow> split_once d a = None"
  by (induction a) auto

text \<open>
  The two directions of a remote are inverse: what \<open>as_nm_data\<close> packs into one
  \<open>host:port:proto\<close> entry, with brackets around an IPv6 host, \<open>split_remote\<close> takes
  apart again.
\<close>

theorem split_encode_remote:
  assumes "host \<noteq> []" and "CHR ''['' \<notin> set host" and "CHR '']'' \<notin> set host"
    and "\<forall>p. port = Some p \<longrightarrow> p \<noteq> [] \<and> CHR '':'' \<notin> set p"
    and "\<forall>p. proto = Some p \<longrightarrow> p \<noteq> []"
  shows "split_remote (encode_remote host port proto) = (host, port, proto)"
proof -
  have nb: "\<not> starts_with host ''[''" using assms(1,2) by (cases host) (auto simp: starts_with_def)
  have sp: "strip_prefix ''['' (host @ r) = None" for r
    using assms(1,2) by (cases host) auto
  show ?thesis
  proof (cases "CHR '':'' \<in> set host")
    case True
    then show ?thesis
      using assms nb
      by (cases port; cases proto)
         (auto simp: split_remote_def encode_remote_def Let_def split_once_append split_once_None
            nth_opt_def nonempty_def numeral_2_eq_2)
  next
    case False
    then show ?thesis
      using assms nb sp sp [of "[]"]
      by (cases port; cases proto)
         (auto simp: split_remote_def encode_remote_def Let_def split_once_append split_once_None
            nth_opt_def nonempty_def numeral_3_eq_3)
  qed
qed

lemma split_encode_remote_witness:
  "split_remote (encode_remote ''fe80::1'' None (Some ''tcp'')) = (''fe80::1'', None, Some ''tcp'')"
  by (rule split_encode_remote) auto

section \<open>Scalar settings\<close>

definition hit :: "str \<Rightarrow> directive \<Rightarrow> str list" where
  "hit k d = (case d of
      Option n (a # _) \<Rightarrow> if map_of simple_arms n = Some k then [a] else [] | _ \<Rightarrow> [])"

definition hits :: "str \<Rightarrow> directive list \<Rightarrow> str list" where
  "hits k ds = concat (map (hit k) ds)"

lemma hits_simps [simp]:
  "hits k [] = []" "hits k (d # ds) = hit k d @ hits k ds" "hits k (xs @ ys) = hits k xs @ hits k ys"
  by (simp_all add: hits_def)

definition SCALAR_KEYS :: "str list" where
  "SCALAR_KEYS = [''port'', ''cipher'', ''data-ciphers'', ''data-ciphers-fallback'', ''auth'', ''keysize'',
     ''tls-cipher'', ''tunnel-mtu'', ''fragment-size'', ''ping'', ''ping-exit'', ''ping-restart'',
     ''reneg-seconds'', ''connect-timeout'', ''allow-compression'', ''dev-type'']"

definition TLS_KEYS :: "str list" where
  "TLS_KEYS = [''ns-cert-type'', ''remote-cert-tls'', ''tls-remote'', ''tls-version-max'', ''tls-crypt'',
     ''tls-crypt-v2'', ''extra-certs'']"

lemmas scan_defs = scan_option_def put_opt_def put_def scan_proto_def scan_remote_def append_entry_def
  scan_comp_lzo_def scan_x509_def scan_tls_version_min_def scan_cert_def scan_secret_def
  scan_tls_auth_def scan_crl_def scan_proxy_def scan_pair_def

lemma scan_option_key:
  assumes "k \<in> set SCALAR_KEYS \<union> set TLS_KEYS" and "n \<noteq> ''keepalive''"
    and "map_of simple_arms n = None"
  shows "sdata (scan_option n args s) k = sdata s k"
proof -
  let ?special = "[''proto-tcp'', ''remote'', ''mssfix'', ''comp-lzo'', ''compress'', ''verify-x509-name'',
    ''tls-version-min'', ''tls-version-min-or-highest'', ''ca'', ''cert'', ''key'', ''static-key'',
    ''static-key-direction'', ''ta'', ''ta-dir'', ''crl-verify-dir'', ''crl-verify-file'', ''proxy-server'',
    ''proxy-type'', ''proxy-port'', ''http-proxy-auth-file'', ''local-ip'', ''remote-ip'',
    ''nm-openvpn3-extra-routes''] @ flag_arms"
  have "list_all (\<lambda>k. k \<notin> set ?special) (SCALAR_KEYS @ TLS_KEYS)" by code_simp
  then have k: "k \<notin> set ?special" using assms(1) unfolding list_all_iff set_append by blast
  show ?thesis
  proof (cases "n \<in> set flag_arms")
    case True
    with k assms(3) show ?thesis by (auto simp: scan_option_def put_def)
  next
    case False
    with k assms(2,3) show ?thesis by (simp add: scan_defs Let_def split: option.split)
  qed
qed

lemma scan_directive_key:
  assumes "k \<in> set SCALAR_KEYS \<union> set TLS_KEYS" and "dname d \<noteq> ''keepalive''"
  shows "sdata (scan_directive s d) k = (if hit k d = [] then sdata s k else Some (last (hit k d)))"
proof (cases d)
  case (Option n args)
  show ?thesis
  proof (cases "map_of simple_arms n")
    case None
    then show ?thesis using assms Option scan_option_key [OF assms(1) _ None]
      by (simp add: hit_def split: list.split)
  next
    case (Some kk)
    then show ?thesis using Option
      by (cases args) (auto simp: scan_option_def put_opt_def put_def nth_opt_def hit_def)
  qed
qed (simp add: scan_blob_def hit_def)

lemma scan_key:
  assumes "k \<in> set SCALAR_KEYS \<union> set TLS_KEYS" and "\<forall>d \<in> set ds. dname d \<noteq> ''keepalive''"
  shows "sdata (foldl scan_directive s ds) k = (if hits k ds = [] then sdata s k else Some (last (hits k ds)))"
  using assms(2) by (induction ds arbitrary: s) (simp_all add: scan_directive_key [OF assms(1)])

lemma resolve_key:
  assumes "k \<in> set SCALAR_KEYS \<union> set TLS_KEYS"
  shows "resolve_key_direction s k = sdata s k"
proof -
  have "list_all (\<lambda>k. k \<noteq> ''ta-dir'' \<and> k \<noteq> ''static-key-direction'') (SCALAR_KEYS @ TLS_KEYS)" by code_simp
  then have "k \<noteq> ''ta-dir'' \<and> k \<noteq> ''static-key-direction''"
    using assms unfolding list_all_iff set_append by blast
  then show ?thesis by (simp add: resolve_key_direction_def or_insert_def split: option.split)
qed

text \<open>Preserved route lines name no other option.\<close>

lemma route_directive_names:
  assumes "d \<in> set (fd_routes data)"
  shows "\<exists>n args. d = Option n args \<and> first_word n \<in> set ALLOWED_ROUTES"
proof -
  from assms obtain l where l: "l \<in> set (route_list data)" "d = entry_directive (Raw l)"
    by (auto simp: dirs_routes [symmetric])
  with safe_route_good_line(2) [OF route_list_safe [OF l(1)]] show ?thesis
    by (simp add: entry_directive_def directive_of_def)
qed

lemma allowed_not_simple:
  assumes "first_word n \<in> set ALLOWED_ROUTES"
  shows "map_of simple_arms n = None" "n \<noteq> ''keepalive''"
proof -
  have "list_all (\<lambda>n. first_word n \<notin> set ALLOWED_ROUTES) (''keepalive'' # map fst simple_arms)" by code_simp
  then have "n \<notin> set (''keepalive'' # map fst simple_arms)" using assms unfolding list_all_iff by blast
  then show "map_of simple_arms n = None" "n \<noteq> ''keepalive''" by (auto simp: map_of_eq_None_iff)
qed

lemma hits_routes: "hits k (fd_routes data) = []"
  using route_directive_names allowed_not_simple
  by (fastforce simp: hits_def hit_def split: list.split)

lemma hits_fd_opt: "hits k (fd_opt tag v) = (if map_of simple_arms tag = Some k then opt_list v else [])"
  by (simp add: fd_opt_def push_opt_def hit_def split: option.split)

lemma map_of_simple_none:
  "n \<notin> set (map fst simple_arms) \<Longrightarrow> map_of simple_arms n = None"
  by (simp add: map_of_eq_None_iff)

text \<open>Blocks none of whose directives has a simple arm in \<open>as_nm_data\<close>.\<close>

definition avoids :: "str list \<Rightarrow> directive list \<Rightarrow> bool" where
  "avoids N ds \<longleftrightarrow> (\<forall>d \<in> set ds. dname d \<notin> set N)"

lemma avoids_simps:
  "avoids N []" "avoids N (d # ds) \<longleftrightarrow> dname d \<notin> set N \<and> avoids N ds"
  "avoids N (xs @ ys) \<longleftrightarrow> avoids N xs \<and> avoids N ys"
  by (auto simp: avoids_def)

lemma avoids_remotes: "''remote'' \<notin> set N \<Longrightarrow> avoids N (fd_remotes gws)"
  by (induction gws rule: fd_remotes.induct)
     (auto simp: Let_def push_opt_def avoids_simps split: prod.split)

lemmas avoids_defs = avoids_simps avoids_remotes fd_flag_def push_flag_def push_opt_def fd_opt_def Let_def

abbreviation no_simple :: "directive list \<Rightarrow> bool" where
  "no_simple \<equiv> avoids (''keepalive'' # map fst simple_arms)"

lemma names_blocks:
  "no_simple (fd_head data)" "no_simple (fd_certs data)" "no_simple (fd_auth data)"
  "no_simple (fd_compress data)" "no_simple (fd_mtu data)" "no_simple (fd_proxy data)"
  "no_simple fd_tail"
  by (simp_all add: fd_head_def fd_certs_def fd_auth_def fd_compress_def fd_mtu_def fd_proxy_def
      fd_tail_def avoids_defs simple_arms_def split: option.split)

lemma hits_none:
  assumes "no_simple ds"
  shows "hits k ds = []"
  using assms map_of_simple_none
  by (induction ds) (auto simp: avoids_simps hit_def split: directive.split list.split)

lemma hits_blocks:
  "hits k (fd_head data) = []" "hits k (fd_certs data) = []" "hits k (fd_auth data) = []"
  "hits k (fd_compress data) = []" "hits k (fd_mtu data) = []" "hits k (fd_proxy data) = []"
  "hits k fd_tail = []"
  by (intro hits_none names_blocks)+

definition key_hits :: "dict \<Rightarrow> str \<Rightarrow> str \<Rightarrow> str list" where
  "key_hits data k key = (if key = k then opt_list (get data key) else [])"

lemma hits_pairs:
  assumes "\<forall>(key, tag) \<in> set ks. map_of simple_arms tag = (if key \<in> {''max-routes'', ''mtu-disc''} then None else Some key)"
  shows "hits k (fd_pairs data ks) =
     concat (map (\<lambda>(key, tag). if key \<in> {''max-routes'', ''mtu-disc''} then [] else key_hits data k key) ks)"
  using assms by (induction ks) (auto simp: fd_pairs_simps hits_fd_opt key_hits_def split: if_splits)

lemma pairs_arms:
  "\<forall>(key, tag) \<in> set (pairs_str @ tls_pairs).
     map_of simple_arms tag = (if key \<in> {''max-routes'', ''mtu-disc''} then None else Some key)"
  by (simp add: pairs_str_def tls_pairs_def simple_arms_def)

lemma hits_case:
  "map_of simple_arms n = None \<Longrightarrow>
   hits k (case v of Some x \<Rightarrow> push_opt n (f x) | None \<Rightarrow> []) = []"
  by (simp add: push_opt_def hit_def split: option.split list.split)

lemma hits_crl: "hits k (crl_directives data) = []"
  by (simp add: crl_directives_def push_opt_def hit_def simple_arms_def split: option.split)

lemma hits_tls:
  "hits k (fd_tls data) =
     (if is_tls_like (get data ''connection-type'') then
        key_hits data k ''tls-crypt'' @ key_hits data k ''tls-crypt-v2'' @ hits k (fd_pairs data tls_pairs)
      else [])"
proof -
  have n: "map_of simple_arms ''verify-x509-name'' = None" "map_of simple_arms ''tls-auth'' = None"
    "map_of simple_arms ''tls-version-min'' = None"
    "map_of simple_arms ''tls-crypt'' = Some ''tls-crypt''"
    "map_of simple_arms ''tls-crypt-v2'' = Some ''tls-crypt-v2''"
    by (simp_all add: simple_arms_def)
  show ?thesis
    unfolding fd_tls_def nm_get_fun crl_directives_def [symmetric] append.simps
    by (simp add: hits_case n hits_fd_opt key_hits_def is_tls_like_def hits_crl)
qed

lemma hits_dev:
  "k \<noteq> ''dev'' \<Longrightarrow> hits k (fd_dev data) = key_hits data k ''dev-type''"
  by (simp add: fd_dev_def push_opt_def hits_fd_opt nm_get_fun key_hits_def hit_def simple_arms_def)

lemma no_keepalive: "\<forall>d \<in> set (from_nm_data data). dname d \<noteq> ''keepalive''"
proof -
  have "\<forall>d \<in> set (fd_routes data). dname d \<noteq> ''keepalive''"
    using route_directive_names allowed_not_simple(2) by fastforce
  moreover have "\<forall>d \<in> set (fd_pairs data ks). dname d \<in> snd ` set ks" for ks
    by (induction ks) (auto simp: fd_pairs_simps fd_opt_def push_opt_def split: option.splits)
  then have "\<forall>d \<in> set (fd_pairs data pairs_str @ fd_pairs data tls_pairs). dname d \<noteq> ''keepalive''"
    by (fastforce simp: pairs_str_def tls_pairs_def)
  moreover have "\<forall>d \<in> set (fd_tls data). dname d \<noteq> ''keepalive'' \<or> d \<in> set (fd_pairs data tls_pairs)"
    by (auto simp: fd_tls_def fd_opt_def push_opt_def split: option.splits)
  moreover have "\<forall>d \<in> set (fd_dev data). dname d \<noteq> ''keepalive''"
    by (auto simp: fd_dev_def fd_opt_def push_opt_def split: option.splits)
  ultimately show ?thesis
    using names_blocks(1-6) [of data] names_blocks(7) unfolding from_nm_data_def set_append ball_Un avoids_def
    by auto
qed

lemma scalar_hits:
  assumes "k \<in> set SCALAR_KEYS \<union> set TLS_KEYS"
  shows "hits k (from_nm_data data) = 
    (if k \<in> set TLS_KEYS \<and> \<not> is_tls_like (get data ''connection-type'') then [] else opt_list (get data k))"
proof -
  have "k \<noteq> ''dev''" using assms by (auto simp: SCALAR_KEYS_def TLS_KEYS_def)
  moreover have "hits k (fd_pairs data pairs_str) =
     concat (map (\<lambda>(key, tag). if key \<in> {''max-routes'', ''mtu-disc''} then [] else key_hits data k key) pairs_str)"
    "hits k (fd_pairs data tls_pairs) = concat (map (\<lambda>(key, tag). key_hits data k key) tls_pairs)"
    using pairs_arms hits_pairs [of pairs_str k data] hits_pairs [of tls_pairs k data]
    by (simp_all add: tls_pairs_def pairs_str_def)
  ultimately have "hits k (from_nm_data data) =
    concat (map (\<lambda>(key, tag). if key \<in> {''max-routes'', ''mtu-disc''} then [] else key_hits data k key) pairs_str)
    @ (if is_tls_like (get data ''connection-type'') then
        key_hits data k ''tls-crypt'' @ key_hits data k ''tls-crypt-v2''
        @ concat (map (\<lambda>(key, tag). key_hits data k key) tls_pairs)
      else []) @ key_hits data k ''dev-type''"
    by (simp add: from_nm_data_def hits_blocks hits_routes hits_tls hits_dev)
  then show ?thesis
    using assms unfolding SCALAR_KEYS_def TLS_KEYS_def
    by (simp add: pairs_str_def tls_pairs_def) (elim disjE; simp add: key_hits_def)
qed

lemma scalar_roundtrip:
  assumes "k \<in> set SCALAR_KEYS \<union> set TLS_KEYS"
  shows "as_nm_data (from_nm_data data) k =
    (if k \<in> set TLS_KEYS \<and> \<not> is_tls_like (get data ''connection-type'') then None else get data k)"
proof -
  have "k \<noteq> ''connection-type''" using assms by (auto simp: SCALAR_KEYS_def TLS_KEYS_def)
  then show ?thesis
    using scan_key [OF assms no_keepalive, of nm_scan_init data] resolve_key [OF assms]
    by (simp add: as_nm_data_def Let_def scalar_hits [OF assms] opt_list_def split: option.split)
       (simp add: nm_scan_init_def)
qed




section \<open>The connection type\<close>

definition CRED_NAMES :: "str list" where
  "CRED_NAMES = [''secret'', ''cert'', ''key'', ''pkcs12'', ''auth-user-pass'']"

fun sets_cert :: "str list \<Rightarrow> directive \<Rightarrow> bool" where
  "sets_cert names (Option n args) = (n \<in> set names \<and> args \<noteq> [])"
| "sets_cert names (Blob n b) = (n = hd names)"

lemma scan_flags_step:
  "have_secret (scan_directive s d) = (have_secret s \<or> sets_cert [''secret''] d)"
  "have_cert (scan_directive s d) = (have_cert s \<or> sets_cert [''cert'', ''pkcs12''] d)"
  "have_key (scan_directive s d) = (have_key s \<or> sets_cert [''key'', ''pkcs12''] d)"
  "have_auth_user_pass (scan_directive s d) =
     (have_auth_user_pass s \<or> (\<exists>args. d = Option ''auth-user-pass'' args))"
proof -
  consider n args where "d = Option n args" "n \<in> set (map fst simple_arms) \<or> n \<in> set flag_arms"
    | n args where "d = Option n args" "n \<notin> set (map fst simple_arms)" "n \<notin> set flag_arms"
    | n b where "d = Blob n b" by (cases d) auto
  then have "have_secret (scan_directive s d) = (have_secret s \<or> sets_cert [''secret''] d)
    \<and> have_cert (scan_directive s d) = (have_cert s \<or> sets_cert [''cert'', ''pkcs12''] d)
    \<and> have_key (scan_directive s d) = (have_key s \<or> sets_cert [''key'', ''pkcs12''] d)
    \<and> have_auth_user_pass (scan_directive s d) =
       (have_auth_user_pass s \<or> (\<exists>args. d = Option ''auth-user-pass'' args))"
  proof cases
    case 1
    have "list_all (\<lambda>n. n \<notin> set CRED_NAMES) (map fst simple_arms @ flag_arms)" by code_simp
    then have "n \<notin> set CRED_NAMES" using 1(2) unfolding list_all_iff set_append by blast
    then have c: "n \<notin> {''secret'', ''cert'', ''key'', ''pkcs12'', ''auth-user-pass''}" by (simp add: CRED_NAMES_def)
    show ?thesis
    proof (cases "map_of simple_arms n")
      case None
      then have "n \<in> set flag_arms" using 1(2) by (auto simp: map_of_eq_None_iff)
      with None 1(1) c show ?thesis by (simp add: scan_option_def put_def)
    next
      case (Some k)
      with 1(1) c show ?thesis by (simp add: scan_option_def put_opt_def put_def split: option.split)
    qed
  next
    case 2
    then have "map_of simple_arms n = None" by (simp add: map_of_simple_none)
    with 2 show ?thesis
      by (cases args) (simp_all add: scan_defs nth_opt_def Let_def split: option.split)
  next
    case 3
    then show ?thesis by (simp add: scan_blob_def)
  qed
  then show "have_secret (scan_directive s d) = (have_secret s \<or> sets_cert [''secret''] d)"
    "have_cert (scan_directive s d) = (have_cert s \<or> sets_cert [''cert'', ''pkcs12''] d)"
    "have_key (scan_directive s d) = (have_key s \<or> sets_cert [''key'', ''pkcs12''] d)"
    "have_auth_user_pass (scan_directive s d) =
       (have_auth_user_pass s \<or> (\<exists>args. d = Option ''auth-user-pass'' args))"
    by blast+
qed

lemma scan_flags:
  "have_secret (foldl scan_directive s ds) = (have_secret s \<or> list_ex (sets_cert [''secret'']) ds)"
  "have_cert (foldl scan_directive s ds) = (have_cert s \<or> list_ex (sets_cert [''cert'', ''pkcs12'']) ds)"
  "have_key (foldl scan_directive s ds) = (have_key s \<or> list_ex (sets_cert [''key'', ''pkcs12'']) ds)"
  "have_auth_user_pass (foldl scan_directive s ds) =
     (have_auth_user_pass s \<or> list_ex (\<lambda>d. \<exists>args. d = Option ''auth-user-pass'' args) ds)"
  by (induction ds arbitrary: s) (auto simp: scan_flags_step)

text \<open>Only two blocks of the export name a credential.\<close>

lemma no_creds_pairs:
  assumes "\<forall>(k, tag) \<in> set ks. tag \<notin> set CRED_NAMES"
  shows "avoids CRED_NAMES (fd_pairs data ks)"
  using assms
  by (induction ks) (auto simp: fd_pairs_simps avoids_simps fd_opt_def push_opt_def split: option.split)

lemma no_creds_routes: "avoids CRED_NAMES (fd_routes data)"
proof -
  have "list_all (\<lambda>n. first_word n \<notin> set ALLOWED_ROUTES) CRED_NAMES" by code_simp
  then show ?thesis
    using route_directive_names unfolding list_all_iff avoids_def by fastforce
qed

lemma no_creds_blocks:
  "avoids CRED_NAMES (fd_head data)" "avoids CRED_NAMES (fd_pairs data pairs_str)"
  "avoids CRED_NAMES (fd_compress data)" "avoids CRED_NAMES (fd_mtu data)"
  "avoids CRED_NAMES (fd_tls data)" "avoids CRED_NAMES (fd_dev data)" "avoids CRED_NAMES (fd_proxy data)"
  "avoids CRED_NAMES fd_tail"
proof -
  have r: "avoids CRED_NAMES (fd_remotes gws)" for gws by (rule avoids_remotes) (simp add: CRED_NAMES_def)
  show "avoids CRED_NAMES (fd_head data)"
    by (simp add: fd_head_def avoids_defs r CRED_NAMES_def [symmetric] split: option.split)
       (simp add: CRED_NAMES_def)
  have "avoids CRED_NAMES (fd_pairs data tls_pairs)"
    by (rule no_creds_pairs) (simp add: tls_pairs_def CRED_NAMES_def)
  then show "avoids CRED_NAMES (fd_tls data)"
    by (simp add: fd_tls_def avoids_defs split: option.split) (simp add: CRED_NAMES_def)
  show "avoids CRED_NAMES (fd_pairs data pairs_str)"
    by (rule no_creds_pairs) (simp add: pairs_str_def CRED_NAMES_def)
qed (simp_all add: fd_compress_def fd_mtu_def fd_proxy_def fd_dev_def fd_tail_def avoids_defs
      CRED_NAMES_def split: option.split)

lemma avoids_list_ex:
  assumes "avoids CRED_NAMES ds" and "\<And>d. P d \<Longrightarrow> dname d \<in> set CRED_NAMES"
  shows "\<not> list_ex P ds"
  using assms by (auto simp: avoids_def list_ex_iff)

lemma list_ex_from_nm_data:
  assumes "\<And>d. P d \<Longrightarrow> dname d \<in> set CRED_NAMES"
  shows "list_ex P (from_nm_data data) \<longleftrightarrow> list_ex P (fd_certs data) \<or> list_ex P (fd_auth data)"
proof -
  note n = avoids_list_ex [of _ P, OF _ assms]
  show ?thesis
    using n [OF no_creds_blocks(1)] n [OF no_creds_blocks(2)] n [OF no_creds_blocks(3)]
      n [OF no_creds_blocks(4)] n [OF no_creds_blocks(5)] n [OF no_creds_blocks(6)]
      n [OF no_creds_blocks(7)] n [OF no_creds_blocks(8)] n [OF no_creds_routes]
    by (simp add: from_nm_data_def)
qed

lemma sets_cert_named:
  "sets_cert names d \<Longrightarrow> names \<noteq> [] \<Longrightarrow> dname d \<in> set names"
  by (cases d) auto

lemma creds_exported:
  "\<not> list_ex (sets_cert [''secret'']) (fd_certs data)"
  "list_ex (sets_cert [''secret'']) (fd_auth data) \<longleftrightarrow>
     get data ''connection-type'' = Some ''static-key'' \<and> get data ''static-key'' \<noteq> None"
  "list_ex (sets_cert [''cert'', ''pkcs12'']) (fd_certs data) \<longleftrightarrow>
     needs_user_cert (get data ''connection-type'') \<and> get data ''cert'' \<noteq> None"
  "list_ex (sets_cert [''key'', ''pkcs12'']) (fd_certs data) \<longleftrightarrow>
     needs_user_cert (get data ''connection-type'') \<and> get data ''key'' \<noteq> None"
  "\<not> list_ex (sets_cert [''cert'', ''pkcs12'']) (fd_auth data)"
  "\<not> list_ex (sets_cert [''key'', ''pkcs12'']) (fd_auth data)"
  "\<not> list_ex (\<lambda>d. \<exists>args. d = Option ''auth-user-pass'' args) (fd_certs data)"
  "list_ex (\<lambda>d. \<exists>args. d = Option ''auth-user-pass'' args) (fd_auth data) \<longleftrightarrow>
     is_password_like (get data ''connection-type'')"
  unfolding nm_get_fun fd_certs_def fd_auth_def Let_def push_opt_def push_flag_def fd_opt_def
    needs_user_cert_def is_password_like_def
  by (simp_all split: option.split)

definition contype_complete :: "dict \<Rightarrow> bool" where
  "contype_complete data \<longleftrightarrow>
     (let ct = get data ''connection-type''
      in ct = Some ''tls'' \<or> ct = Some ''password''
         \<or> (ct = Some ''password-tls'' \<and> get data ''cert'' \<noteq> None \<and> get data ''key'' \<noteq> None)
         \<or> (ct = Some ''static-key'' \<and> get data ''static-key'' \<noteq> None))"

text \<open>
  The authentication type, which a \<open>.ovpn\<close> file does not name, is inferred back
  from the exported directives: for a connection that has the credentials its type
  requires, \<open>as_nm_data\<close> finds the same \<open>connection-type\<close>.
\<close>

theorem connection_type_roundtrip:
  assumes "contype_complete data"
  shows "as_nm_data (from_nm_data data) ''connection-type'' = get data ''connection-type''"
proof -
  let ?s = "foldl scan_directive nm_scan_init (from_nm_data data)"
  let ?ct = "get data ''connection-type''"
  have ex: "list_ex (sets_cert ns) (from_nm_data data) \<longleftrightarrow>
      list_ex (sets_cert ns) (fd_certs data) \<or> list_ex (sets_cert ns) (fd_auth data)"
    if "ns \<noteq> []" "set ns \<subseteq> set CRED_NAMES" for ns
    using that sets_cert_named by (intro list_ex_from_nm_data) blast
  have au: "list_ex (\<lambda>d. \<exists>args. d = Option ''auth-user-pass'' args) (from_nm_data data) \<longleftrightarrow>
      list_ex (\<lambda>d. \<exists>args. d = Option ''auth-user-pass'' args) (fd_certs data)
      \<or> list_ex (\<lambda>d. \<exists>args. d = Option ''auth-user-pass'' args) (fd_auth data)"
    by (rule list_ex_from_nm_data) (auto simp: CRED_NAMES_def)
  have init: "\<not> have_secret nm_scan_init" "\<not> have_cert nm_scan_init" "\<not> have_key nm_scan_init"
    "\<not> have_auth_user_pass nm_scan_init"
    by (simp_all add: nm_scan_init_def)
  have hs: "have_secret ?s \<longleftrightarrow> ?ct = Some ''static-key'' \<and> get data ''static-key'' \<noteq> None"
    unfolding scan_flags by (subst ex) (auto simp: init creds_exported CRED_NAMES_def)
  have hc: "have_cert ?s \<longleftrightarrow> needs_user_cert ?ct \<and> get data ''cert'' \<noteq> None"
    unfolding scan_flags by (subst ex) (auto simp: init creds_exported CRED_NAMES_def)
  have hk: "have_key ?s \<longleftrightarrow> needs_user_cert ?ct \<and> get data ''key'' \<noteq> None"
    unfolding scan_flags by (subst ex) (auto simp: init creds_exported CRED_NAMES_def)
  have ha: "have_auth_user_pass ?s \<longleftrightarrow> is_password_like ?ct"
    unfolding scan_flags au by (auto simp: init creds_exported)
  have "Some (infer_contype ?s) = ?ct"
    using assms
    by (auto simp: contype_complete_def Let_def infer_contype_def hs hc hk ha is_password_like_def
        needs_user_cert_def)
  then show ?thesis by (simp add: as_nm_data_def Let_def)
qed

lemma connection_type_roundtrip_witness:
  "as_nm_data (from_nm_data example_vpn) ''connection-type'' = Some ''password-tls''"
  using connection_type_roundtrip [of example_vpn]
  by (simp add: contype_complete_def example_vpn_def get_def arg_is_set_def nonempty_def)

end
