(* ===== verification/Bridge.thy ===== *)
theory Bridge
  imports Nm_Roundtrip
begin

text \<open>
  \<open>nm-openvpn3-properties/src/bridge.rs\<close>: from an \<open>.ovpn\<close> file to a NetworkManager
  connection and back.  A connection is what the code hands to libnm (the last value per
  data item); the file system, the base64 decoder and libnm's allocation are the
  environment.  Paths are strings with the component rules of \<open>std::path\<close> on Unix.
\<close>

section \<open>std::path\<close>

datatype component = Root_Dir | Cur_Dir | Parent_Dir | Normal str

definition pieces :: "str \<Rightarrow> str list" where
  "pieces p = split_on (\<lambda>c. c = CHR ''/'') p"

fun piece_components :: "str list \<Rightarrow> component list" where
  "piece_components [] = []"
| "piece_components (x # xs) =
     (if x = [] \<or> x = ''.'' then piece_components xs
      else (if x = ''..'' then Parent_Dir else Normal x) # piece_components xs)"

definition path_components :: "str \<Rightarrow> component list" where
  "path_components p =
     (if starts_with p ''/'' then Root_Dir # piece_components (pieces p)
      else if hd (pieces p) = ''.'' then Cur_Dir # piece_components (tl (pieces p))
      else piece_components (pieces p))"

definition file_name :: "str \<Rightarrow> str option" where
  "file_name p =
     (if path_components p = [] then None
      else case last (path_components p) of Normal s \<Rightarrow> Some s | _ \<Rightarrow> None)"

definition file_stem :: "str \<Rightarrow> str option" where
  "file_stem p =
     map_option (\<lambda>s. case rsplit_once (CHR ''.'') s of
                        None \<Rightarrow> s | Some (before, _) \<Rightarrow> if before = [] then s else before) (file_name p)"

text \<open>\<open>Path::parent\<close>, on the pieces in reverse; the first piece of a path always counts.\<close>

fun drop_blank :: "str list \<Rightarrow> str list" where
  "drop_blank (x # y # r) = (if x = [] \<or> x = ''.'' then drop_blank (y # r) else x # y # r)"
| "drop_blank r = r"

definition path_parent :: "str \<Rightarrow> str option" where
  "path_parent p =
     (case drop_blank (rev (pieces p)) of
        [] \<Rightarrow> None
      | [x] \<Rightarrow> if x = [] then None else Some []
      | _ # y # r \<Rightarrow>
          (let q = drop_blank (y # r) in Some (if q = [[]] then ''/'' else join ''/'' (rev q))))"

definition parent_dir :: "str \<Rightarrow> str" where
  "parent_dir p = (case path_parent p of Some d \<Rightarrow> d | None \<Rightarrow> ''.'')"

text \<open>\<open>Path::join\<close> with a relative path.\<close>

definition join_path :: "str \<Rightarrow> str \<Rightarrow> str" where
  "join_path d f = (if d = [] then f else if last d = CHR ''/'' then d @ f else d @ ''/'' @ f)"

section \<open>The environment\<close>

datatype io_error = E_Loop | E_Invalid_Input | E_Other

record os_file =
  of_open :: "io_error option"
  of_stat :: "(bool \<times> nat) option"
  of_read :: "str option"

record bridge_env =
  be_new_connection :: bool
  be_home :: "str option"
  be_create_dir :: bool
  be_file :: "str \<Rightarrow> os_file"
  be_write :: "str \<Rightarrow> bool"
  be_base64 :: "str \<Rightarrow> str option"

text \<open>A string's bytes; a byte is a character.  \<open>CString::new\<close> fails on a NUL.\<close>

definition utf8_bytes :: "str \<Rightarrow> str" where
  "utf8_bytes s =
     concat (map (\<lambda>c. let n = of_char c :: nat
                      in if n < 128 then [c] else [char_of (192 + n div 64), char_of (128 + n mod 64)]) s)"

section \<open>Reading and writing files\<close>

definition secure_cert_dir :: "bridge_env \<Rightarrow> str option" where
  "secure_cert_dir env =
     (case be_home env of
        None \<Rightarrow> None
      | Some home \<Rightarrow>
          if be_create_dir env then Some (join_path (join_path home ''.cert'') ''nm-openvpn3'') else None)"

definition read_profile_securely :: "bridge_env \<Rightarrow> str \<Rightarrow> str option" where
  "read_profile_securely env path =
     (let f = be_file env path
      in if of_open f \<noteq> None then None
         else case of_stat f of
                None \<Rightarrow> None
              | Some (is_file, len) \<Rightarrow>
                  if \<not> is_file \<or> 1048576 < len then None
                  else case of_read f of
                         None \<Rightarrow> None
                       | Some content \<Rightarrow> if 1048576 < length (utf8_bytes content) then None else Some content)"

definition read_small_regular_file :: "bridge_env \<Rightarrow> str \<Rightarrow> nat \<Rightarrow> (io_error, str) result" where
  "read_small_regular_file env path max_bytes =
     (let f = be_file env path
      in case of_open f of
           Some e \<Rightarrow> Inl e
         | None \<Rightarrow>
             (case of_stat f of
                None \<Rightarrow> Inl E_Other
              | Some (is_file, len) \<Rightarrow>
                  if \<not> is_file \<or> max_bytes < len then Inl E_Invalid_Input
                  else case of_read f of
                         None \<Rightarrow> Inl E_Other
                       | Some content \<Rightarrow>
                           if max_bytes < length (utf8_bytes content) then Inl E_Invalid_Input else Inr content))"

section \<open>ovpn_text_to_connection\<close>

record nm_connection =
  con_id :: str
  con_type :: str
  ip4_method :: str
  service_type :: str
  vpn_items :: dict
  vpn_secret_items :: dict
  agent_owned :: "str list"

definition connection_new :: "str \<Rightarrow> nm_connection" where
  "connection_new cid =
     \<lparr>con_id = (if has_nul cid then ''openvpn3'' else cid), con_type = ''vpn'', ip4_method = ''auto'',
      service_type = ''org.freedesktop.NetworkManager.openvpn3'', vpn_items = Map.empty,
      vpn_secret_items = Map.empty, agent_owned = []\<rparr>"

definition first_two :: "str list \<Rightarrow> str \<times> str" where
  "first_two ls =
     (case nth_opt ls 0 of Some l \<Rightarrow> trim l | None \<Rightarrow> [],
      case nth_opt ls 1 of Some l \<Rightarrow> trim l | None \<Rightarrow> [])"

text \<open>The proxy credentials beside the \<open>.ovpn\<close>: \<open>vpn.data\<close> afterwards, and the connection.\<close>

definition resolve_authfile ::
  "bridge_env \<Rightarrow> str \<Rightarrow> dict \<Rightarrow> nm_connection \<Rightarrow> dict \<times> nm_connection" where
  "resolve_authfile env path data con =
     (case data ''http-proxy-auth-file'' of
        None \<Rightarrow> (data, con)
      | Some authfile \<Rightarrow>
          (let data = data(''http-proxy-auth-file'' := None)
           in if \<not> (case path_components authfile of [Normal _] \<Rightarrow> True | _ \<Rightarrow> False) then (data, con)
              else case read_small_regular_file env (join_path (parent_dir path) authfile) 16384 of
                     Inl e \<Rightarrow> (data, con)
                   | Inr contents \<Rightarrow>
                       (let (user, pass) = first_two (lines contents)
                        in (if user \<noteq> [] then data(''http-proxy-username'' \<mapsto> user) else data,
                            if pass \<noteq> [] \<and> \<not> has_nul pass
                            then con\<lparr>vpn_secret_items := (vpn_secret_items con)(''http-proxy-password'' \<mapsto> pass),
                                     agent_owned := agent_owned con @ [''http-proxy-password'']\<rparr>
                            else con))))"

definition add_item :: "str \<Rightarrow> str \<Rightarrow> nm_connection \<Rightarrow> nm_connection" where
  "add_item k v con = con\<lparr>vpn_items := (vpn_items con)(k \<mapsto> v)\<rparr>"

text \<open>The loop over \<open>vpn.data\<close>: an item with a NUL is skipped.\<close>

definition add_data :: "dict \<Rightarrow> nm_connection \<Rightarrow> nm_connection" where
  "add_data data con =
     con\<lparr>vpn_items := (\<lambda>k. case data k of
            Some v \<Rightarrow> if has_nul k \<or> has_nul v then vpn_items con k else Some v
          | None \<Rightarrow> vpn_items con k)\<rparr>"

definition id_safe :: "str \<Rightarrow> str" where
  "id_safe cid = map (\<lambda>c. if is_alphanumeric c then c else CHR ''_'') cid"

definition fnv1a :: "str \<Rightarrow> u32" where
  "fnv1a bytes = foldl (\<lambda>h b. (xor h (of_nat (of_char b))) * 0x01000193) 0x811c9dc5 bytes"

definition hex_digit :: "u32 \<Rightarrow> char" where
  "hex_digit d = (if d < 10 then char_of (48 + unat d) else char_of (87 + unat d))"

definition hex8 :: "u32 \<Rightarrow> str" where
  "hex8 h = map (\<lambda>i. hex_digit (and (drop_bit (4 * i) h) 15)) [7, 6, 5, 4, 3, 2, 1, 0]"

definition blob_filename :: "str \<Rightarrow> str \<Rightarrow> str" where
  "blob_filename cid name = id_safe cid @ ''-'' @ hex8 (fnv1a (utf8_bytes cid)) @ ''-'' @ name @ ''.pem''"

definition blob_bytes :: "bridge_env \<Rightarrow> str \<Rightarrow> str \<Rightarrow> str" where
  "blob_bytes env name body =
     (if name = ''pkcs12'' then
        (case be_base64 env (filter (\<lambda>c. \<not> is_whitespace c) body) of
           Some b \<Rightarrow> b | None \<Rightarrow> utf8_bytes body)
      else utf8_bytes body)"

definition blob_items :: "str \<Rightarrow> str \<Rightarrow> nm_connection \<Rightarrow> nm_connection" where
  "blob_items name path con =
     (if has_nul name \<or> has_nul path then con
      else let con = add_item name path con
           in if name = ''pkcs12'' then add_item ''key'' path (add_item ''cert'' path (add_item ''ca'' path con))
              else con)"

text \<open>The connection so far and the files written, path and bytes, oldest first.\<close>

fun import_blobs ::
  "bridge_env \<Rightarrow> str \<Rightarrow> directive list \<Rightarrow> nm_connection \<times> (str \<times> str) list \<Rightarrow> nm_connection \<times> (str \<times> str) list" where
  "import_blobs env cid [] acc = acc"
| "import_blobs env cid (Option n args # ds) acc = import_blobs env cid ds acc"
| "import_blobs env cid (Blob name body # ds) (con, files) =
     (case secure_cert_dir env of
        None \<Rightarrow> import_blobs env cid ds (con, files)
      | Some d \<Rightarrow>
          (let path = join_path d (blob_filename cid name)
           in if \<not> be_write env path then import_blobs env cid ds (con, files)
              else import_blobs env cid ds
                     (blob_items name path con, files @ [(path, blob_bytes env name body)])))"

datatype import_error = Import_Parse parse_error | Import_Null

definition pin_profile :: "str \<Rightarrow> nm_connection \<Rightarrow> nm_connection" where
  "pin_profile path con = (if has_nul path then con else add_item ''nm-openvpn3-profile'' path con)"

definition ovpn_text_to_connection ::
  "bridge_env \<Rightarrow> str \<Rightarrow> str \<Rightarrow> (import_error, nm_connection \<times> (str \<times> str) list) result" where
  "ovpn_text_to_connection env path txt =
     (case parse txt of
        Inl e \<Rightarrow> Inl (Import_Parse e)
      | Inr cfg \<Rightarrow>
          if \<not> be_new_connection env then Inl Import_Null
          else (let cid = (case file_stem path of Some s \<Rightarrow> s | None \<Rightarrow> ''openvpn3'');
                    (data, con) = resolve_authfile env path (as_nm_data cfg) (connection_new cid);
                    (con, files) = import_blobs env cid cfg (add_data data con, [])
                in Inr (pin_profile path con, files)))"

section \<open>connection_to_ovpn_text\<close>

text \<open>
  The exported text as the UTF-8 bytes a \<open>String\<close> holds: the dash of the first line is
  not a character of the model.
\<close>

definition EXPORT_BANNER :: "str list" where
  "EXPORT_BANNER =
     [''# Exported by NetworkManager-openvpn3 from vpn.data '' @ [CHR 0xE2, CHR 0x80, CHR 0x94] @ '' modern'',
      ''# openvpn3 options stored only in the original .ovpn (tls-crypt-v2,'',
      ''# peer-fingerprint, inline blobs) cannot be reconstructed and are'',
      ''# NOT included in this file.'']"

definition connection_to_ovpn_text :: "bridge_env \<Rightarrow> dict \<Rightarrow> str" where
  "connection_to_ovpn_text env data =
     (let fallback = concat (map (\<lambda>l. l @ [LF]) EXPORT_BANNER) @ utf8_bytes (emit (from_nm_data data))
      in case data ''nm-openvpn3-profile'' of
           None \<Rightarrow> fallback
         | Some profile_path \<Rightarrow>
             if profile_path = [] then fallback
             else case read_profile_securely env profile_path of
                    Some txt \<Rightarrow> utf8_bytes txt | None \<Rightarrow> fallback)"

section \<open>export_connection_to_path\<close>

text \<open>
  A file system, and how far the writes get: each flag is the outcome of one call;
  \<open>w_bytes\<close> is the number of bytes written before the write failed.
\<close>

type_synonym files = "str \<rightharpoonup> str"

record write_plan =
  w_unlink_ok :: bool
  w_create_ok :: bool
  w_bytes :: "nat option"
  w_sync_ok :: bool
  w_rename_ok :: bool
  w_cleanup_ok :: bool

definition write_blob_securely :: "write_plan \<Rightarrow> str \<Rightarrow> str \<Rightarrow> files \<Rightarrow> bool \<times> files" where
  "write_blob_securely plan path body fs =
     (if fs path \<noteq> None \<and> \<not> w_unlink_ok plan then (False, fs)
      else let fs = fs(path := None)
           in if \<not> w_create_ok plan then (False, fs)
              else case w_bytes plan of
                     Some n \<Rightarrow> (False, fs(path \<mapsto> take n body))
                   | None \<Rightarrow> (w_sync_ok plan, fs(path \<mapsto> body)))"

definition export_tmp_path :: "str \<Rightarrow> str" where
  "export_tmp_path path =
     join_path (parent_dir path)
       (case file_name path of Some n \<Rightarrow> ''.'' @ n @ ''.tmp'' | None \<Rightarrow> ''.export.tmp'')"

definition export_connection_to_path ::
  "bridge_env \<Rightarrow> write_plan \<Rightarrow> dict \<Rightarrow> str \<Rightarrow> files \<Rightarrow> bool \<times> files" where
  "export_connection_to_path env plan data path fs =
     (let txt = connection_to_ovpn_text env data;
          tmp = export_tmp_path path;
          (written, fs) = write_blob_securely plan tmp txt fs
      in if written \<and> w_rename_ok plan then (True, fs(tmp := None, path := fs tmp))
         else (False, if w_cleanup_ok plan then fs(tmp := None) else fs))"

section \<open>Paths that are put together\<close>

lemma split_on_concat: "P d \<Longrightarrow> split_on P (a @ d # r) = split_on P a @ split_on P r"
  by (induction a) (auto split: list.split)

lemma split_on_one: "d \<notin> set f \<Longrightarrow> split_on (\<lambda>c. c = d) f = [f]"
  by (rule split_on_no) auto

definition plain_file :: "str \<Rightarrow> bool" where
  "plain_file f \<longleftrightarrow> CHR ''/'' \<notin> set f \<and> f \<noteq> [] \<and> f \<noteq> ''.'' \<and> f \<noteq> ''..''"

lemma pieces_join:
  assumes "CHR ''/'' \<notin> set f" and "d \<noteq> []"
  shows "\<exists>ps. ps \<noteq> [] \<and> hd ps = hd (pieces d) \<and> pieces (join_path d f) = ps @ [f]"
proof (cases "last d = CHR ''/''")
  case True
  with assms(2) obtain d' where d: "d = d' @ [CHR ''/'']" by (metis append_butlast_last_id)
  have "pieces d = split_on (\<lambda>c. c = CHR ''/'') d' @ [[]]"
    by (simp add: pieces_def d split_on_concat)
  with assms(1) show ?thesis
    by (intro exI [of _ "split_on (\<lambda>c. c = CHR ''/'') d'"])
       (auto simp: join_path_def pieces_def d split_on_concat split_on_one)
next
  case False
  with assms show ?thesis
    by (intro exI [of _ "pieces d"]) (auto simp: join_path_def pieces_def split_on_concat split_on_one)
qed

lemma piece_components_snoc:
  "plain_file f \<Longrightarrow> piece_components (xs @ [f]) = piece_components xs @ [Normal f]"
  by (induction xs) (auto simp: plain_file_def)

lemma starts_with_slash: "starts_with p ''/'' \<longleftrightarrow> (\<exists>r. p = CHR ''/'' # r)"
  by (cases p) (auto simp: starts_with_def)

lemma components_plain: "plain_file f \<Longrightarrow> path_components f = [Normal f]"
  by (auto simp: plain_file_def path_components_def starts_with_slash pieces_def split_on_one)

lemma components_join:
  assumes "plain_file f"
  shows "\<exists>cs. path_components (join_path d f) = cs @ [Normal f]"
proof (cases "d = []")
  case True
  with assms components_plain show ?thesis by (intro exI [of _ "[]"]) (simp add: join_path_def)
next
  case False
  from assms have f: "CHR ''/'' \<notin> set f" by (simp add: plain_file_def)
  from pieces_join [OF this False] obtain ps where
    ps: "ps \<noteq> []" "pieces (join_path d f) = ps @ [f]" by blast
  then have "tl (ps @ [f]) = tl ps @ [f]" by simp
  then show ?thesis
    unfolding path_components_def ps(2) using piece_components_snoc [OF assms]
    by (auto simp: Let_def)
qed

lemma file_name_join: "plain_file f \<Longrightarrow> file_name (join_path d f) = Some f"
  using components_join [of f d] by (auto simp: file_name_def)

lemma pieces_no_slash: "x \<in> set (pieces p) \<Longrightarrow> CHR ''/'' \<notin> set x"
  unfolding pieces_def
proof (induction p arbitrary: x)
  case (Cons c p)
  then show ?case by (auto split: list.splits if_splits)
qed simp

lemma normal_plain: "Normal n \<in> set (piece_components ps) \<Longrightarrow> n \<in> set ps \<and> n \<noteq> [] \<and> n \<noteq> ''.'' \<and> n \<noteq> ''..''"
  by (induction ps) (auto split: if_splits)

lemma file_name_plain:
  assumes "file_name p = Some n"
  shows "plain_file n"
proof -
  from assms have "Normal n \<in> set (path_components p)"
    by (auto simp: file_name_def split: if_splits component.splits dest: last_in_set)
  then have "Normal n \<in> set (piece_components (pieces p)) \<or> Normal n \<in> set (piece_components (tl (pieces p)))"
    by (auto simp: path_components_def split: if_splits)
  then have "n \<in> set (pieces p) \<and> n \<noteq> [] \<and> n \<noteq> ''.'' \<and> n \<noteq> ''..''"
    using normal_plain by (metis list.sel(2) list.set_sel(2))
  with pieces_no_slash show ?thesis by (auto simp: plain_file_def)
qed

section \<open>Export is atomic\<close>

lemma tmp_name:
  assumes "file_name p = Some n"
  shows "plain_file (''.'' @ n @ ''.tmp'')"
  using file_name_plain [OF assms] by (auto simp: plain_file_def)

lemma export_tmp_differs: "export_tmp_path path \<noteq> path"
proof (cases "file_name path")
  case None
  have "plain_file ''.export.tmp''" by (simp add: plain_file_def)
  with None have "file_name (export_tmp_path path) = Some ''.export.tmp''"
    by (simp add: export_tmp_path_def file_name_join)
  with None show ?thesis by auto
next
  case (Some n)
  with tmp_name have "file_name (export_tmp_path path) = Some (''.'' @ n @ ''.tmp'')"
    by (simp add: export_tmp_path_def file_name_join)
  moreover have "length (''.'' @ n @ ''.tmp'') \<noteq> length n" by simp
  ultimately show ?thesis using Some by (metis option.inject)
qed

lemma export_result:
  assumes "export_connection_to_path env plan data path fs = (ok, fs')"
  shows "fs' path = (if ok then Some (connection_to_ovpn_text env data) else fs path)
    \<and> (\<forall>q. q \<noteq> path \<and> q \<noteq> export_tmp_path path \<longrightarrow> fs' q = fs q)"
  using assms export_tmp_differs [of path]
  by (auto simp: export_connection_to_path_def write_blob_securely_def Let_def
      split: if_splits option.splits)

text \<open>
  C27: Exporting is atomic: whatever call fails, and however far a write gets, the target
  holds either the whole new text, exactly when the export reports success, or what it
  held before; no file besides the temporary one beside it is touched.
\<close>

theorem export_atomic:
  assumes "export_connection_to_path env plan data path fs = (ok, fs')"
  shows "fs' path = (if ok then Some (connection_to_ovpn_text env data) else fs path)
    \<and> (\<forall>q. q \<noteq> path \<and> q \<noteq> export_tmp_path path \<longrightarrow> fs' q = fs q)"
  using assms by (rule export_result)

definition example_bridge :: bridge_env where
  "example_bridge =
     \<lparr>be_new_connection = True, be_home = Some ''/home/u'', be_create_dir = True,
      be_file = (\<lambda>_. \<lparr>of_open = Some E_Other, of_stat = None, of_read = None\<rparr>),
      be_write = (\<lambda>_. True), be_base64 = (\<lambda>_. None)\<rparr>"

definition disk_full :: write_plan where
  "disk_full = \<lparr>w_unlink_ok = True, w_create_ok = True, w_bytes = Some 10, w_sync_ok = True,
                w_rename_ok = True, w_cleanup_ok = True\<rparr>"

lemma export_atomic_witness:
  "snd (export_connection_to_path example_bridge disk_full Map.empty ''/x/a.ovpn'' [''/x/a.ovpn'' \<mapsto> ''old''])
     ''/x/a.ovpn'' = Some ''old''"
proof -
  define r where "r = export_connection_to_path example_bridge disk_full Map.empty ''/x/a.ovpn''
    [''/x/a.ovpn'' \<mapsto> ''old'']"
  have "\<not> fst r"
    by (simp add: r_def export_connection_to_path_def write_blob_securely_def disk_full_def Let_def)
  then have e: "r = (False, snd r)" by (cases r) simp
  from export_atomic [OF e [unfolded r_def]] show ?thesis by (simp only: if_False) simp
qed

section \<open>What an import writes and reads\<close>

lemma blob_filename_plain:
  assumes "name \<in> set INLINE_BLOB_NAMES"
  shows "plain_file (blob_filename cid name)"
proof -
  have "list_all (\<lambda>name. CHR ''/'' \<notin> set name) INLINE_BLOB_NAMES" by code_simp
  then have n: "CHR ''/'' \<notin> set name" using assms by (auto simp: list_all_iff)
  have "\<not> is_alphanumeric (CHR ''/'')" by code_simp
  then have i: "CHR ''/'' \<notin> set (id_safe cid)" by (auto simp: id_safe_def)
  have "list_all (\<lambda>d. hex_digit (of_nat d) \<noteq> CHR ''/'') [0..<16]" by code_simp
  then have d: "hex_digit (and w 15) \<noteq> CHR ''/''" for w :: u32
  proof -
    assume a: "list_all (\<lambda>d. hex_digit (of_nat d) \<noteq> CHR ''/'') [0..<16]"
    have "and w 15 \<le> 15" by (rule word_and_le1)
    then have "unat (and w 15) < 16" by (simp add: word_le_nat_alt)
    then have "unat (and w 15) \<in> set [0..<16]" by simp
    with a have "hex_digit (of_nat (unat (and w 15))) \<noteq> CHR ''/''" unfolding list_all_iff by blast
    then show ?thesis by (simp only: of_nat_unat ucast_id simp_thms)
  qed
  then have "CHR ''/'' \<notin> set (hex8 h)" for h by (auto simp: hex8_def dest: sym)
  moreover have "length (blob_filename cid name) > 2" by (simp add: blob_filename_def hex8_def)
  ultimately show ?thesis using n i by (auto simp: plain_file_def blob_filename_def)
qed

lemma import_blobs_files:
  assumes "\<forall>d \<in> set ds. from_parser False d" and "(p, b) \<in> set (snd (import_blobs env cid ds acc))"
  shows "(p, b) \<in> set (snd acc)
    \<or> (\<exists>dir name body. secure_cert_dir env = Some dir \<and> Blob name body \<in> set ds
         \<and> name \<in> set INLINE_BLOB_NAMES
         \<and> p = join_path dir (blob_filename cid name) \<and> b = blob_bytes env name body \<and> be_write env p)"
  using assms
proof (induction ds arbitrary: acc)
  case (Cons d ds)
  obtain con files where acc: "acc = (con, files)" by (cases acc)
  show ?case
  proof (cases d)
    case (Blob name body)
    with Cons.prems(1) have name: "name \<in> set INLINE_BLOB_NAMES" by simp
    from Cons.prems(1) have ds: "\<forall>d \<in> set ds. from_parser False d" by simp
    show ?thesis
    proof (cases "secure_cert_dir env")
      case None
      with Cons.prems(2) Cons.IH [OF ds, of acc] Blob acc show ?thesis by simp
    next
      case (Some dir)
      let ?path = "join_path dir (blob_filename cid name)"
      let ?acc = "(blob_items name ?path con, files @ [(?path, blob_bytes env name body)])"
      show ?thesis
      proof (cases "be_write env ?path")
        case False
        with Cons.prems(2) Blob acc Some have "(p, b) \<in> set (snd (import_blobs env cid ds acc))" by (simp add: Let_def)
        from Cons.IH [OF ds this] show ?thesis by (metis list.set_intros(2))
      next
        case True
        with Cons.prems(2) Blob acc Some have "(p, b) \<in> set (snd (import_blobs env cid ds ?acc))" by (simp add: Let_def)
        from Cons.IH [OF ds this] show ?thesis
        proof (elim disjE)
          assume "(p, b) \<in> set (snd ?acc)"
          then show ?thesis using acc Some True Blob name by auto
        qed (metis list.set_intros(2))
      qed
    qed
  next
    case (Option n args)
    with Cons.prems Cons.IH [of acc] acc show ?thesis by simp
  qed
qed simp

text \<open>
  C26: Importing writes key material only into the private certificate directory: every
  file an import writes is \<open>$HOME/.cert/nm-openvpn3/\<close> joined with a plain file name (no
  separator, not \<open>..\<close>), one for a known inline blob of the file, whatever the \<open>.ovpn\<close>'s
  own name and content are.
\<close>

theorem import_files_confined:
  assumes "ovpn_text_to_connection env path txt = Inr (con, files)" and "(p, b) \<in> set files"
  shows "\<exists>home name body cfg cid. be_home env = Some home \<and> parse txt = Inr cfg \<and> Blob name body \<in> set cfg
    \<and> name \<in> set INLINE_BLOB_NAMES
    \<and> p = join_path (join_path (join_path home ''.cert'') ''nm-openvpn3'') (blob_filename cid name)
    \<and> plain_file (blob_filename cid name) \<and> file_name p = Some (blob_filename cid name)
    \<and> b = blob_bytes env name body"
proof -
  from assms(1) obtain cfg where cfg: "parse txt = Inr cfg"
    by (auto simp: ovpn_text_to_connection_def split: sum.splits)
  define cid where "cid = (case file_stem path of Some s \<Rightarrow> s | None \<Rightarrow> ''openvpn3'')"
  define con' where "con' = (case resolve_authfile env path (as_nm_data cfg) (connection_new cid) of
      (data, con) \<Rightarrow> add_data data con)"
  have "files = snd (import_blobs env cid cfg (con', []))"
    using assms(1) cfg
    by (auto simp: ovpn_text_to_connection_def cid_def con'_def Let_def split: if_splits prod.splits)
  with assms(2) import_blobs_files [of cfg p b env cid "(con', [])"] parse_lines_output [of 1 "lines txt" cfg False] cfg
  obtain dir name body where d: "secure_cert_dir env = Some dir" "Blob name body \<in> set cfg"
    "name \<in> set INLINE_BLOB_NAMES" "p = join_path dir (blob_filename cid name)" "b = blob_bytes env name body"
    by (auto simp: parse_inr parse_directives_def)
  from d(1) obtain home where "be_home env = Some home"
    "dir = join_path (join_path home ''.cert'') ''nm-openvpn3''"
    by (auto simp: secure_cert_dir_def split: option.splits if_splits)
  with d cfg blob_filename_plain [OF d(3), of cid] file_name_join show ?thesis by blast
qed

lemma cert_dir_file [simp]: "secure_cert_dir (env\<lparr>be_file := fs\<rparr>) = secure_cert_dir env"
  by (simp add: secure_cert_dir_def cong: option.case_cong)

lemma blob_bytes_file [simp]: "blob_bytes (env\<lparr>be_file := fs\<rparr>) = blob_bytes env"
  by (intro ext) (simp add: blob_bytes_def)

lemma import_blobs_file [simp]: "import_blobs (env\<lparr>be_file := fs\<rparr>) cid ds acc = import_blobs env cid ds acc"
proof (induction ds arbitrary: acc)
  case (Cons d ds)
  then show ?case by (cases acc; cases d) (simp_all add: Let_def split: option.split)
qed simp

text \<open>
  C28: Importing reads no file but a bare file name beside the \<open>.ovpn\<close>: two file systems
  that agree on the paths made of the \<open>.ovpn\<close>'s directory and a single normal component
  give the same import, so a crafted proxy authfile cannot name any other file.
\<close>

theorem import_reads_only_beside:
  assumes "\<forall>f n. path_components f = [Normal n] \<longrightarrow>
      fs (join_path (parent_dir path) f) = be_file env (join_path (parent_dir path) f)"
  shows "ovpn_text_to_connection (env\<lparr>be_file := fs\<rparr>) path txt = ovpn_text_to_connection env path txt"
proof -
  have "read_small_regular_file (env\<lparr>be_file := fs\<rparr>) (join_path (parent_dir path) f) m
      = read_small_regular_file env (join_path (parent_dir path) f) m"
    if "case path_components f of [Normal _] \<Rightarrow> True | _ \<Rightarrow> False" for f m
  proof -
    from that obtain n where "path_components f = [Normal n]"
      by (auto split: list.splits component.splits)
    with assms show ?thesis by (simp add: read_small_regular_file_def)
  qed
  then have "resolve_authfile (env\<lparr>be_file := fs\<rparr>) path data con = resolve_authfile env path data con" for data con
    by (simp add: resolve_authfile_def Let_def split: option.split)
  then show ?thesis by (simp add: ovpn_text_to_connection_def Let_def split: sum.split)
qed

definition blob_profile :: str where
  "blob_profile = ''remote h'' @ [LF] @ ''<ca>'' @ [LF] @ ''X'' @ [LF] @ ''</ca>'' @ [LF]"

lemma import_files_confined_witness:
  "\<exists>con p b. ovpn_text_to_connection example_bridge ''/x/a/b.ovpn'' blob_profile = Inr (con, [(p, b)])
     \<and> (\<exists>n. file_name p = Some n \<and> plain_file n)"
proof -
  define r where "r = ovpn_text_to_connection example_bridge ''/x/a/b.ovpn'' blob_profile"
  have "(case r of Inr (con, [(p, b)]) \<Rightarrow> True | _ \<Rightarrow> False)"
    unfolding r_def by code_simp
  then obtain con p b where r: "r = Inr (con, [(p, b)])"
    by (cases r; cases "snd (projr r)"; cases "tl (snd (projr r))") auto
  from import_files_confined [OF r [unfolded r_def], of p b] r show ?thesis
    by (auto simp: r_def)
qed

definition crafted_env :: "str \<Rightarrow> os_file" where
  "crafted_env p = (if p = ''/etc/shadow'' then \<lparr>of_open = None, of_stat = Some (True, 3), of_read = Some ''pwd''\<rparr>
                    else be_file example_bridge p)"

lemma import_reads_only_beside_witness:
  "ovpn_text_to_connection (example_bridge\<lparr>be_file := crafted_env\<rparr>) ''/x/a.ovpn''
      ''http-proxy p 1 ../etc/shadow''
   = ovpn_text_to_connection example_bridge ''/x/a.ovpn'' ''http-proxy p 1 ../etc/shadow''"
proof (rule import_reads_only_beside, intro allI impI)
  have d: "parent_dir ''/x/a.ovpn'' = ''/x''" by code_simp
  fix f n
  show "crafted_env (join_path (parent_dir ''/x/a.ovpn'') f)
      = be_file example_bridge (join_path (parent_dir ''/x/a.ovpn'') f)"
    unfolding d by (simp add: crafted_env_def join_path_def)
qed

section \<open>An exported file can be imported again\<close>

fun plain_option :: "directive \<Rightarrow> bool" where
  "plain_option (Option n args) = plain_name n"
| "plain_option (Blob n b) = False"

lemma plain_remotes: "list_all plain_option (fd_remotes gws)"
  by (induction gws rule: fd_remotes.induct)
     (auto simp: Let_def push_opt_def plain_name_def starts_with_def split: prod.split)

lemma plain_opt: "plain_name n \<Longrightarrow> list_all plain_option (fd_opt n v)"
  by (simp add: fd_opt_def push_opt_def split: option.split)

lemma plain_pairs:
  "\<forall>(k, tag) \<in> set ks. plain_name tag \<Longrightarrow> list_all plain_option (fd_pairs data ks)"
  by (induction ks) (auto simp: fd_pairs_def plain_opt)

lemma plain_routes: "list_all plain_option (fd_routes data)"
proof -
  have "plain_option d" if "d \<in> set (fd_routes data)" for d
  proof -
    from that obtain l where l: "l \<in> set (route_list data)" "d = entry_directive (Raw l)"
      by (auto simp: dirs_routes [symmetric])
    with safe_route_good_line [OF route_list_safe [OF l(1)]] show ?thesis
      by (auto simp: entry_directive_def directive_of_def good_line_def)
  qed
  then show ?thesis by (simp add: list_all_iff)
qed

lemma plain_blocks:
  "list_all plain_option (fd_head data)" "list_all plain_option (fd_certs data)"
  "list_all plain_option (fd_auth data)" "list_all plain_option (fd_compress data)"
  "list_all plain_option (fd_mtu data)" "list_all plain_option (fd_proxy data)"
  "list_all plain_option (fd_dev data)" "list_all plain_option fd_tail"
  by (simp_all add: fd_head_def fd_certs_def fd_auth_def fd_compress_def fd_mtu_def fd_proxy_def
      fd_dev_def fd_tail_def plain_remotes fd_flag_def push_flag_def push_opt_def fd_opt_def Let_def
      plain_name_def starts_with_def split: option.split)

lemma plain_tables:
  "list_all plain_option (fd_pairs data pairs_str)" "list_all plain_option (fd_pairs data tls_pairs)"
  by (rule plain_pairs; simp add: pairs_str_def tls_pairs_def plain_name_def starts_with_def)+

lemma plain_tls: "list_all plain_option (fd_tls data)"
  using plain_tables(2)
  by (simp add: fd_tls_def fd_flag_def push_flag_def push_opt_def fd_opt_def Let_def
      plain_name_def starts_with_def split: option.split)

lemma from_nm_data_parseable: "\<forall>d \<in> set (from_nm_data data). parseable d"
proof -
  have "list_all plain_option (from_nm_data data)"
    by (simp add: from_nm_data_def plain_blocks plain_tables plain_tls plain_routes)
  moreover have "plain_option d \<Longrightarrow> parseable d" for d by (cases d) auto
  ultimately show ?thesis by (auto simp: list_all_iff)
qed

lemma parse_comment: "parse_lines n ((CHR ''#'' # l) # ls) = parse_lines (Suc n) ls"
  by (simp add: parse_lines.simps(2) trim_start_id starts_with_def is_whitespace_def Let_def)

lemma utf8_ascii: "\<forall>c \<in> set s. of_char c < (128 :: nat) \<Longrightarrow> utf8_bytes s = s"
  by (induction s) (simp_all add: utf8_bytes_def)

lemma banner_lines: "\<forall>l \<in> set EXPORT_BANNER. LF \<notin> set l \<and> strip_cr l = l"
proof -
  have "list_all (\<lambda>l. LF \<notin> set l \<and> strip_cr l = l) EXPORT_BANNER" by code_simp
  then show ?thesis by (simp add: list_all_iff)
qed

lemma export_text_parses:
  assumes "validate (from_nm_data data) = Inr ()"
    and "\<forall>c \<in> set (emit (from_nm_data data)). of_char c < (128 :: nat)"
    and "\<forall>p. data ''nm-openvpn3-profile'' = Some p \<longrightarrow> p = [] \<or> read_profile_securely env p = None"
  shows "parse (connection_to_ovpn_text env data) = Inr (from_nm_data data)"
proof -
  from parse_emit_lines [OF from_nm_data_parseable] obtain ls where
    ls: "emit (from_nm_data data) = unlines ls" "\<forall>l \<in> set ls. LF \<notin> set l \<and> strip_cr l = l"
      "\<forall>n. parse_lines n ls = Inr (from_nm_data data)" by blast
  have "connection_to_ovpn_text env data = unlines (EXPORT_BANNER @ ls)"
    using assms(3) ls(1) utf8_ascii [OF assms(2)]
    by (auto simp: connection_to_ovpn_text_def unlines_def Let_def split: option.split)
  moreover have "\<forall>l \<in> set (EXPORT_BANNER @ ls). LF \<notin> set l \<and> strip_cr l = l"
    using banner_lines ls(2) by auto
  ultimately have "lines (connection_to_ovpn_text env data) = EXPORT_BANNER @ ls"
    using lines_lines [of "EXPORT_BANNER @ ls" "[]"] by (simp add: unlines_def)
  moreover have "parse_lines 1 (EXPORT_BANNER @ ls) = Inr (from_nm_data data)"
    using ls(3) by (simp add: EXPORT_BANNER_def parse_comment)
  ultimately show ?thesis using assms(1) by (simp add: parse_inr parse_directives_def)
qed

text \<open>
  An export is a file the importer reads back: with no readable pinned profile, for
  ASCII settings whose values pass the importer's checks, importing the exported bytes
  gives exactly the directives of \<open>vpn.data\<close>; the warning banner is skipped.
\<close>

theorem export_text_imports:
  assumes "validate (from_nm_data data) = Inr ()"
    and "\<forall>c \<in> set (emit (from_nm_data data)). of_char c < (128 :: nat)"
    and "\<forall>p. data ''nm-openvpn3-profile'' = Some p \<longrightarrow> p = [] \<or> read_profile_securely env p = None"
  shows "parse (connection_to_ovpn_text env data) = Inr (from_nm_data data)"
  using assms by (rule export_text_parses)

lemma export_text_imports_witness:
  "parse (connection_to_ovpn_text example_bridge [''connection-type'' \<mapsto> ''tls'', ''remote'' \<mapsto> ''vpn:443'',
      ''port'' \<mapsto> ''443''])
   = Inr (from_nm_data [''connection-type'' \<mapsto> ''tls'', ''remote'' \<mapsto> ''vpn:443'', ''port'' \<mapsto> ''443''])"
proof (rule export_text_imports)
  let ?d = "[''connection-type'' \<mapsto> ''tls'', ''remote'' \<mapsto> ''vpn:443'', ''port'' \<mapsto> ''443''] :: dict"
  show "validate (from_nm_data ?d) = Inr ()" by code_simp
  have "list_all (\<lambda>c. of_char c < (128 :: nat)) (emit (from_nm_data ?d))" by code_simp
  then show "\<forall>c \<in> set (emit (from_nm_data ?d)). of_char c < (128 :: nat)" by (simp add: list_all_iff)
qed simp

section \<open>The items an import leaves\<close>

lemma blob_items_new:
  "vpn_items (blob_items name path con) k = Some v \<Longrightarrow> vpn_items con k = Some v \<or> v = path"
  by (auto simp: blob_items_def add_item_def Let_def split: if_splits)

lemma import_blobs_acc: "set (snd acc) \<subseteq> set (snd (import_blobs env cid ds acc))"
proof (induction ds arbitrary: acc)
  case (Cons d ds)
  obtain con files where acc: "acc = (con, files)" by (cases acc)
  have "set files \<subseteq> set (snd (import_blobs env cid ds (con', files @ xs)))" for con' xs
    using Cons [of "(con', files @ xs)"] by auto
  moreover have "set files \<subseteq> set (snd (import_blobs env cid ds (con, files)))"
    using Cons [of "(con, files)"] by simp
  ultimately show ?case using acc by (cases d) (simp_all add: Let_def split: option.split)
qed simp

lemma import_blobs_items:
  assumes "vpn_items (fst (import_blobs env cid ds acc)) k = Some v"
  shows "vpn_items (fst acc) k = Some v \<or> v \<in> fst ` set (snd (import_blobs env cid ds acc))"
  using assms
proof (induction ds arbitrary: acc)
  case (Cons d ds)
  obtain con files where acc: "acc = (con, files)" by (cases acc)
  show ?case
  proof (cases "\<exists>name body dir. d = Blob name body \<and> secure_cert_dir env = Some dir
      \<and> be_write env (join_path dir (blob_filename cid name))")
    case True
    then obtain name body dir where d: "d = Blob name body" "secure_cert_dir env = Some dir"
      "be_write env (join_path dir (blob_filename cid name))" by blast
    define path where "path = join_path dir (blob_filename cid name)"
    define acc' where "acc' = (blob_items name path con, files @ [(path, blob_bytes env name body)])"
    have step: "import_blobs env cid (d # ds) acc = import_blobs env cid ds acc'"
      using d by (simp add: acc acc'_def path_def Let_def)
    from Cons.IH [of acc'] Cons.prems step
    have "vpn_items (fst acc') k = Some v \<or> v \<in> fst ` set (snd (import_blobs env cid ds acc'))" by simp
    moreover have "path \<in> fst ` set (snd (import_blobs env cid ds acc'))"
      using import_blobs_acc [of acc' env cid ds] by (force simp: acc'_def)
    ultimately show ?thesis using step blob_items_new [of name path con k v] by (auto simp: acc acc'_def)
  next
    case False
    then have "import_blobs env cid (d # ds) acc = import_blobs env cid ds acc"
      by (cases d) (auto simp: acc Let_def split: option.split)
    with Cons show ?thesis by simp
  qed
qed simp

lemma import_parts:
  assumes "ovpn_text_to_connection env path txt = Inr (con, files)" and "parse txt = Inr cfg"
  obtains data con0 cid where
    "\<And>k. k \<noteq> ''http-proxy-auth-file'' \<Longrightarrow> k \<noteq> ''http-proxy-username'' \<Longrightarrow> data k = as_nm_data cfg k"
    "vpn_items con0 = Map.empty"
    "con = pin_profile path (fst (import_blobs env cid cfg (add_data data con0, [])))"
    "files = snd (import_blobs env cid cfg (add_data data con0, []))"
proof -
  define cid where "cid = (case file_stem path of Some s \<Rightarrow> s | None \<Rightarrow> ''openvpn3'')"
  obtain data con0 where r: "resolve_authfile env path (as_nm_data cfg) (connection_new cid) = (data, con0)"
    by (cases "resolve_authfile env path (as_nm_data cfg) (connection_new cid)")
  show ?thesis
  proof (rule that)
    show "data k = as_nm_data cfg k" if "k \<noteq> ''http-proxy-auth-file''" "k \<noteq> ''http-proxy-username''" for k
      using r that by (auto simp: resolve_authfile_def Let_def split: option.splits if_splits sum.splits prod.splits)
    show "vpn_items con0 = Map.empty"
      using r by (auto simp: resolve_authfile_def connection_new_def Let_def
          split: option.splits if_splits sum.splits prod.splits)
    show "con = pin_profile path (fst (import_blobs env cid cfg (add_data data con0, [])))"
      "files = snd (import_blobs env cid cfg (add_data data con0, []))"
      using assms r by (auto simp: ovpn_text_to_connection_def cid_def [symmetric] Let_def
          split: if_splits prod.splits)
  qed
qed

text \<open>
  C29: An import never leaves an item that points at a key file it did not write: what an
  inline blob's item holds is either what the \<open>.ovpn\<close>'s own option said or the path of a
  file this import wrote; and the connection is pinned to the file it came from.
\<close>

theorem import_items_written:
  assumes "ovpn_text_to_connection env path txt = Inr (con, files)" and "parse txt = Inr cfg"
    and "name \<in> set INLINE_BLOB_NAMES" and "vpn_items con name = Some p"
  shows "(as_nm_data cfg name = Some p \<or> p \<in> fst ` set files)
    \<and> (has_nul path \<or> vpn_items con ''nm-openvpn3-profile'' = Some path)"
proof -
  have "list_all (\<lambda>n. n \<notin> {''http-proxy-auth-file'', ''http-proxy-username'', ''nm-openvpn3-profile''})
      INLINE_BLOB_NAMES"
    by code_simp
  with assms(3) have n: "name \<noteq> ''http-proxy-auth-file''" "name \<noteq> ''http-proxy-username''"
    "name \<noteq> ''nm-openvpn3-profile''"
    by (auto simp: list_all_iff)
  from import_parts [OF assms(1,2)] obtain data con0 cid where
    d: "\<And>k. k \<noteq> ''http-proxy-auth-file'' \<Longrightarrow> k \<noteq> ''http-proxy-username'' \<Longrightarrow> data k = as_nm_data cfg k"
      "vpn_items con0 = Map.empty"
      "con = pin_profile path (fst (import_blobs env cid cfg (add_data data con0, [])))"
      "files = snd (import_blobs env cid cfg (add_data data con0, []))"
    by metis
  show ?thesis
    using assms(4) d(1) [OF n(1,2)] d(2-4) n(3)
      import_blobs_items [of env cid cfg "(add_data data con0, [])" name p]
    by (auto simp: pin_profile_def add_item_def add_data_def split: if_splits option.splits)
qed

lemma import_items_written_witness:
  "\<exists>con files p. ovpn_text_to_connection example_bridge ''/x/a/b.ovpn'' blob_profile = Inr (con, files)
     \<and> vpn_items con ''ca'' = Some p \<and> p \<in> fst ` set files
     \<and> vpn_items con ''nm-openvpn3-profile'' = Some ''/x/a/b.ovpn''"
proof -
  define r where "r = ovpn_text_to_connection example_bridge ''/x/a/b.ovpn'' blob_profile"
  have p: "parse blob_profile = Inr [Option ''remote'' [''h''], Blob ''ca'' (''X'' @ [LF])]" by code_simp
  have a: "as_nm_data [Option ''remote'' [''h''], Blob ''ca'' (''X'' @ [LF])] ''ca'' = None" by code_simp
  have u: "\<not> has_nul ''/x/a/b.ovpn''" by code_simp
  have "(case r of Inr (con, files) \<Rightarrow> vpn_items con ''ca'' \<noteq> None | _ \<Rightarrow> False)"
    unfolding r_def by code_simp
  then obtain con files q where r: "r = Inr (con, files)" "vpn_items con ''ca'' = Some q"
    by (auto split: sum.splits)
  from import_items_written [OF r(1) [unfolded r_def] p _ r(2)] a u r show ?thesis
    by (auto simp: r_def INLINE_BLOB_NAMES_def)
qed

section \<open>Inline key material that is not read again\<close>

lemma scan_directive_ta:
  assumes "\<forall>args. d \<noteq> Option ''tls-auth'' args"
  shows "sdata (scan_directive s d) ''ta'' = sdata s ''ta''"
proof (cases d)
  case (Option n args)
  with assms have n: "n \<noteq> ''tls-auth''" by simp
  have arms: "list_all (\<lambda>(n, k). k \<noteq> ''ta'') simple_arms" "''ta'' \<notin> set flag_arms" by code_simp+
  show ?thesis
  proof (cases "map_of simple_arms n")
    case (Some k)
    with arms(1) have "k \<noteq> ''ta''" by (auto simp: list_all_iff dest: map_of_SomeD)
    with Some Option show ?thesis by (simp add: scan_option_def put_opt_def put_def split: option.split)
  next
    case None
    show ?thesis
    proof (cases "n \<in> set flag_arms")
      case True
      with arms(2) None Option show ?thesis by (auto simp: scan_option_def put_def)
    next
      case False
      with None n Option show ?thesis by (simp add: scan_defs Let_def split: option.split)
    qed
  qed
qed (simp add: scan_blob_def)

lemma as_nm_data_ta:
  assumes "option cfg ''tls-auth'' = None"
  shows "as_nm_data cfg ''ta'' = None"
proof -
  have "\<forall>d \<in> set cfg. \<forall>args. d \<noteq> Option ''tls-auth'' args"
    using assms
  proof (induction cfg)
    case (Cons d ds)
    then show ?case by (cases d) (auto split: if_splits)
  qed simp
  then have "sdata (foldl scan_directive s cfg) ''ta'' = sdata s ''ta''" for s
    by (induction cfg arbitrary: s) (simp_all add: scan_directive_ta)
  then show ?thesis
    by (simp add: as_nm_data_def resolve_key_direction_def or_insert_def nm_scan_init_def Let_def split: option.split)
qed

lemma blob_items_ta: "name \<noteq> ''ta'' \<Longrightarrow> vpn_items (blob_items name path con) ''ta'' = vpn_items con ''ta''"
  by (simp add: blob_items_def add_item_def Let_def)

lemma import_blobs_ta:
  assumes "\<forall>d \<in> set ds. from_parser False d"
  shows "vpn_items (fst (import_blobs env cid ds acc)) ''ta'' = vpn_items (fst acc) ''ta''"
  using assms
proof (induction ds arbitrary: acc)
  case (Cons d ds)
  obtain con files where acc: "acc = (con, files)" by (cases acc)
  show ?case
  proof (cases d)
    case (Blob name body)
    with Cons.prems have "name \<noteq> ''ta''" by (auto simp: INLINE_BLOB_NAMES_def)
    with Cons acc Blob show ?thesis by (simp add: blob_items_ta Let_def split: option.split)
  qed (use Cons acc in simp)
qed simp

lemma unset_ta_avoids:
  assumes "get data ''ta'' = None"
  shows "avoids [''tls-auth''] (from_nm_data data)"
proof -
  have pairs: "\<forall>(key, tag) \<in> set ks. tag \<noteq> ''tls-auth'' \<Longrightarrow> avoids [''tls-auth''] (fd_pairs data ks)" for ks
    by (induction ks) (auto simp: fd_pairs_simps avoids_defs split: option.split)
  have "list_all (\<lambda>n. first_word n \<notin> set ALLOWED_ROUTES) [''tls-auth'']" by code_simp
  then have "avoids [''tls-auth''] (fd_routes data)"
    using route_directive_names [of _ data] by (fastforce simp: avoids_def)
  moreover have "avoids [''tls-auth''] (fd_pairs data pairs_str)" "avoids [''tls-auth''] (fd_pairs data tls_pairs)"
    by (rule pairs; simp add: pairs_str_def tls_pairs_def)+
  moreover from calculation(3) have "avoids [''tls-auth''] (fd_tls data)"
    by (simp add: fd_tls_def nm_get_fun assms avoids_defs split: option.split)
  moreover have "avoids [''tls-auth''] (fd_head data)" "avoids [''tls-auth''] (fd_certs data)"
    "avoids [''tls-auth''] (fd_auth data)" "avoids [''tls-auth''] (fd_compress data)"
    "avoids [''tls-auth''] (fd_mtu data)" "avoids [''tls-auth''] (fd_proxy data)"
    "avoids [''tls-auth''] (fd_dev data)" "avoids [''tls-auth''] fd_tail"
    by (simp_all add: fd_head_def fd_certs_def fd_auth_def fd_compress_def fd_mtu_def fd_proxy_def
        fd_dev_def fd_tail_def avoids_defs split: option.split)
  ultimately show ?thesis by (simp add: from_nm_data_def avoids_simps)
qed

lemma no_option: "avoids [n] ds \<Longrightarrow> option ds n = None"
proof (induction ds)
  case (Cons d ds)
  then show ?case by (cases d) (simp_all add: avoids_simps)
qed simp

lemma no_blob: "\<forall>d \<in> set ds. plain_option d \<Longrightarrow> blob ds n = None"
proof (induction ds)
  case (Cons d ds)
  then show ?case by (cases d) simp_all
qed simp

lemma from_nm_data_plain: "\<forall>d \<in> set (from_nm_data data). plain_option d"
proof -
  have "list_all plain_option (from_nm_data data)"
    by (simp add: from_nm_data_def plain_blocks plain_tables plain_tls plain_routes)
  then show ?thesis by (simp add: list_all_iff)
qed


definition tls_auth_profile :: str where
  "tls_auth_profile = ''remote h'' @ [LF] @ ''<tls-auth>'' @ [LF] @ ''K'' @ [LF] @ ''</tls-auth>'' @ [LF]"


end
