(* ===== verification/Editor.thy ===== *)
theory Editor
  imports Complex_Main Bridge
begin

text \<open>
  \<open>nm-openvpn3-editor/src/editor.rs\<close>: the settings editor as the data in its widgets.
  \<open>build_widget_tree\<close> fills the widgets from \<open>vpn.data\<close>, the user changes what they hold,
  \<open>update_connection\<close> validates and writes them back.  A row is the value it holds: an
  entry its text, a switch its state, a spin row an \<open>f64\<close>, a combo row its option ids and
  the selected index.  What a spin row with bounds \<open>lo\<close> and \<open>hi\<close> makes of a value that is
  set is GTK's: the parameter \<open>adj\<close>.
\<close>

section \<open>f64\<close>

text \<open>
  \<open>str::parse::<f64>\<close>: the decimal is rounded to 53 significant bits, ties to even, with
  the gradual underflow and the overflow of the format.  The sign of zero is not kept.
\<close>

datatype f64 = F_Nan | F_Inf bool | F_Fin rat

fun bits :: "nat \<Rightarrow> nat" where
  "bits n = (if n = 0 then 0 else Suc (bits (n div 2)))"

declare bits.simps [simp del]

definition round_ratio :: "nat \<Rightarrow> nat \<Rightarrow> f64" where
  "round_ratio num den =
     (if num = 0 then F_Fin 0
      else let e0 = int (bits num) - int (bits den) - 53;
               wide = (if 0 \<le> e0 then 2 ^ 53 * den * 2 ^ nat e0 \<le> num
                       else 2 ^ 53 * den \<le> num * 2 ^ nat (- e0));
               e = max (if wide then e0 + 1 else e0) (- 1074);
               a = num * 2 ^ nat (- e);
               b = den * 2 ^ nat e;
               m = (if b < 2 * (a mod b) \<or> (b = 2 * (a mod b) \<and> odd (a div b))
                    then a div b + 1 else a div b);
               x = of_nat (m * 2 ^ nat e) / of_nat (2 ^ nat (- e))
           in if 2 ^ 1024 \<le> x then F_Inf False else F_Fin x)"

fun f64_neg :: "f64 \<Rightarrow> f64" where
  "f64_neg F_Nan = F_Nan"
| "f64_neg (F_Inf neg) = F_Inf (\<not> neg)"
| "f64_neg (F_Fin x) = F_Fin (- x)"

definition dec_digits :: "str \<Rightarrow> int option" where
  "dec_digits s = digits_val 10 0 s"

definition parse_mantissa :: "str \<Rightarrow> (int \<times> nat) option" where
  "parse_mantissa s =
     (case split_once (CHR ''.'') s of
        None \<Rightarrow> if s = [] then None else map_option (\<lambda>n. (n, 0)) (dec_digits s)
      | Some (whole, part) \<Rightarrow>
          if whole = [] \<and> part = [] then None
          else map_option (\<lambda>n. (n, length part)) (dec_digits (whole @ part)))"

definition parse_exponent :: "str \<Rightarrow> int option" where
  "parse_exponent s =
     (case s of
        [] \<Rightarrow> None
      | c # ds \<Rightarrow>
          if c = CHR ''+'' then (if ds = [] then None else dec_digits ds)
          else if c = CHR ''-'' then (if ds = [] then None else map_option uminus (dec_digits ds))
          else dec_digits s)"

definition f64_of_decimal :: "int \<Rightarrow> int \<Rightarrow> f64" where
  "f64_of_decimal n e = round_ratio (nat n * 10 ^ nat e) (10 ^ nat (- e))"

definition parse_magnitude :: "str \<Rightarrow> f64 option" where
  "parse_magnitude s =
     (let l = to_ascii_lowercase s
      in if l = ''inf'' \<or> l = ''infinity'' then Some (F_Inf False)
         else if l = ''nan'' then Some F_Nan
         else case split_once (CHR ''e'') l of
                None \<Rightarrow> map_option (\<lambda>(n, k). f64_of_decimal n (- int k)) (parse_mantissa l)
              | Some (m, e) \<Rightarrow>
                  (case (parse_mantissa m, parse_exponent e) of
                     (Some (n, k), Some x) \<Rightarrow> Some (f64_of_decimal n (x - int k))
                   | _ \<Rightarrow> None))"

definition parse_f64 :: "str \<Rightarrow> f64 option" where
  "parse_f64 s =
     (case s of
        [] \<Rightarrow> None
      | c # r \<Rightarrow>
          if c = CHR ''+'' then parse_magnitude r
          else if c = CHR ''-'' then map_option f64_neg (parse_magnitude r)
          else parse_magnitude s)"

text \<open>\<open>v as i64\<close> and \<open>f64::max(v, 0.0)\<close>.\<close>

fun as_i64 :: "f64 \<Rightarrow> int" where
  "as_i64 F_Nan = 0"
| "as_i64 (F_Inf neg) = (if neg then - (2 ^ 63) else 2 ^ 63 - 1)"
| "as_i64 (F_Fin x) = max (- (2 ^ 63)) (min (2 ^ 63 - 1) (if 0 \<le> x then \<lfloor>x\<rfloor> else \<lceil>x\<rceil>))"

fun f64_max0 :: "f64 \<Rightarrow> f64" where
  "f64_max0 F_Nan = F_Fin 0"
| "f64_max0 (F_Inf neg) = (if neg then F_Fin 0 else F_Inf False)"
| "f64_max0 (F_Fin x) = F_Fin (max x 0)"

fun f64_pos :: "f64 \<Rightarrow> bool" where
  "f64_pos F_Nan = False"
| "f64_pos (F_Inf neg) = (\<not> neg)"
| "f64_pos (F_Fin x) = (0 < x)"

section \<open>Vocabularies\<close>

definition CONTYPES :: "(str \<times> str) list" where
  "CONTYPES =
     [(''tls'', ''TLS''), (''password'', ''Password''), (''password-tls'', ''Password + TLS''),
      (''static-key'', ''Static key'')]"

definition ALLOW_COMPRESSION :: "(str \<times> str) list" where
  "ALLOW_COMPRESSION =
     [('''', ''Default''), (''no'', ''Disabled''), (''asym'', ''Asymmetric''), (''yes'', ''Enabled'')]"

definition REMOTE_CERT_TLS :: "(str \<times> str) list" where
  "REMOTE_CERT_TLS =
     [('''', ''Not enforced''), (''client'', ''Server must present a client certificate''),
      (''server'', ''Server must present a server certificate'')]"

definition NS_CERT_TYPE :: "(str \<times> str) list" where
  "NS_CERT_TYPE = [('''', ''Not enforced''), (''client'', ''client''), (''server'', ''server'')]"

definition TLS_VERSIONS :: "(str \<times> str) list" where
  "TLS_VERSIONS =
     [('''', ''Default''), (''1.0'', ''TLS 1.0''), (''1.1'', ''TLS 1.1''), (''1.2'', ''TLS 1.2''),
      (''1.3'', ''TLS 1.3'')]"

definition PROXY_TYPES :: "(str \<times> str) list" where
  "PROXY_TYPES = [('''', ''None''), (''http'', ''HTTP''), (''socks'', ''SOCKS'')]"

definition COMP_LZO :: "(str \<times> str) list" where
  "COMP_LZO = [('''', ''Off''), (''yes'', ''Enabled''), (''no'', ''Disabled''), (''adaptive'', ''Adaptive'')]"

definition DEV_TYPES :: "(str \<times> str) list" where
  "DEV_TYPES = [('''', ''Auto''), (''tun'', ''tun''), (''tap'', ''tap'')]"

definition COMPRESS :: "(str \<times> str) list" where
  "COMPRESS = [('''', ''Default''), (''lzo'', ''LZO''), (''lz4'', ''LZ4''), (''lz4-v2'', ''LZ4 v2'')]"

definition CIPHERS :: "(str \<times> str) list" where
  "CIPHERS =
     [('''', ''Default''), (''AES-256-GCM'', ''AES-256-GCM''), (''AES-192-GCM'', ''AES-192-GCM''),
      (''AES-128-GCM'', ''AES-128-GCM''), (''CHACHA20-POLY1305'', ''CHACHA20-POLY1305''),
      (''AES-256-CBC'', ''AES-256-CBC''), (''AES-192-CBC'', ''AES-192-CBC''),
      (''AES-128-CBC'', ''AES-128-CBC''), (''BF-CBC'', ''BF-CBC'')]"

definition AUTH_ALGS :: "(str \<times> str) list" where
  "AUTH_ALGS =
     [('''', ''Default''), (''SHA1'', ''SHA1''), (''SHA224'', ''SHA224''), (''SHA256'', ''SHA256''),
      (''SHA384'', ''SHA384''), (''SHA512'', ''SHA512''), (''RIPEMD160'', ''RIPEMD160''),
      (''MD5'', ''MD5'')]"

definition KEY_DIR :: "(str \<times> str) list" where
  "KEY_DIR = [('''', ''None''), (''0'', ''Server''), (''1'', ''Client'')]"

definition WIDGET_DATA_KEYS :: "str list" where
  "WIDGET_DATA_KEYS =
     [''connection-type'', ''remote'', ''port'', ''ca'', ''cert'', ''key'', ''static-key'',
      ''static-key-direction'', ''username'', ''nm-openvpn3-profile'', ''dev'', ''dev-type'',
      ''proto-tcp'', ''tunnel-mtu'', ''mssfix'', ''fragment-size'', ''ping'', ''ping-restart'',
      ''reneg-seconds'', ''connect-timeout'', ''allow-compression'', ''comp-lzo'', ''compress'',
      ''cipher'', ''data-ciphers'', ''data-ciphers-fallback'', ''tls-cipher'', ''auth'', ''keysize'',
      ''tls-version-min'', ''tls-version-min-or-highest'', ''tls-version-max'', ''verify-x509-name'',
      ''remote-cert-tls'', ''ns-cert-type'', ''ta'', ''ta-dir'', ''tls-crypt'', ''tls-crypt-v2'',
      ''proxy-type'', ''proxy-server'', ''proxy-port'', ''http-proxy-username'',
      ''override-route-nopull'', ''override-force-default-gateway'', ''override-block-ipv6'',
      ''override-dns-setup-disabled'', ''override-dco'', ''override-log-level'']"

record contype_flags =
  cf_tls_like :: bool
  cf_needs_user_cert :: bool
  cf_needs_password :: bool
  cf_is_static_key :: bool

definition contype_from_id :: "str \<Rightarrow> contype_flags" where
  "contype_from_id ct =
     \<lparr>cf_tls_like = ct \<in> {''tls'', ''password'', ''password-tls''},
      cf_needs_user_cert = ct \<in> {''tls'', ''password-tls''},
      cf_needs_password = ct \<in> {''password'', ''password-tls''},
      cf_is_static_key = (ct = ''static-key'')\<rparr>"

definition validate_required_fields ::
  "str \<Rightarrow> str \<Rightarrow> str \<Rightarrow> str \<Rightarrow> str \<Rightarrow> str \<Rightarrow> str \<Rightarrow> str option" where
  "validate_required_fields ct remote ca cert key username static_key =
     (if remote = [] then Some ''missing gateway address''
      else if ct \<in> {''tls'', ''password-tls''} \<and> ca = [] then
        Some ''TLS connection requires a CA certificate''
      else if ct \<in> {''tls'', ''password-tls''} \<and> (cert = [] \<or> key = []) then
        Some ''TLS connection requires both client certificate and private key''
      else if ct \<in> {''password'', ''password-tls''} \<and> username = [] then
        Some ''password authentication requires a user name''
      else if ct = ''static-key'' \<and> static_key = [] then
        Some ''static-key connection requires a key file''
      else None)"

section \<open>The widgets\<close>

text \<open>A combo row: the ids behind its entries, and the index GTK reports as selected.\<close>

record combo =
  combo_ids :: "str list"
  combo_selected :: nat

definition selected_id :: "combo \<Rightarrow> str" where
  "selected_id c = (case nth_opt (combo_ids c) (combo_selected c) of Some s \<Rightarrow> s | None \<Rightarrow> [])"

text \<open>The loop over the choices: the last one that equals the initial value.\<close>

fun match_choice :: "str option \<Rightarrow> nat \<Rightarrow> (str \<times> str) list \<Rightarrow> nat option \<Rightarrow> nat option" where
  "match_choice initial i [] found = found"
| "match_choice initial i ((cid, label) # cs) found =
     match_choice initial (Suc i) cs (if initial = Some cid then Some i else found)"

definition combo_row :: "(str \<times> str) list \<Rightarrow> str option \<Rightarrow> combo" where
  "combo_row choices initial =
     (let ids = map fst choices; matched = match_choice initial 0 choices None
      in case initial of
           Some v \<Rightarrow>
             if v \<noteq> [] \<and> matched = None
             then \<lparr>combo_ids = ids @ [v], combo_selected = length ids\<rparr>
             else \<lparr>combo_ids = ids, combo_selected = (case matched of Some i \<Rightarrow> i | None \<Rightarrow> 0)\<rparr>
         | None \<Rightarrow> \<lparr>combo_ids = ids, combo_selected = 0\<rparr>)"

definition TIMER_SECS_MAX :: int where
  "TIMER_SECS_MAX = 2147483647"

definition parse_int_default :: "str option \<Rightarrow> f64" where
  "parse_int_default s =
     (case s of Some v \<Rightarrow> (case parse_f64 v of Some x \<Rightarrow> x | None \<Rightarrow> F_Fin 0) | None \<Rightarrow> F_Fin 0)"

definition initial_text :: "dict \<Rightarrow> str \<Rightarrow> str" where
  "initial_text initial k = (case initial k of Some v \<Rightarrow> v | None \<Rightarrow> [])"

record editor_state =
  st_contype :: combo
  st_remote :: str
  st_port :: f64
  st_ca :: str
  st_cert :: str
  st_key :: str
  st_cert_pass :: str
  st_username :: str
  st_password :: str
  st_profile_path :: str
  st_static_key :: str
  st_static_key_dir :: combo
  st_dev :: str
  st_dev_type :: combo
  st_proto_tcp :: bool
  st_tun_mtu :: f64
  st_mssfix_enabled :: bool
  st_mssfix_bytes :: f64
  st_fragment :: f64
  st_keepalive_ping :: f64
  st_keepalive_restart :: f64
  st_reneg_seconds :: f64
  st_connect_timeout :: f64
  st_allow_compression :: combo
  st_comp_lzo :: combo
  st_compress :: combo
  st_cipher :: combo
  st_data_ciphers :: str
  st_data_ciphers_fallback :: combo
  st_tls_cipher :: str
  st_auth :: combo
  st_keysize :: f64
  st_tls_version_min :: combo
  st_tls_version_min_or_highest :: bool
  st_tls_version_max :: combo
  st_verify_x509_name :: str
  st_remote_cert_tls :: combo
  st_ns_cert_type :: combo
  st_ta :: str
  st_ta_dir :: combo
  st_tls_crypt :: str
  st_tls_crypt_v2 :: str
  st_proxy_type :: combo
  st_proxy_server :: str
  st_proxy_port :: f64
  st_proxy_user :: str
  st_proxy_pass :: str
  st_or_route_nopull :: bool
  st_or_force_default_gateway :: bool
  st_or_block_ipv6 :: bool
  st_or_dns_setup_disabled :: bool
  st_or_dco :: bool
  st_or_log_level :: f64
  st_initial_data :: dict

definition build_widget_tree :: "(int \<Rightarrow> int \<Rightarrow> f64 \<Rightarrow> f64) \<Rightarrow> dict \<Rightarrow> editor_state" where
  "build_widget_tree adj initial =
     (let mssfix_raw = initial_text initial ''mssfix'';
          mssfix_bytes_initial =
            f64_max0 (case parse_f64 mssfix_raw of Some x \<Rightarrow> x | None \<Rightarrow> F_Fin 0);
          mssfix_on = (mssfix_raw = ''yes'' \<or> f64_pos mssfix_bytes_initial)
      in \<lparr>st_contype = combo_row CONTYPES (Some (case initial ''connection-type'' of Some v \<Rightarrow> v | None \<Rightarrow> ''tls'')),
         st_remote = initial_text initial ''remote'',
         st_port = adj 0 65535 (parse_int_default (initial ''port'')),
         st_ca = initial_text initial ''ca'',
         st_cert = initial_text initial ''cert'',
         st_key = initial_text initial ''key'',
         st_cert_pass = [],
         st_username = initial_text initial ''username'',
         st_password = [],
         st_profile_path = initial_text initial ''nm-openvpn3-profile'',
         st_static_key = initial_text initial ''static-key'',
         st_static_key_dir = combo_row KEY_DIR (initial ''static-key-direction''),
         st_dev = initial_text initial ''dev'',
         st_dev_type = combo_row DEV_TYPES (initial ''dev-type''),
         st_proto_tcp = (initial ''proto-tcp'' = Some ''yes''),
         st_tun_mtu = adj 0 65535 (parse_int_default (initial ''tunnel-mtu'')),
         st_mssfix_enabled = mssfix_on,
         st_mssfix_bytes = adj 0 65535 mssfix_bytes_initial,
         st_fragment = adj 0 65535 (parse_int_default (initial ''fragment-size'')),
         st_keepalive_ping = adj 0 TIMER_SECS_MAX (parse_int_default (initial ''ping'')),
         st_keepalive_restart = adj 0 TIMER_SECS_MAX (parse_int_default (initial ''ping-restart'')),
         st_reneg_seconds = adj 0 TIMER_SECS_MAX (parse_int_default (initial ''reneg-seconds'')),
         st_connect_timeout = adj 0 TIMER_SECS_MAX (parse_int_default (initial ''connect-timeout'')),
         st_allow_compression = combo_row ALLOW_COMPRESSION (initial ''allow-compression''),
         st_comp_lzo = combo_row COMP_LZO (initial ''comp-lzo''),
         st_compress = combo_row COMPRESS (initial ''compress''),
         st_cipher = combo_row CIPHERS (initial ''cipher''),
         st_data_ciphers = initial_text initial ''data-ciphers'',
         st_data_ciphers_fallback = combo_row CIPHERS (initial ''data-ciphers-fallback''),
         st_tls_cipher = initial_text initial ''tls-cipher'',
         st_auth = combo_row AUTH_ALGS (initial ''auth''),
         st_keysize = adj 0 65535 (parse_int_default (initial ''keysize'')),
         st_tls_version_min = combo_row TLS_VERSIONS (initial ''tls-version-min''),
         st_tls_version_min_or_highest = (initial ''tls-version-min-or-highest'' = Some ''yes''),
         st_tls_version_max = combo_row TLS_VERSIONS (initial ''tls-version-max''),
         st_verify_x509_name = initial_text initial ''verify-x509-name'',
         st_remote_cert_tls = combo_row REMOTE_CERT_TLS (initial ''remote-cert-tls''),
         st_ns_cert_type = combo_row NS_CERT_TYPE (initial ''ns-cert-type''),
         st_ta = initial_text initial ''ta'',
         st_ta_dir = combo_row KEY_DIR (initial ''ta-dir''),
         st_tls_crypt = initial_text initial ''tls-crypt'',
         st_tls_crypt_v2 = initial_text initial ''tls-crypt-v2'',
         st_proxy_type = combo_row PROXY_TYPES (initial ''proxy-type''),
         st_proxy_server = initial_text initial ''proxy-server'',
         st_proxy_port = adj 0 65535 (parse_int_default (initial ''proxy-port'')),
         st_proxy_user = initial_text initial ''http-proxy-username'',
         st_proxy_pass = [],
         st_or_route_nopull = (initial ''override-route-nopull'' = Some ''yes''),
         st_or_force_default_gateway = (initial ''override-force-default-gateway'' = Some ''yes''),
         st_or_block_ipv6 = (initial ''override-block-ipv6'' = Some ''yes''),
         st_or_dns_setup_disabled = (initial ''override-dns-setup-disabled'' = Some ''yes''),
         st_or_dco = (initial ''override-dco'' = Some ''yes''),
         st_or_log_level = adj 0 6 (parse_int_default (initial ''override-log-level'')),
         st_initial_data = initial\<rparr>)"

section \<open>Writing the widgets back\<close>

definition yes_or_empty :: "bool \<Rightarrow> str" where
  "yes_or_empty b = (if b then ''yes'' else [])"

definition cond :: "bool \<Rightarrow> str \<Rightarrow> str" where
  "cond b s = (if b then s else [])"

definition int_or_empty :: "int \<Rightarrow> str" where
  "int_or_empty v = (if 0 < v then show_int v else [])"

definition mssfix_value :: "editor_state \<Rightarrow> str" where
  "mssfix_value st =
     (if \<not> st_mssfix_enabled st then []
      else let bytes = as_i64 (st_mssfix_bytes st) in if 0 < bytes then show_int bytes else ''yes'')"

datatype editor_call = Set str str | Set_Secret str str

text \<open>The calls of \<open>iface_update_connection\<close> after the replay, in the order of the code.\<close>

definition update_calls :: "editor_state \<Rightarrow> editor_call list" where
  "update_calls st =
     (let ct = selected_id (st_contype st); fl = contype_from_id ct
      in [Set ''connection-type'' ct,
         Set ''remote'' (st_remote st),
         Set ''port'' (int_or_empty (as_i64 (st_port st))),
         Set ''ca'' (cond (cf_tls_like fl) (st_ca st)),
         Set ''cert'' (cond (cf_needs_user_cert fl) (st_cert st)),
         Set ''key'' (cond (cf_needs_user_cert fl) (st_key st)),
         Set_Secret ''cert-pass'' (cond (cf_needs_user_cert fl) (st_cert_pass st)),
         Set ''username'' (cond (cf_needs_password fl) (st_username st)),
         Set_Secret ''password'' (cond (cf_needs_password fl) (st_password st)),
         Set ''static-key'' (cond (cf_is_static_key fl) (st_static_key st)),
         Set ''static-key-direction'' (cond (cf_is_static_key fl) (selected_id (st_static_key_dir st))),
         Set ''nm-openvpn3-profile'' (st_profile_path st),
         Set ''dev'' (st_dev st),
         Set ''dev-type'' (selected_id (st_dev_type st)),
         Set ''proto-tcp'' (yes_or_empty (st_proto_tcp st)),
         Set ''tunnel-mtu'' (int_or_empty (as_i64 (st_tun_mtu st))),
         Set ''mssfix'' (mssfix_value st),
         Set ''fragment-size'' (int_or_empty (as_i64 (st_fragment st))),
         Set ''ping'' (int_or_empty (as_i64 (st_keepalive_ping st))),
         Set ''ping-restart'' (int_or_empty (as_i64 (st_keepalive_restart st))),
         Set ''reneg-seconds'' (int_or_empty (as_i64 (st_reneg_seconds st))),
         Set ''connect-timeout'' (int_or_empty (as_i64 (st_connect_timeout st))),
         Set ''allow-compression'' (selected_id (st_allow_compression st)),
         Set ''comp-lzo'' (selected_id (st_comp_lzo st)),
         Set ''compress'' (selected_id (st_compress st)),
         Set ''cipher'' (selected_id (st_cipher st)),
         Set ''data-ciphers'' (st_data_ciphers st),
         Set ''data-ciphers-fallback'' (selected_id (st_data_ciphers_fallback st)),
         Set ''tls-cipher'' (st_tls_cipher st),
         Set ''auth'' (selected_id (st_auth st)),
         Set ''keysize'' (int_or_empty (as_i64 (st_keysize st))),
         Set ''tls-version-min'' (selected_id (st_tls_version_min st)),
         Set ''tls-version-min-or-highest'' (yes_or_empty (st_tls_version_min_or_highest st)),
         Set ''tls-version-max'' (selected_id (st_tls_version_max st)),
         Set ''verify-x509-name'' (st_verify_x509_name st),
         Set ''remote-cert-tls'' (selected_id (st_remote_cert_tls st)),
         Set ''ns-cert-type'' (selected_id (st_ns_cert_type st)),
         Set ''ta'' (st_ta st),
         Set ''ta-dir'' (selected_id (st_ta_dir st)),
         Set ''tls-crypt'' (st_tls_crypt st),
         Set ''tls-crypt-v2'' (st_tls_crypt_v2 st),
         Set ''proxy-type'' (selected_id (st_proxy_type st)),
         Set ''proxy-server'' (st_proxy_server st),
         Set ''proxy-port'' (int_or_empty (as_i64 (st_proxy_port st))),
         Set ''http-proxy-username'' (st_proxy_user st),
         Set_Secret ''http-proxy-password'' (st_proxy_pass st),
         Set ''override-route-nopull'' (yes_or_empty (st_or_route_nopull st)),
         Set ''override-force-default-gateway'' (yes_or_empty (st_or_force_default_gateway st)),
         Set ''override-block-ipv6'' (yes_or_empty (st_or_block_ipv6 st)),
         Set ''override-dns-setup-disabled'' (yes_or_empty (st_or_dns_setup_disabled st)),
         Set ''override-dco'' (yes_or_empty (st_or_dco st)),
         Set ''override-log-level'' (int_or_empty (as_i64 (st_or_log_level st)))])"

fun editor_call_effect :: "editor_call \<Rightarrow> nm_connection \<Rightarrow> nm_connection" where
  "editor_call_effect (Set k v) con =
     (if has_nul k then con
      else if v = [] \<or> has_nul v then con\<lparr>vpn_items := (vpn_items con)(k := None)\<rparr>
      else add_item k v con)"
| "editor_call_effect (Set_Secret k v) con =
     (if has_nul k \<or> v = [] then con
      else if has_nul v then con\<lparr>vpn_secret_items := (vpn_secret_items con)(k := None)\<rparr>
      else con\<lparr>vpn_secret_items := (vpn_secret_items con)(k \<mapsto> v), agent_owned := agent_owned con @ [k]\<rparr>)"

text \<open>The replay of the items the editor does not own.\<close>

definition replay_items :: "dict \<Rightarrow> nm_connection \<Rightarrow> nm_connection" where
  "replay_items initial con =
     con\<lparr>vpn_items := (\<lambda>k. case initial k of
            Some v \<Rightarrow>
              if k \<in> set WIDGET_DATA_KEYS \<or> has_nul k \<or> has_nul v then vpn_items con k else Some v
          | None \<Rightarrow> vpn_items con k)\<rparr>"

definition update_connection :: "editor_state \<Rightarrow> nm_connection \<Rightarrow> (str, nm_connection) result" where
  "update_connection st con =
     (case validate_required_fields (selected_id (st_contype st)) (st_remote st) (st_ca st) (st_cert st)
             (st_key st) (st_username st) (st_static_key st) of
        Some m \<Rightarrow> Inl m
      | None \<Rightarrow>
          Inr (foldl (\<lambda>con c. editor_call_effect c con) (replay_items (st_initial_data st) con)
                 (update_calls st)))"

text \<open>The rows a connection type shows.\<close>

definition contype_visibility :: "str \<Rightarrow> (str \<times> bool) list" where
  "contype_visibility contype =
     (let fl = contype_from_id contype
      in [(''ca'', cf_tls_like fl), (''cert'', cf_needs_user_cert fl), (''key'', cf_needs_user_cert fl),
          (''cert-pass'', cf_needs_user_cert fl), (''username'', cf_needs_password fl),
          (''password'', cf_needs_password fl), (''static-key'', cf_is_static_key fl),
          (''static-key-direction'', cf_is_static_key fl)])"

section \<open>What the calls leave in the connection\<close>

definition stored :: "str \<Rightarrow> str option" where
  "stored v = (if v = [] \<or> has_nul v then None else Some v)"

fun sets :: "editor_call list \<Rightarrow> (str \<times> str) list" where
  "sets [] = []"
| "sets (Set k v # cs) = (k, v) # sets cs"
| "sets (Set_Secret k v # cs) = sets cs"

abbreviation run_calls :: "editor_call list \<Rightarrow> nm_connection \<Rightarrow> nm_connection" where
  "run_calls cs con \<equiv> foldl (\<lambda>con c. editor_call_effect c con) con cs"

lemma effect_set:
  "\<not> has_nul k \<Longrightarrow> vpn_items (editor_call_effect (Set k v) con) = (vpn_items con)(k := stored v)"
  by (simp add: stored_def add_item_def)

lemma effect_secret [simp]: "vpn_items (editor_call_effect (Set_Secret k v) con) = vpn_items con"
  by simp

lemma run_calls_items:
  assumes "distinct (map fst (sets cs))" and "\<forall>(k, v) \<in> set (sets cs). \<not> has_nul k"
  shows "vpn_items (run_calls cs con) k =
    (case map_of (sets cs) k of Some v \<Rightarrow> stored v | None \<Rightarrow> vpn_items con k)"
  using assms
proof (induction cs arbitrary: con)
  case (Cons c cs)
  show ?case
  proof (cases c)
    case (Set k' v')
    with Cons.prems have d: "distinct (map fst (sets cs))" "\<forall>(k, v) \<in> set (sets cs). \<not> has_nul k"
      "k' \<notin> fst ` set (sets cs)" "\<not> has_nul k'" by auto
    then have "map_of (sets cs) k' = None" by (simp add: map_of_eq_None_iff)
    with Cons.IH [OF d(1,2), of "editor_call_effect c con"] Set d(4) show ?thesis
      by (simp add: effect_set del: editor_call_effect.simps split: option.split)
  next
    case (Set_Secret k' v')
    with Cons.prems Cons.IH [of "editor_call_effect c con"] show ?thesis
      by (simp del: editor_call_effect.simps split: option.split)
  qed
qed simp

fun secret_sets :: "editor_call list \<Rightarrow> (str \<times> str) list" where
  "secret_sets [] = []"
| "secret_sets (Set k v # cs) = secret_sets cs"
| "secret_sets (Set_Secret k v # cs) = (k, v) # secret_sets cs"

lemma run_calls_secret:
  assumes "\<forall>v. (k, v) \<in> set (secret_sets cs) \<longrightarrow> v = []"
  shows "vpn_secret_items (run_calls cs con) k = vpn_secret_items con k"
  using assms
proof (induction cs arbitrary: con)
  case (Cons c cs)
  then show ?case by (cases c) (auto simp: add_item_def)
qed simp

lemma run_calls_blank:
  assumes "\<forall>(k, v) \<in> set (secret_sets cs). v = []"
  shows "run_calls cs con = con\<lparr>vpn_items := vpn_items (run_calls cs con)\<rparr>"
  using assms
proof (induction cs arbitrary: con)
  case (Cons c cs)
  have "editor_call_effect c con = con\<lparr>vpn_items := vpn_items (editor_call_effect c con)\<rparr>"
    using Cons.prems by (cases c) (auto simp: add_item_def)
  moreover have "run_calls cs (editor_call_effect c con) =
      (editor_call_effect c con)\<lparr>vpn_items := vpn_items (run_calls cs (editor_call_effect c con))\<rparr>"
    using Cons.prems by (intro Cons.IH) (cases c; auto)
  ultimately show ?case
    by (metis (no_types, lifting) foldl_Cons nm_connection.surjective nm_connection.update_convs(5)
        nm_connection.select_convs)
qed simp

lemma update_keys:
  "map fst (sets (update_calls st)) = map fst (sets (update_calls st'))"
  "set (map fst (sets (update_calls st))) = set WIDGET_DATA_KEYS"
  "map fst (secret_sets (update_calls st)) = [''cert-pass'', ''password'', ''http-proxy-password'']"
  by (simp_all add: update_calls_def Let_def WIDGET_DATA_KEYS_def insert_commute)

section \<open>What a widget reads back\<close>

lemma stored_text: "\<not> has_nul v \<Longrightarrow> (case stored v of Some x \<Rightarrow> x | None \<Rightarrow> []) = v"
  by (simp add: stored_def)

lemma match_choice_sound:
  "match_choice initial i cs found = Some j \<Longrightarrow>
   found = Some j \<or> (i \<le> j \<and> j < i + length cs \<and> initial = Some (map fst cs ! (j - i)))"
proof (induction initial i cs found rule: match_choice.induct)
  case (2 initial i cid label cs found)
  from "2.IH" "2.prems" show ?case
    by (auto simp: Suc_diff_le nth_Cons' split: if_splits)
qed simp

lemma match_choice_none: "match_choice initial i cs found = None \<Longrightarrow> found = None"
  by (induction initial i cs found rule: match_choice.induct) (auto split: if_splits)

lemma combo_row_keeps:
  assumes "v \<noteq> []"
  shows "selected_id (combo_row choices (Some v)) = v"
proof (cases "match_choice (Some v) 0 choices None")
  case None
  with assms show ?thesis by (simp add: combo_row_def selected_id_def nth_opt_def Let_def nth_append)
next
  case (Some j)
  with match_choice_sound [OF Some] show ?thesis
    by (auto simp: combo_row_def selected_id_def nth_opt_def Let_def)
qed

lemma combo_row_none: "choices \<noteq> [] \<Longrightarrow> selected_id (combo_row choices None) = fst (hd choices)"
  by (cases choices) (simp_all add: combo_row_def selected_id_def nth_opt_def Let_def)

lemma stored_combo:
  assumes "\<not> has_nul v" and "choices \<noteq> []" and "fst (hd choices) = []"
  shows "selected_id (combo_row choices (stored v)) = v"
  using assms combo_row_keeps combo_row_none by (auto simp: stored_def)

lemma vocabularies_start_empty:
  "\<forall>c \<in> {KEY_DIR, DEV_TYPES, ALLOW_COMPRESSION, COMP_LZO, COMPRESS, CIPHERS, AUTH_ALGS, TLS_VERSIONS,
      REMOTE_CERT_TLS, NS_CERT_TYPE, PROXY_TYPES}. c \<noteq> [] \<and> fst (hd c) = []"
  by (simp add: KEY_DIR_def DEV_TYPES_def ALLOW_COMPRESSION_def COMP_LZO_def COMPRESS_def CIPHERS_def
      AUTH_ALGS_def TLS_VERSIONS_def REMOTE_CERT_TLS_def NS_CERT_TYPE_def PROXY_TYPES_def)

lemma stored_switch: "(stored (yes_or_empty b) = Some ''yes'') = b"
  by (simp add: stored_def yes_or_empty_def has_nul_def)

text \<open>Whole numbers below \<open>2 ^ 53\<close> are read exactly.\<close>

lemma bits_bound: "n < 2 ^ k \<Longrightarrow> bits n \<le> k"
proof (induction k arbitrary: n)
  case 0
  then show ?case by (simp add: bits.simps)
next
  case (Suc k)
  then have "bits (n div 2) \<le> k" by (intro Suc.IH) auto
  then show ?case by (subst bits.simps) simp
qed

lemma bits_one: "bits (Suc 0) = 1"
  by (simp add: bits.simps)

lemma round_whole:
  assumes "n < 2 ^ 53"
  shows "round_ratio n 1 = F_Fin (of_nat n)"
proof (cases "n = 0")
  case True
  then show ?thesis by (simp add: round_ratio_def)
next
  case False
  define e0 where "e0 = int (bits n) - int (bits 1) - 53"
  have e0: "e0 \<le> - 1" using bits_bound [OF assms] by (simp add: e0_def bits_one)
  define wide where "wide = (if 0 \<le> e0 then 2 ^ 53 * 1 * 2 ^ nat e0 \<le> n else 2 ^ 53 * 1 \<le> n * 2 ^ nat (- e0))"
  define e where "e = max (if wide then e0 + 1 else e0) (- 1074)"
  have e: "e \<le> 0" using e0 by (simp add: e_def)
  have b: "(1 :: nat) * 2 ^ nat e = 1" using e by simp
  have x: "(of_nat (n * 2 ^ nat (- e) * 2 ^ nat e) / of_nat (2 ^ nat (- e)) :: rat) = of_nat n"
    using e by simp
  have "(of_nat n :: rat) < 2 ^ 1024"
  proof -
    have "(of_nat n :: rat) < of_nat (2 ^ 53)" using assms by (simp only: of_nat_less_iff)
    also have "\<dots> \<le> 2 ^ 1024" by simp
    finally show ?thesis .
  qed
  then show ?thesis
    using False unfolding round_ratio_def Let_def e0_def [symmetric] wide_def [symmetric] e_def [symmetric]
    by (simp add: b x e)
qed

lemma no_special_digits:
  assumes "\<forall>c \<in> set s. is_ascii_digit c"
  shows "CHR ''.'' \<notin> set s" "CHR ''e'' \<notin> set s" "CHR ''i'' \<notin> set s" "CHR ''n'' \<notin> set s"
    "to_ascii_lowercase s = s"
proof -
  have "\<not> is_ascii_digit (CHR ''.'')" "\<not> is_ascii_digit (CHR ''e'')" "\<not> is_ascii_digit (CHR ''i'')"
    "\<not> is_ascii_digit (CHR ''n'')" by code_simp+
  then show "CHR ''.'' \<notin> set s" "CHR ''e'' \<notin> set s" "CHR ''i'' \<notin> set s" "CHR ''n'' \<notin> set s"
    using assms by blast+
  have "is_ascii_digit c \<Longrightarrow> to_ascii_lower_char c = c" for c
    by (auto simp: to_ascii_lower_char_def is_ascii_digit_def is_ascii_upper_def less_eq_char_def)
  then show "to_ascii_lowercase s = s" using assms by (simp add: to_ascii_lowercase_def map_idI)
qed

lemma parse_f64_show:
  assumes "0 \<le> n" and "n < 2 ^ 53"
  shows "parse_f64 (show_int n) = Some (F_Fin (of_int n))"
proof -
  note d = show_int_digits [OF assms(1)] and s = no_special_digits [OF show_int_digits(2) [OF assms(1)]]
  have hd: "hd (show_int n) \<noteq> CHR ''+''" "hd (show_int n) \<noteq> CHR ''-''"
    using d not_digits by (cases "show_int n"; auto)+
  have v: "dec_digits (show_int n) = Some n"
    using show_nonneg_props(1) [OF assms(1)] assms(1) by (simp add: dec_digits_def show_int_def)
  have "show_int n \<noteq> ''inf''" "show_int n \<noteq> ''infinity''" "show_int n \<noteq> ''nan''"
    using s(3,4) by auto
  then have "parse_magnitude (show_int n) = Some (f64_of_decimal n 0)"
    using d(1) v s by (simp add: parse_magnitude_def parse_mantissa_def split_once_None Let_def)
  moreover have "f64_of_decimal n 0 = F_Fin (of_int n)"
    using assms round_whole [of "nat n"] by (simp add: f64_of_decimal_def)
  ultimately show ?thesis using hd d(1) by (cases "show_int n") (simp_all add: parse_f64_def)
qed

text \<open>
  What the code relies on of a GTK spin row: setting a whole number within the row's
  bounds is kept.
\<close>

definition spin_holds :: "(int \<Rightarrow> int \<Rightarrow> f64 \<Rightarrow> f64) \<Rightarrow> bool" where
  "spin_holds adj \<longleftrightarrow>
     (\<forall>lo hi n. lo \<le> n \<longrightarrow> n \<le> hi \<longrightarrow> adj lo hi (F_Fin (of_int n)) = F_Fin (of_int n))"

lemma as_i64_whole: "0 \<le> n \<Longrightarrow> n < 2 ^ 53 \<Longrightarrow> as_i64 (F_Fin (of_int n)) = n"
  by simp

lemma has_nul_int: "\<not> has_nul (int_or_empty n)"
proof -
  have "\<not> is_ascii_digit (CHR 0x00)" by code_simp
  then show ?thesis using show_int_digits(2) [of n] by (auto simp: int_or_empty_def has_nul_def)
qed

lemma stored_spin:
  assumes "spin_holds adj" and "n \<le> hi" and "0 \<le> hi" and "hi < 2 ^ 53"
  shows "int_or_empty (as_i64 (adj 0 hi (parse_int_default (stored (int_or_empty n))))) = int_or_empty n"
proof (cases "0 < n")
  case True
  then have "stored (int_or_empty n) = Some (show_int n)"
    using has_nul_int [of n] show_int_digits(1) [of n] by (simp add: stored_def int_or_empty_def)
  then have "parse_int_default (stored (int_or_empty n)) = F_Fin (of_int n)"
    using parse_f64_show [of n] True assms by (simp add: parse_int_default_def)
  moreover have "adj 0 hi (F_Fin (of_int n)) = F_Fin (of_int n)"
    using assms(1,2) True by (simp add: spin_holds_def)
  moreover have "as_i64 (F_Fin (of_int n)) = n" using True assms by (intro as_i64_whole) auto
  ultimately show ?thesis by (simp del: as_i64.simps)
next
  case False
  then have "parse_int_default (stored (int_or_empty n)) = F_Fin (of_int 0)"
    by (simp add: stored_def int_or_empty_def parse_int_default_def)
  moreover have "adj 0 hi (F_Fin (of_int 0)) = F_Fin (of_int 0)"
    using assms(1,3) unfolding spin_holds_def by blast
  ultimately show ?thesis using False by (simp add: int_or_empty_def)
qed

lemma stored_mssfix:
  assumes "spin_holds adj" and "as_i64 (st_mssfix_bytes st) \<le> 65535"
    and "data ''mssfix'' = stored (mssfix_value st)"
  shows "mssfix_value (build_widget_tree adj data) = mssfix_value st"
proof -
  define n where "n = as_i64 (st_mssfix_bytes st)"
  have keep: "adj 0 65535 (F_Fin (of_int m)) = F_Fin (of_int m)" if "0 \<le> m" "m \<le> 65535" for m
    using assms(1) that by (simp add: spin_holds_def)
  consider "\<not> st_mssfix_enabled st" | "st_mssfix_enabled st" "n \<le> 0" | "st_mssfix_enabled st" "0 < n"
    by linarith
  then show ?thesis
  proof cases
    case 1
    then have "data ''mssfix'' = None" using assms(3) by (simp add: mssfix_value_def stored_def)
    with 1 show ?thesis by (simp add: mssfix_value_def build_widget_tree_def initial_text_def parse_f64_def Let_def)
  next
    case 2
    then have "data ''mssfix'' = Some ''yes''"
      using assms(3) by (simp add: mssfix_value_def stored_def n_def has_nul_def Let_def)
    moreover have "parse_f64 ''yes'' = None" by code_simp
    ultimately show ?thesis using 2 keep [of 0] by (simp add: mssfix_value_def build_widget_tree_def initial_text_def Let_def n_def)
  next
    case 3
    have v: "mssfix_value st = show_int n" using 3 by (simp add: mssfix_value_def n_def Let_def)
    have d: "data ''mssfix'' = Some (show_int n)"
      using assms(3) v 3 has_nul_int [of n] show_int_digits(1) [of n] by (simp add: stored_def int_or_empty_def)
    have p: "parse_f64 (show_int n) = Some (F_Fin (of_int n))"
      using 3 assms(2) by (intro parse_f64_show) (auto simp: n_def)
    have a: "as_i64 (F_Fin (of_int n)) = n" using 3 assms(2) by (intro as_i64_whole) (auto simp: n_def)
    have k: "adj 0 65535 (F_Fin (of_int n)) = F_Fin (of_int n)" using keep [of n] 3 assms(2) by (simp add: n_def)
    have m: "f64_max0 (F_Fin (of_int n)) = F_Fin (of_int n)" "f64_pos (F_Fin (of_int n))" using 3 by simp_all
    show ?thesis
      unfolding v using 3 by (simp add: mssfix_value_def build_widget_tree_def initial_text_def Let_def d p k a m
          del: f64_max0.simps f64_pos.simps as_i64.simps)
  qed
qed

section \<open>Apply, reopen, apply\<close>

text \<open>
  What the widgets can hold: no entry holds a NUL (GTK's text is a C string), a
  connection type is selected, the spin rows are within their bounds.
\<close>

definition widgets_ok :: "editor_state \<Rightarrow> bool" where
  "widgets_ok st \<longleftrightarrow> selected_id (st_contype st) \<noteq> []
     \<and> list_all (\<lambda>(k, v). \<not> has_nul v) (sets (update_calls st))
     \<and> list_all (\<lambda>v. as_i64 v \<le> 65535)
         [st_port st, st_tun_mtu st, st_mssfix_bytes st, st_fragment st, st_keysize st, st_proxy_port st]
     \<and> list_all (\<lambda>v. as_i64 v \<le> TIMER_SECS_MAX)
         [st_keepalive_ping st, st_keepalive_restart st, st_reneg_seconds st, st_connect_timeout st]
     \<and> as_i64 (st_or_log_level st) \<le> 6"

lemma widget_keys_plain: "\<forall>k \<in> set WIDGET_DATA_KEYS. \<not> has_nul k"
proof -
  have "list_all (\<lambda>k. \<not> has_nul k) WIDGET_DATA_KEYS" by code_simp
  then show ?thesis by (simp add: list_all_iff)
qed

lemma update_keys_distinct: "distinct (map fst (sets (update_calls st)))"
  by (simp add: update_calls_def Let_def)

lemma update_keys_plain: "\<forall>(k, v) \<in> set (sets (update_calls st)). \<not> has_nul k"
  using widget_keys_plain update_keys(2) [of st] by force

lemmas run_update_items = run_calls_items [OF update_keys_distinct update_keys_plain]

lemma saved_items:
  assumes "(k, v) \<in> set (sets (update_calls st))"
  shows "vpn_items (run_calls (update_calls st) con) k = stored v"
proof -
  have "map_of (sets (update_calls st)) k = Some v"
    using assms by (simp add: map_of_eq_Some_iff [OF update_keys_distinct])
  then show ?thesis by (simp add: run_update_items)
qed

lemma unowned_items:
  assumes "k \<notin> set WIDGET_DATA_KEYS"
  shows "vpn_items (run_calls (update_calls st) con) k = vpn_items con k"
proof -
  have "k \<notin> fst ` set (sets (update_calls st))"
    using assms update_keys(2) [of st] by simp
  then have "map_of (sets (update_calls st)) k = None" by (simp add: map_of_eq_None_iff)
  then show ?thesis by (simp add: run_update_items)
qed

text \<open>What a reopened editor would write is what was written.\<close>

lemma reopened_contype:
  assumes "data ''connection-type'' = Some ct" and "ct \<noteq> []"
  shows "selected_id (st_contype (build_widget_tree adj data)) = ct"
  using assms by (simp add: build_widget_tree_def Let_def combo_row_keeps)

lemma cond_cond [simp]: "cond b (cond b s) = cond b s"
  by (simp add: cond_def)

lemma reopened_sets:
  assumes "spin_holds adj" and "widgets_ok st"
    and "\<forall>(k, v) \<in> set (sets (update_calls st)). data k = stored v"
  shows "sets (update_calls (build_widget_tree adj data)) = sets (update_calls st)"
    "secret_sets (update_calls (build_widget_tree adj data))
       = [(''cert-pass'', []), (''password'', []), (''http-proxy-password'', [])]"
proof -
  let ?st' = "build_widget_tree adj data"
  define ct where "ct = selected_id (st_contype st)"
  note d = assms(3) [unfolded update_calls_def Let_def sets.simps list.set ball_simps split_conv ct_def [symmetric]]
  note n = assms(2) [unfolded widgets_ok_def update_calls_def Let_def sets.simps list.pred_inject split_conv ct_def [symmetric]]
  have "data ''connection-type'' = Some ct"
    using d n by (simp add: stored_def)
  then have ct: "selected_id (st_contype ?st') = ct"
    using n by (intro reopened_contype) simp_all
  have m: "mssfix_value ?st' = mssfix_value st"
    using d n by (intro stored_mssfix [OF assms(1)]) simp_all
  note spin = stored_spin [OF assms(1)]
  note voc = vocabularies_start_empty [simplified]
  show "sets (update_calls ?st') = sets (update_calls st)"
    using d n ct m voc
    by (simp add: update_calls_def Let_def ct_def [symmetric])
       (simp add: build_widget_tree_def Let_def initial_text_def stored_text stored_combo stored_switch spin
         TIMER_SECS_MAX_def)
  show "secret_sets (update_calls ?st')
       = [(''cert-pass'', []), (''password'', []), (''http-proxy-password'', [])]"
    by (simp add: update_calls_def Let_def build_widget_tree_def cond_def)
qed

lemma apply_inr:
  assumes "update_connection st con = Inr con'"
  shows "con' = run_calls (update_calls st) (replay_items (st_initial_data st) con)"
    "validate_required_fields (selected_id (st_contype st)) (st_remote st) (st_ca st) (st_cert st)
       (st_key st) (st_username st) (st_static_key st) = None"
  using assms by (auto simp: update_connection_def split: option.splits)

lemma replay_self: "replay_items (vpn_items con) con = con"
proof -
  have "(\<lambda>k. case vpn_items con k of
          Some v \<Rightarrow> if k \<in> set WIDGET_DATA_KEYS \<or> has_nul k \<or> has_nul v then vpn_items con k else Some v
        | None \<Rightarrow> vpn_items con k) = vpn_items con"
    by (auto simp: fun_eq_iff split: option.split)
  then show ?thesis by (simp add: replay_items_def)
qed

lemma sets_determine:
  assumes "sets (update_calls st') = sets (update_calls st)"
  shows "selected_id (st_contype st') = selected_id (st_contype st)" "st_remote st' = st_remote st"
    and "fl = contype_from_id (selected_id (st_contype st)) \<Longrightarrow>
      cond (cf_tls_like fl) (st_ca st') = cond (cf_tls_like fl) (st_ca st)
      \<and> cond (cf_needs_user_cert fl) (st_cert st') = cond (cf_needs_user_cert fl) (st_cert st)
      \<and> cond (cf_needs_user_cert fl) (st_key st') = cond (cf_needs_user_cert fl) (st_key st)
      \<and> cond (cf_needs_password fl) (st_username st') = cond (cf_needs_password fl) (st_username st)
      \<and> cond (cf_is_static_key fl) (st_static_key st') = cond (cf_is_static_key fl) (st_static_key st)"
proof -
  note a = assms [unfolded update_calls_def Let_def sets.simps list.inject prod.inject]
  show c: "selected_id (st_contype st') = selected_id (st_contype st)" "st_remote st' = st_remote st"
    using a by blast+
  show "cond (cf_tls_like fl) (st_ca st') = cond (cf_tls_like fl) (st_ca st)
      \<and> cond (cf_needs_user_cert fl) (st_cert st') = cond (cf_needs_user_cert fl) (st_cert st)
      \<and> cond (cf_needs_user_cert fl) (st_key st') = cond (cf_needs_user_cert fl) (st_key st)
      \<and> cond (cf_needs_password fl) (st_username st') = cond (cf_needs_password fl) (st_username st)
      \<and> cond (cf_is_static_key fl) (st_static_key st') = cond (cf_is_static_key fl) (st_static_key st)"
    if "fl = contype_from_id (selected_id (st_contype st))"
    using a unfolding c(1) that by blast
qed

lemma sets_validate:
  assumes "sets (update_calls st') = sets (update_calls st)"
  shows "(validate_required_fields (selected_id (st_contype st')) (st_remote st') (st_ca st') (st_cert st')
       (st_key st') (st_username st') (st_static_key st') = None)
    = (validate_required_fields (selected_id (st_contype st)) (st_remote st) (st_ca st) (st_cert st)
       (st_key st) (st_username st) (st_static_key st) = None)"
  using sets_determine(1,2) [OF assms] sets_determine(3) [OF assms refl]
  by (auto simp: validate_required_fields_def contype_from_id_def cond_def)

lemma reopen_unchanged:
  assumes "spin_holds adj" and "widgets_ok st" and "update_connection st con = Inr con'"
  shows "update_connection (build_widget_tree adj (vpn_items con')) con' = Inr con'"
proof -
  let ?st' = "build_widget_tree adj (vpn_items con')"
  let ?base = "replay_items (st_initial_data st) con"
  note con' = apply_inr(1) [OF assms(3)]
  have saved: "\<forall>(k, v) \<in> set (sets (update_calls st)). vpn_items con' k = stored v"
    using saved_items [of _ _ st ?base] by (auto simp: con')
  note r = reopened_sets [OF assms(1,2) saved]
  have items: "vpn_items (run_calls (update_calls ?st') con') = vpn_items con'"
  proof
    fix k
    show "vpn_items (run_calls (update_calls ?st') con') k = vpn_items con' k"
    proof (cases "map_of (sets (update_calls st)) k")
      case None
      then show ?thesis by (simp add: run_update_items r(1))
    next
      case (Some v)
      with saved have "vpn_items con' k = stored v" by (blast dest: map_of_SomeD)
      with Some show ?thesis by (simp add: run_update_items r(1))
    qed
  qed
  have "run_calls (update_calls ?st') con' = con'\<lparr>vpn_items := vpn_items (run_calls (update_calls ?st') con')\<rparr>"
    by (rule run_calls_blank) (simp add: r(2))
  then have run: "run_calls (update_calls ?st') con' = con'" by (simp add: items)
  have "validate_required_fields (selected_id (st_contype ?st')) (st_remote ?st') (st_ca ?st') (st_cert ?st')
       (st_key ?st') (st_username ?st') (st_static_key ?st') = None"
    using sets_validate [OF r(1)] apply_inr(2) [OF assms(3)] by simp
  then show ?thesis
    using run replay_self [of con']
    by (simp add: update_connection_def build_widget_tree_def [of adj "vpn_items con'"] Let_def)
qed

text \<open>
  What the editor saves it shows unchanged: reopening the editor on a connection it
  has just saved, from whatever the widgets held, and applying again without an edit
  succeeds and changes nothing (a value outside the combo rows' vocabularies included).
\<close>

theorem editor_reopen_apply:
  assumes "spin_holds adj" and "widgets_ok st" and "update_connection st con = Inr con'"
  shows "update_connection (build_widget_tree adj (vpn_items con')) con' = Inr con'"
  by (rule reopen_unchanged [OF assms])

definition gtk_spin :: "int \<Rightarrow> int \<Rightarrow> f64 \<Rightarrow> f64" where
  "gtk_spin lo hi v =
     (case v of
        F_Nan \<Rightarrow> F_Nan
      | F_Inf neg \<Rightarrow> F_Fin (of_int (if neg then lo else hi))
      | F_Fin x \<Rightarrow> F_Fin (max (of_int lo) (min (of_int hi) x)))"

lemma gtk_spin_holds: "spin_holds gtk_spin"
  by (auto simp: spin_holds_def gtk_spin_def max_def min_def)

definition edited_items :: dict where
  "edited_items =
     [''connection-type'' \<mapsto> ''password-tls'', ''remote'' \<mapsto> ''vpn:443'', ''ca'' \<mapsto> ''/ca.pem'',
      ''cert'' \<mapsto> ''/c.pem'', ''key'' \<mapsto> ''/k.pem'', ''username'' \<mapsto> ''u'', ''port'' \<mapsto> ''443'',
      ''cipher'' \<mapsto> ''CAMELLIA-256-CBC'', ''mssfix'' \<mapsto> ''1450'', ''ping-exit'' \<mapsto> ''60'',
      ''override-dco'' \<mapsto> ''yes'', ''override-log-level'' \<mapsto> ''4'']"

definition edited_connection :: nm_connection where
  "edited_connection = (connection_new ''work'')\<lparr>vpn_items := edited_items\<rparr>"

lemma gtk_spin_bounded: "0 \<le> hi \<Longrightarrow> hi < 2 ^ 53 \<Longrightarrow> as_i64 (gtk_spin 0 hi v) \<le> hi"
  by (cases v) (auto simp: gtk_spin_def floor_le_iff max_def min_def)

lemma selected_plain:
  assumes "\<forall>c \<in> set choices. \<not> has_nul (fst c)" and "\<forall>v. initial = Some v \<longrightarrow> \<not> has_nul v"
  shows "\<not> has_nul (selected_id (combo_row choices initial))"
proof -
  have "selected_id c \<in> set (combo_ids c) \<union> {[]}" for c
    by (auto simp: selected_id_def nth_opt_def)
  moreover have "set (combo_ids (combo_row choices initial)) \<subseteq> fst ` set choices \<union> set_option initial"
    by (auto simp: combo_row_def Let_def split: option.split)
  ultimately show ?thesis using assms by (fastforce simp: has_nul_def)
qed

lemma vocabularies_plain:
  "\<forall>voc \<in> {CONTYPES, KEY_DIR, DEV_TYPES, ALLOW_COMPRESSION, COMP_LZO, COMPRESS, CIPHERS, AUTH_ALGS, TLS_VERSIONS,
      REMOTE_CERT_TLS, NS_CERT_TYPE, PROXY_TYPES}. \<forall>c \<in> set voc. \<not> has_nul (fst c)"
proof -
  have "list_all (list_all (\<lambda>c. \<not> has_nul (fst c))) [CONTYPES, KEY_DIR, DEV_TYPES, ALLOW_COMPRESSION, COMP_LZO,
      COMPRESS, CIPHERS, AUTH_ALGS, TLS_VERSIONS, REMOTE_CERT_TLS, NS_CERT_TYPE, PROXY_TYPES]" by code_simp
  then show ?thesis by (simp add: list_all_iff)
qed

lemma value_plain:
  "\<not> has_nul []"
  "\<not> has_nul (yes_or_empty b)" "\<not> has_nul (int_or_empty n)" "\<not> has_nul (mssfix_value st)"
  "\<not> has_nul v \<Longrightarrow> \<not> has_nul (cond b v)"
  using has_nul_int [of n] has_nul_int [of "as_i64 (st_mssfix_bytes st)"]
  by (simp_all add: yes_or_empty_def cond_def mssfix_value_def int_or_empty_def Let_def has_nul_def)

text \<open>The widgets of a fresh editor are such a state.\<close>

lemma built_widgets_ok:
  assumes "\<And>k v. data k = Some v \<Longrightarrow> \<not> has_nul v"
  shows "widgets_ok (build_widget_tree gtk_spin data)"
proof -
  let ?st = "build_widget_tree gtk_spin data"
  have e: "\<not> has_nul (initial_text data k)" for k
    using assms by (simp add: initial_text_def has_nul_def split: option.split)
  have c: "\<not> has_nul (selected_id (combo_row voc (data k)))" if "\<forall>c \<in> set voc. \<not> has_nul (fst c)" for voc k
    using assms that by (intro selected_plain) auto
  define ct where "ct = (case data ''connection-type'' of Some v \<Rightarrow> v | None \<Rightarrow> ''tls'')"
  have "selected_id (combo_row CONTYPES (Some [])) = ''tls''"
    by (simp add: combo_row_def selected_id_def nth_opt_def CONTYPES_def)
  then have ct: "selected_id (combo_row CONTYPES (Some ct)) \<noteq> []"
    using combo_row_keeps [of ct CONTYPES] by (cases "ct = []") auto
  have "\<not> has_nul ct" using assms by (simp add: ct_def has_nul_def split: option.split)
  then have ct': "\<not> has_nul (selected_id (combo_row CONTYPES (Some ct)))"
    using vocabularies_plain by (intro selected_plain) auto
  have plain: "list_all (\<lambda>(k, v). \<not> has_nul v) (sets (update_calls ?st))"
    unfolding update_calls_def Let_def sets.simps list.pred_inject split_conv
    using ct' c vocabularies_plain e
    by (simp add: value_plain build_widget_tree_def Let_def ct_def [symmetric])
  show ?thesis
    using plain ct gtk_spin_bounded
    by (simp add: widgets_ok_def build_widget_tree_def Let_def ct_def [symmetric] TIMER_SECS_MAX_def)
qed

lemma built_required:
  "st_remote (build_widget_tree adj data) = initial_text data ''remote''"
  "st_ca (build_widget_tree adj data) = initial_text data ''ca''"
  "st_cert (build_widget_tree adj data) = initial_text data ''cert''"
  "st_key (build_widget_tree adj data) = initial_text data ''key''"
  "st_username (build_widget_tree adj data) = initial_text data ''username''"
  "st_initial_data (build_widget_tree adj data) = data"
  by (simp_all add: build_widget_tree_def Let_def)

lemma edited_state:
  "widgets_ok (build_widget_tree gtk_spin edited_items)"
  "selected_id (st_contype (build_widget_tree gtk_spin edited_items)) = ''password-tls''"
  "\<exists>con'. update_connection (build_widget_tree gtk_spin edited_items) edited_connection = Inr con'"
proof -
  let ?st = "build_widget_tree gtk_spin edited_items"
  have "edited_items k = Some v \<Longrightarrow> \<not> has_nul v" for k v
    by (auto simp: edited_items_def has_nul_def split: if_splits)
  then show "widgets_ok ?st" by (rule built_widgets_ok)
  show ct: "selected_id (st_contype ?st) = ''password-tls''"
    by (rule reopened_contype) (simp_all add: edited_items_def)
  show "\<exists>con'. update_connection ?st edited_connection = Inr con'"
    unfolding update_connection_def built_required ct
    by (simp add: validate_required_fields_def edited_items_def initial_text_def)
qed

lemma editor_reopen_apply_witness:
  "\<exists>con'. update_connection (build_widget_tree gtk_spin edited_items) edited_connection = Inr con'
     \<and> update_connection (build_widget_tree gtk_spin (vpn_items con')) con' = Inr con'"
  using edited_state(3) editor_reopen_apply [OF gtk_spin_holds edited_state(1)] by blast

text \<open>
  The editor and the service agree on what a connection type requires: Apply is
  accepted exactly when the gateway and the credentials of the type are filled in, where
  the types are those for which the profile builder writes the certificate, the password
  and the static-key directives, and the rows shown are the same ones.
\<close>

theorem editor_gate_agrees:
  fixes st :: editor_state
  defines "ct \<equiv> selected_id (st_contype st)"
  shows "(\<exists>con'. update_connection st con = Inr con') =
      (st_remote st \<noteq> []
       \<and> \<not> (needs_user_cert (Some ct) \<and> (st_ca st = [] \<or> st_cert st = [] \<or> st_key st = []))
       \<and> \<not> (is_password_like (Some ct) \<and> st_username st = [])
       \<and> \<not> (ct = ''static-key'' \<and> st_static_key st = []))
    \<and> map_of (contype_visibility ct) ''ca'' = Some (is_tls_like (Some ct))
    \<and> map_of (contype_visibility ct) ''cert'' = Some (needs_user_cert (Some ct))
    \<and> map_of (contype_visibility ct) ''password'' = Some (is_password_like (Some ct))
    \<and> map_of (contype_visibility ct) ''static-key'' = Some (ct = ''static-key'')"
  by (auto simp: update_connection_def validate_required_fields_def contype_visibility_def ct_def
      contype_from_id_def needs_user_cert_def is_password_like_def is_tls_like_def Let_def)



text \<open>
  A connection type outside the list is not replaced by \<open>tls\<close>, as a comment in
  \<open>build_widget_tree\<close> still says: \<open>combo_row\<close> appends and selects it.
\<close>

theorem unknown_contype_kept:
  "selected_id (combo_row CONTYPES (Some ''kerberos'')) = ''kerberos''"
  by (simp add: combo_row_keeps)

end
