(* ===== verification/Module_Tests.thy ===== *)
theory Module_Tests
  imports Ip4 Client Auth_Dialog Editor
begin

text \<open>
  The unit tests of the service's decoding modules, of the client's retry loop, of the auth
  dialog and of the editor's gate, run on the model.  A test that needs a file system
  or a display is not replayed.  A test of the connect coordinator is the schedule that its
  notifications force, task 1 being the Connect and task 2 the Disconnect; both wait for the lock
  by \<open>lock_connect\<close>.
\<close>

section \<open>What the tests use\<close>

definition wire_state :: "u32 \<Rightarrow> u32 \<Rightarrow> nm_state option" where
  "wire_state major minor = Option.bind (from_wire major minor) to_nm_state"

definition test_route :: "u32 \<Rightarrow> u32 \<Rightarrow> route" where
  "test_route dest pref = \<lparr>dest_be = dest, prefix = pref, next_hop_be = 0, metric = 0\<rparr>"

text \<open>The counting operation of the retry tests: the state is the number of calls.\<close>

definition counting :: "(nat \<Rightarrow> (fdo_error, 'a) result) \<Rightarrow> (nat, 'a) bus_op" where
  "counting answer calls = (answer calls, Suc calls)"

definition is_err :: "('e, 'a) result \<Rightarrow> bool" where
  "is_err r = (case r of Inl _ \<Rightarrow> True | Inr _ \<Rightarrow> False)"

text \<open>The message catalogue of the C locale: \<open>tr\<close> returns the message id.\<close>

fun untranslated :: "msg \<Rightarrow> str" where
  "untranslated M_Need_Auth = (''You need to authenticate to access the Virtual Private Network '' @ [CHR 0xE2, CHR 0x80, CHR 0x9C] @ ''{name}'' @ [CHR 0xE2, CHR 0x80, CHR 0x9D] @ ''.'')"
| "untranslated M_Title = ''Authentication required''"
| "untranslated M_Password = ''Password''"
| "untranslated M_Cert_Password = ''Certificate password''"
| "untranslated M_Proxy_Password = ''HTTP proxy password''"
| "untranslated M_Challenge = ''Challenge response''"

text \<open>\<open>matches(p).count()\<close> for a pattern that cannot overlap itself.\<close>

fun count_matches :: "str \<Rightarrow> str \<Rightarrow> nat" where
  "count_matches p [] = 0"
| "count_matches p (c # s) = (if starts_with (c # s) p then 1 else 0) + count_matches p s"

definition required_missing :: "str \<Rightarrow> str \<Rightarrow> str \<Rightarrow> str \<Rightarrow> str \<Rightarrow> str option" where
  "required_missing ct remote ca cert key =
     validate_required_fields ct remote ca cert key ''user'' ''sk.key''"

section \<open>The tests of status.rs\<close>

definition from_wire_rejects_unknown_major_minor :: bool where
  "from_wire_rejects_unknown_major_minor \<longleftrightarrow>
     from_wire 99 7 = None
     \<and> from_wire 2 99 = None
     \<and> from_wire 3 7 = None"

definition connecting_and_reconnecting_map_to_starting :: bool where
  "connecting_and_reconnecting_map_to_starting \<longleftrightarrow>
     wire_state 2 6 = Some Starting
     \<and> wire_state 2 12 = Some Starting"

definition connected_maps_to_started :: bool where
  "connected_maps_to_started \<longleftrightarrow>
     wire_state 2 7 = Some Started"

definition conn_done_maps_to_stopped :: bool where
  "conn_done_maps_to_stopped \<longleftrightarrow>
     wire_state 2 16 = Some Stopped"

definition disconnected_failed_authfailed_map_to_stopped :: bool where
  "disconnected_failed_authfailed_map_to_stopped \<longleftrightarrow>
     wire_state 2 9 = Some Stopped
     \<and> wire_state 2 10 = Some Stopped
     \<and> wire_state 2 11 = Some Stopped
     \<and> wire_state 3 11 = Some Stopped"

definition disconnecting_is_log_only :: bool where
  "disconnecting_is_log_only \<longleftrightarrow>
     wire_state 2 8 = None"

definition failure_reason_classifies_auth_vs_transport :: bool where
  "failure_reason_classifies_auth_vs_transport \<longleftrightarrow>
     map_option failure_reason (from_wire 2 11) = Some Login_Failed
     \<and> map_option failure_reason (from_wire 3 11) = Some Login_Failed
     \<and> map_option failure_reason (from_wire 2 16) = Some Connect_Failed
     \<and> map_option failure_reason (from_wire 2 10) = Some Connect_Failed"

definition status_tests :: "bool list" where
  "status_tests =
     [from_wire_rejects_unknown_major_minor, connecting_and_reconnecting_map_to_starting,
       connected_maps_to_started, conn_done_maps_to_stopped,
       disconnected_failed_authfailed_map_to_stopped, disconnecting_is_log_only,
       failure_reason_classifies_auth_vs_transport]"

lemma status_tests_pass: "list_all (\<lambda>t. t) status_tests"
  unfolding status_tests_def list.pred_inject
  by (intro conjI TrueI; code_simp)

section \<open>The tests of routes.rs\<close>

definition parses_default_and_filters_iface :: bool where
  "parses_default_and_filters_iface \<longleftrightarrow>
     (let raw = (''Iface'' @ [TAB] @ ''Destination'' @ [TAB] @ ''Gateway'' @ [TAB] @ ''Flags'' @ [TAB] @
       ''RefCnt'' @ [TAB] @ ''Use'' @ [TAB] @ ''Metric'' @ [TAB] @ ''Mask'' @ [TAB] @ ''MTU'' @
       [TAB] @ ''Window'' @ [TAB] @ ''IRTT'' @ [LF]) @
                (''tun0'' @ [TAB] @ ''00000000'' @ [TAB] @ ''0100000A'' @ [TAB] @ ''0003'' @ [TAB] @
                  ''0'' @ [TAB] @ ''0'' @ [TAB] @ ''50'' @ [TAB] @ ''00000000'' @ [TAB] @ ''0'' @
                  [TAB] @ ''0'' @ [TAB] @ ''0'' @ [LF]) @
                (''eth0'' @ [TAB] @ ''0000FE0A'' @ [TAB] @ ''00000000'' @ [TAB] @ ''0001'' @ [TAB] @
                  ''0'' @ [TAB] @ ''0'' @ [TAB] @ ''100'' @ [TAB] @ ''FFFFFFFF'' @ [TAB] @ ''0'' @
                  [TAB] @ ''0'' @ [TAB] @ ''0'' @ [LF])
      in case parse_proc_routes raw ''tun0'' of
           [r] \<Rightarrow> dest_be r = 0 \<and> prefix r = 0 \<and> metric r = 50 \<and> has_default_route [r]
         | _ \<Rightarrow> False)"

definition skips_short_and_malformed_rows :: bool where
  "skips_short_and_malformed_rows \<longleftrightarrow>
     (let raw = (''hdr'' @ [LF]) @ (''tun0'' @ [TAB] @ ''ZZZZ'' @ [TAB] @ ''0'' @ [TAB] @ ''0'' @ [TAB] @
       ''0'' @ [TAB] @ ''0'' @ [TAB] @ ''0'' @ [TAB] @ ''00000000'' @ [TAB] @ ''0'' @ [TAB] @ ''0''
       @ [TAB] @ ''0'' @ [LF]) @ (''tun0'' @ [TAB] @ ''toofew'' @ [TAB] @ ''cols'' @ [LF]) @
                (''tun0'' @ [TAB] @ ''FFFFFFFF'' @ [TAB] @ ''0'' @ [TAB] @ ''0'' @ [TAB] @ ''0'' @
                  [TAB] @ ''0'' @ [TAB] @ ''10'' @ [TAB] @ ''FFFFFF00'' @ [TAB] @ ''0'' @ [TAB] @
                  ''0'' @ [TAB] @ ''0'' @ [LF])
      in case parse_proc_routes raw ''tun0'' of [r] \<Rightarrow> prefix r = 24 | _ \<Rightarrow> False)"

definition default_route_literal_and_negatives :: bool where
  "default_route_literal_and_negatives \<longleftrightarrow>
     \<not> has_default_route []
     \<and> has_default_route [test_route 0 0]
     \<and> \<not> has_default_route [test_route 0 8]
     \<and> \<not> has_default_route [test_route (to_be (ipv4_u32 10 0 0 0)) 8]"

definition default_route_def1_split :: bool where
  "default_route_def1_split \<longleftrightarrow>
     has_default_route [test_route 0 1, test_route 0x80 1]
     \<and> \<not> has_default_route [test_route 0 1]
     \<and> \<not> has_default_route [test_route 0x80 1]"

definition routes_tests :: "bool list" where
  "routes_tests =
     [parses_default_and_filters_iface, skips_short_and_malformed_rows,
       default_route_literal_and_negatives, default_route_def1_split]"

lemma routes_tests_pass: "list_all (\<lambda>t. t) routes_tests"
  unfolding routes_tests_def list.pred_inject
  by (intro conjI TrueI; code_simp)

section \<open>The tests of ip4.rs\<close>

definition gateway_host_v4_literal_is_used_directly :: bool where
  "gateway_host_v4_literal_is_used_directly \<longleftrightarrow>
     classify_gateway_host ''1.2.3.4'' = GW_V4 (to_be (ipv4_u32 1 2 3 4))"

definition gateway_host_v6_literal_is_not_sent_to_dns :: bool where
  "gateway_host_v6_literal_is_not_sent_to_dns \<longleftrightarrow>
     classify_gateway_host ''2001:db8::1'' = GW_V6
     \<and> classify_gateway_host ''::1'' = GW_V6"

definition gateway_host_name_goes_to_dns :: bool where
  "gateway_host_name_goes_to_dns \<longleftrightarrow>
     classify_gateway_host ''vpn.example.com'' = GW_Name"

definition tun_addr_prefix_byte_order :: bool where
  "tun_addr_prefix_byte_order \<longleftrightarrow>
     ifv4_to_addr_prefix (ipv4_u32 10 8 0 6) (ipv4_u32 255 255 255 0) = (to_be (ipv4_u32 10 8 0 6), 24)
     \<and> snd (ifv4_to_addr_prefix (ipv4_u32 10 8 0 6) (ipv4_u32 255 255 255 255)) = 32
     \<and> snd (ifv4_to_addr_prefix (ipv4_u32 0 0 0 0) (ipv4_u32 0 0 0 0)) = 0"

definition dns_array_encodes_be_and_drops_non_ipv4 :: bool where
  "dns_array_encodes_be_and_drops_non_ipv4 \<longleftrightarrow>
     dns_strings_to_array [''1.2.3.4'', ''not-an-ip'', ''::1'', ''9.9.9.9'']
       = [to_be (ipv4_u32 1 2 3 4), to_be (ipv4_u32 9 9 9 9)]"

definition dns_array_all_invalid_is_empty :: bool where
  "dns_array_all_invalid_is_empty \<longleftrightarrow>
     dns_strings_to_array [''x'', ''y''] = []"

definition ip4_tests :: "bool list" where
  "ip4_tests =
     [gateway_host_v4_literal_is_used_directly, gateway_host_v6_literal_is_not_sent_to_dns,
       gateway_host_name_goes_to_dns, tun_addr_prefix_byte_order,
       dns_array_encodes_be_and_drops_non_ipv4, dns_array_all_invalid_is_empty]"

lemma ip4_tests_pass: "list_all (\<lambda>t. t) ip4_tests"
  unfolding ip4_tests_def list.pred_inject
  by (intro conjI TrueI; code_simp)

section \<open>The tests of retry.rs\<close>

definition cold_start_object_not_yet_registered_is_pre_dispatch :: bool where
  "cold_start_object_not_yet_registered_is_pre_dispatch \<longleftrightarrow>
     is_pre_dispatch_transient Unknown_Object
     \<and> is_pre_dispatch_transient (Unknown_Method
       ''Object does not exist at path /net/openvpn/v3/configuration'')
     \<and> is_pre_dispatch_transient Service_Unknown"

definition ambiguous_failures_are_not_pre_dispatch :: bool where
  "ambiguous_failures_are_not_pre_dispatch \<longleftrightarrow>
     \<not> is_pre_dispatch_transient No_Reply
     \<and> \<not> is_pre_dispatch_transient Timed_Out
     \<and> \<not> is_pre_dispatch_transient Disconnected_Err"

definition unknown_method_without_object_marker_is_permanent :: bool where
  "unknown_method_without_object_marker_is_permanent \<longleftrightarrow>
     \<not> is_pre_dispatch_transient (Unknown_Method (''Method '' @ [SQUOTE] @ ''Foo'' @ [SQUOTE] @
       '' not implemented''))"

definition attempts_zero_never_calls_op :: bool where
  "attempts_zero_never_calls_op \<longleftrightarrow>
     (let (r, calls) = with_activation_retry 0 (counting (\<lambda>n. Inr ())) 0
      in is_err r \<and> calls = 0)"

definition permanent_error_not_retried :: bool where
  "permanent_error_not_retried \<longleftrightarrow>
     (let (r, calls) = with_activation_retry 3 (counting
       (\<lambda>n. Inl No_Reply :: (fdo_error, unit) result)) 0
      in is_err r \<and> calls = 1)"

definition transient_retried_then_last_error :: bool where
  "transient_retried_then_last_error \<longleftrightarrow>
     (let (r, calls) = with_activation_retry 3 (counting
       (\<lambda>n. Inl Service_Unknown :: (fdo_error, unit) result)) 0
      in is_err r \<and> calls = 3)"

definition transient_then_success_stops_early :: bool where
  "transient_then_success_stops_early \<longleftrightarrow>
     (let (r, calls) = with_activation_retry 5 (counting
       (\<lambda>n. if n = 0 then Inl Unknown_Object else Inr (7 :: int))) 0
      in r = Inr 7 \<and> calls = 2)"

definition retry_tests :: "bool list" where
  "retry_tests =
     [cold_start_object_not_yet_registered_is_pre_dispatch, ambiguous_failures_are_not_pre_dispatch,
       unknown_method_without_object_marker_is_permanent, attempts_zero_never_calls_op,
       permanent_error_not_retried, transient_retried_then_last_error,
       transient_then_success_stops_early]"

lemma retry_tests_pass: "list_all (\<lambda>t. t) retry_tests"
  unfolding retry_tests_def list.pred_inject
  by (intro conjI TrueI; code_simp)

section \<open>The tests of connect_coord.rs\<close>

definition teardown_set_during_connect_is_seen_at_checkpoint :: bool where
  "teardown_set_during_connect_is_seen_at_checkpoint \<longleftrightarrow>
     (case lock_connect 1 plugin_new of
        None \<Rightarrow> False
      | Some s \<Rightarrow>
          (let s = request_teardown (clear_teardown s)
           in Option.is_none (lock_connect 2 s) \<and> teardown_requested s))"

definition disconnect_is_serialised_after_connect :: bool where
  "disconnect_is_serialised_after_connect \<longleftrightarrow>
     (case lock_connect 1 plugin_new of
        None \<Rightarrow> False
      | Some s \<Rightarrow>
          (let s = request_teardown (clear_teardown s)
           in Option.is_none (lock_connect 2 s) \<and> \<not> Option.is_none (lock_connect 2 (unlock s))))"

definition persist_reconnect_clears_stale_teardown :: bool where
  "persist_reconnect_clears_stale_teardown \<longleftrightarrow>
     (case lock_connect 2 (request_teardown plugin_new) of
        None \<Rightarrow> False
      | Some s \<Rightarrow>
          (let s = unlock s
           in teardown_requested s
              \<and> (case lock_connect 1 s of None \<Rightarrow> False | Some s \<Rightarrow> \<not> teardown_requested
                (clear_teardown s))))"

definition connect_coord_tests :: "bool list" where
  "connect_coord_tests =
     [teardown_set_during_connect_is_seen_at_checkpoint, disconnect_is_serialised_after_connect,
       persist_reconnect_clears_stale_teardown]"

lemma connect_coord_tests_pass: "list_all (\<lambda>t. t) connect_coord_tests"
  unfolding connect_coord_tests_def list.pred_inject
  by (intro conjI TrueI; code_simp)

section \<open>The tests of the auth dialog\<close>

definition parses_data_and_secrets_blocks :: bool where
  "parses_data_and_secrets_blocks \<longleftrightarrow>
     (case read_vpn_details (map Some (lines ((''DATA_KEY=connection-type'' @ [LF] @
       ''DATA_VAL=password'' @ [LF, LF] @ ''SECRET_KEY=password'' @ [LF] @ ''SECRET_VAL=p'' @ [LF,
       LF] @ ''DONE'' @ [LF])))) of
        Inl _ \<Rightarrow> False
      | Inr (d, s) \<Rightarrow> d ''connection-type'' = Some ''password'' \<and> s ''password'' = Some ''p'')"

definition hints_override_inference :: bool where
  "hints_override_inference \<longleftrightarrow>
     (let n = needs (\<lambda>_. no_key_file) Map.empty [''password'', ''x-vpn-message:hi'']
      in n_password n \<and> n_prompt n = Some ''hi'')"

definition password_tls_requires_password :: bool where
  "password_tls_requires_password \<longleftrightarrow>
     n_password (needs (\<lambda>_. no_key_file) [''connection-type'' \<mapsto> ''password-tls''] [])"

definition flag_not_required_suppresses_password :: bool where
  "flag_not_required_suppresses_password \<longleftrightarrow>
     \<not> n_password (needs (\<lambda>_. no_key_file) [''connection-type'' \<mapsto> ''password'',
       ''password-flags'' \<mapsto> ''4''] [])"

definition flag_not_saved_still_prompts :: bool where
  "flag_not_saved_still_prompts \<longleftrightarrow>
     (let data = [''connection-type'' \<mapsto> ''password'', ''password-flags'' \<mapsto> ''2'']
      in n_password (needs (\<lambda>_. no_key_file) data []) \<and> n_password (needs
        (\<lambda>_. no_key_file) (data(''password-flags'' \<mapsto> ''1'')) []))"

definition proxy_server_present_needs_proxypass :: bool where
  "proxy_server_present_needs_proxypass \<longleftrightarrow>
     (let d = [''connection-type'' \<mapsto> ''tls'', ''proxy-server'' \<mapsto> ''proxy.example:8080'']
      in n_proxypass (needs (\<lambda>_. no_key_file) d []) \<and> \<not> n_proxypass (needs
        (\<lambda>_. no_key_file) (d(''proxy-server'' \<mapsto> [])) []))"

definition challenge_echo_hint_sets_force_echo_flag :: bool where
  "challenge_echo_hint_sets_force_echo_flag \<longleftrightarrow>
     (let n = needs (\<lambda>_. no_key_file) Map.empty [''x-dynamic-challenge-echo:challenge-response''];
          n2 = needs (\<lambda>_. no_key_file) Map.empty [''x-dynamic-challenge:challenge-response'']
      in n_challenge n \<and> n_echo n \<and> n_challenge n2 \<and> \<not> n_echo n2)"

definition escape_neutralises_keyfile_metacharacters :: bool where
  "escape_neutralises_keyfile_metacharacters \<longleftrightarrow>
     escape (''a'' @ [BACKSLASH] @ ''b'') = (''a'' @ [BACKSLASH, BACKSLASH] @ ''b'')
     \<and> escape (''line1'' @ [LF] @ ''line2'') = (''line1'' @ [BACKSLASH] @ ''nline2'')
     \<and> escape (''a'' @ [TAB] @ ''b'' @ [CR] @ ''c'') = (''a'' @ [BACKSLASH] @ ''tb'' @ [BACKSLASH] @
       ''rc'')
     \<and> escape ''plain text'' = ''plain text''"

definition description_line_cannot_be_broken_by_vpn_message :: bool where
  "description_line_cannot_be_broken_by_vpn_message \<longleftrightarrow>
     contains_str (write_eui_keyfile untranslated (''evil'' @ [LF] @ ''ShouldAsk=true'')
       (needed_default\<lparr>n_password := True\<rparr>) True)
       (''Description=evil'' @ [BACKSLASH] @ ''nShouldAsk=true'')"

definition non_interactive_emits_no_should_ask :: bool where
  "non_interactive_emits_no_should_ask \<longleftrightarrow>
     \<not> contains_str
       (write_eui_keyfile untranslated ''prompt''
          (needed_default\<lparr>n_password := True, n_certpass := True, n_proxypass := True,
            n_challenge := True\<rparr>) False)
       ''ShouldAsk=true''"

definition interactive_asks_only_needed :: bool where
  "interactive_asks_only_needed \<longleftrightarrow>
     count_matches ''ShouldAsk=true''
       (write_eui_keyfile untranslated ''p'' (needed_default\<lparr>n_password := True\<rparr>) True) = 1"

definition read_vpn_details_edge_cases :: bool where
  "read_vpn_details_edge_cases \<longleftrightarrow>
     (case read_vpn_details (map Some (lines ((''DATA_KEY=connection-type'' @ [LF] @
       ''DATA_VAL=password'' @ [LF, LF] @ ''SECRET_KEY=password'' @ [LF] @ ''SECRET_VAL=a=b==c'' @
       [LF, LF] @ ''DONE'' @ [LF])))) of
        Inl _ \<Rightarrow> False
      | Inr (d, s) \<Rightarrow> s ''password'' = Some ''a=b==c'')
     \<and> (case read_vpn_details (map Some (lines ((''DATA_KEY=k'' @ [LF] @ ''SECRET_VAL=leak'' @ [LF]
       @ ''DATA_VAL=v'' @ [LF, LF] @ ''DONE'' @ [LF])))) of
        Inl _ \<Rightarrow> False
      | Inr (d, s) \<Rightarrow> s = Map.empty \<and> d ''k'' = Some ''v'')
     \<and> (case read_vpn_details (map Some (lines ((''DATA_KEY='' @ [LF] @ ''DATA_VAL=v'' @ [LF] @
       ''DATA_KEY=real'' @ [LF] @ ''DATA_VAL=w'' @ [LF, LF] @ ''DONE'' @ [LF])))) of
        Inl _ \<Rightarrow> False
      | Inr (d, s) \<Rightarrow> d [] = None \<and> d ''real'' = Some ''w'')"

definition write_no_secret_emits_marker_block :: bool where
  "write_no_secret_emits_marker_block \<longleftrightarrow>
     contains_str write_no_secret ''[no-secret]''
     \<and> contains_str write_no_secret ''Value=true''
     \<and> contains_str write_no_secret ''ShouldAsk=false''"

definition auth_dialog_tests :: "bool list" where
  "auth_dialog_tests =
     [parses_data_and_secrets_blocks, hints_override_inference, password_tls_requires_password,
       flag_not_required_suppresses_password, flag_not_saved_still_prompts,
       proxy_server_present_needs_proxypass, challenge_echo_hint_sets_force_echo_flag,
       escape_neutralises_keyfile_metacharacters, description_line_cannot_be_broken_by_vpn_message,
       non_interactive_emits_no_should_ask, interactive_asks_only_needed,
       read_vpn_details_edge_cases, write_no_secret_emits_marker_block]"

lemma read_vpn_details_edge_cases_holds: read_vpn_details_edge_cases
proof -
  have "lines (''DATA_KEY=k'' @ [LF] @ ''SECRET_VAL=leak'' @ [LF] @ ''DATA_VAL=v'' @ [LF, LF] @ ''DONE'' @ [LF])
      = [''DATA_KEY=k'', ''SECRET_VAL=leak'', ''DATA_VAL=v'', [], ''DONE'']" by code_simp
  then have bad: "read_vpn_details (map Some (lines (''DATA_KEY=k'' @ [LF] @ ''SECRET_VAL=leak'' @ [LF]
        @ ''DATA_VAL=v'' @ [LF, LF] @ ''DONE'' @ [LF]))) = Inr ([''k'' \<mapsto> ''v''], Map.empty)"
    by (simp add: read_vpn_details_def details_line_def details_pair_def details_init_def)
  show ?thesis unfolding read_vpn_details_edge_cases_def bad sum.case prod.case
    by (intro conjI; (rule refl | code_simp))
qed

lemma auth_dialog_tests_pass: "list_all (\<lambda>t. t) auth_dialog_tests"
  unfolding auth_dialog_tests_def list.pred_inject
  by (intro conjI TrueI; (rule read_vpn_details_edge_cases_holds | code_simp))

section \<open>The tests of the editor\<close>

definition missing_gateway_always_rejected :: bool where
  "missing_gateway_always_rejected \<longleftrightarrow>
     required_missing ''tls'' [] ''ca.pem'' ''c.pem'' ''k.pem'' \<noteq> None"

definition tls_requires_ca_cert_and_key :: bool where
  "tls_requires_ca_cert_and_key \<longleftrightarrow>
     required_missing ''tls'' ''gw'' [] ''c.pem'' ''k.pem'' \<noteq> None
     \<and> required_missing ''tls'' ''gw'' ''ca.pem'' [] ''k.pem'' \<noteq> None
     \<and> required_missing ''tls'' ''gw'' ''ca.pem'' ''c.pem'' [] \<noteq> None
     \<and> required_missing ''tls'' ''gw'' ''ca.pem'' ''c.pem'' ''k.pem'' = None"

definition password_tls_requires_cert_and_key_too :: bool where
  "password_tls_requires_cert_and_key_too \<longleftrightarrow>
     required_missing ''password-tls'' ''gw'' ''ca.pem'' [] ''k.pem'' \<noteq> None
     \<and> required_missing ''password-tls'' ''gw'' ''ca.pem'' ''c.pem'' [] \<noteq> None
     \<and> required_missing ''password-tls'' ''gw'' ''ca.pem'' ''c.pem'' ''k.pem'' = None"

definition password_requires_username :: bool where
  "password_requires_username \<longleftrightarrow>
     validate_required_fields ''password'' ''gw'' ''ca.pem'' [] [] [] [] \<noteq> None
     \<and> validate_required_fields ''password'' ''gw'' ''ca.pem'' [] [] ''alice'' [] = None"

definition static_key_requires_key_file :: bool where
  "static_key_requires_key_file \<longleftrightarrow>
     validate_required_fields ''static-key'' ''gw'' [] [] [] [] [] \<noteq> None
     \<and> validate_required_fields ''static-key'' ''gw'' [] [] [] [] ''sk.key'' = None"

definition editor_tests :: "bool list" where
  "editor_tests =
     [missing_gateway_always_rejected, tls_requires_ca_cert_and_key,
       password_tls_requires_cert_and_key_too, password_requires_username,
       static_key_requires_key_file]"

lemma editor_tests_pass: "list_all (\<lambda>t. t) editor_tests"
  unfolding editor_tests_def list.pred_inject
  by (intro conjI TrueI; code_simp)

end
