(* ===== verification/Agreement_Check.thy ===== *)
theory Agreement_Check
  imports Test_Kit Bridge "HOL-Library.List_Lexorder" "HOL-Library.Char_ord"
begin

text \<open>
  \<open>nm-openvpn3-service/src/cross_emitter_agreement.rs\<close>: the project's own check that its two
  emitters agree, with the samples it runs on, and
  \<open>nm-openvpn3-properties/tests/fixtures_round_trip.rs\<close> with the files it reads.  A panic is \<open>None\<close>, or an assertion that fails.
\<close>

section \<open>The check\<close>

fun directive_line :: "directive \<Rightarrow> str" where
  "directive_line (Option name args) = (if args = [] then name else name @ '' '' @ join '' '' args)"
| "directive_line (Blob name body) = ''<'' @ name @ ''>''"

definition canonical :: "str \<Rightarrow> str list option" where
  "canonical profile =
     (case parse profile of Inl e \<Rightarrow> None | Inr ds \<Rightarrow> Some (sort (map directive_line ds)))"

definition connect_emit :: "(str \<times> str) list \<Rightarrow> str option" where
  "connect_emit pairs =
     (case build_profile_string (collect_pairs pairs) Map.empty of Inl e \<Rightarrow> None | Inr profile \<Rightarrow> Some profile)"

definition export_emit :: "(str \<times> str) list \<Rightarrow> str" where
  "export_emit pairs = emit (from_nm_data (collect_pairs pairs))"

definition assert_agree :: "(str \<times> str) list \<Rightarrow> bool" where
  "assert_agree pairs =
     (case (Option.bind (connect_emit pairs) canonical, canonical (export_emit pairs)) of
        (Some connect, Some export) \<Rightarrow> connect = export
      | _ \<Rightarrow> False)"

section \<open>The samples\<close>

definition tls_full :: "(str \<times> str) list" where
  "tls_full =
     [(''connection-type'', ''tls''), (''remote'', ''vpn.example.com:1194:udp''), (''ca'', ''/etc/ovpn/ca.pem''),
      (''cert'', ''/etc/ovpn/client.crt''), (''key'', ''/etc/ovpn/client.key''), (''cipher'', ''AES-256-GCM''),
      (''auth'', ''SHA256''), (''keysize'', ''256''), (''remote-cert-tls'', ''server''), (''ns-cert-type'', ''server''),
      (''reneg-seconds'', ''3600''), (''port'', ''1194''), (''ping'', ''10''), (''ping-restart'', ''60''),
      (''tls-version-min'', ''1.2''), (''tls-version-max'', ''1.3''), (''extra-certs'', ''/etc/ovpn/extra.pem''),
      (''verify-x509-name'', ''name-prefix:server'')]"

definition password_tls :: "(str \<times> str) list" where
  "password_tls =
     [(''connection-type'', ''password-tls''), (''remote'', ''vpn.example.com''), (''ca'', ''/etc/ovpn/ca.pem''),
      (''cert'', ''/etc/ovpn/client.crt''), (''key'', ''/etc/ovpn/client.key''), (''ta'', ''/etc/ovpn/ta.key''),
      (''ta-dir'', ''1''), (''tls-crypt'', ''/etc/ovpn/tc.key'')]"

definition password_only :: "(str \<times> str) list" where
  "password_only =
     [(''connection-type'', ''password''), (''remote'', ''vpn.example.com''), (''ca'', ''/etc/ovpn/ca.pem''),
      (''proto-tcp'', ''yes'')]"

definition static_key_stale_tls :: "(str \<times> str) list" where
  "static_key_stale_tls =
     [(''connection-type'', ''static-key''), (''remote'', ''vpn.example.com''), (''static-key'', ''/etc/ovpn/static.key''),
      (''static-key-direction'', ''1''), (''local-ip'', ''10.8.0.2''), (''remote-ip'', ''10.8.0.1''),
      (''remote-cert-tls'', ''server''), (''ns-cert-type'', ''server''), (''tls-remote'', ''/CN=server''),
      (''tls-version-max'', ''1.3''), (''extra-certs'', ''/etc/ovpn/extra.pem''),
      (''crl-verify-file'', ''/etc/ovpn/crl.pem'')]"

definition extra_routes :: "(str \<times> str) list" where
  "extra_routes =
     [(''connection-type'', ''tls''), (''remote'', ''vpn.example.com''), (''ca'', ''/etc/ovpn/ca.pem''),
      (''cert'', ''/etc/ovpn/client.crt''), (''key'', ''/etc/ovpn/client.key''),
      (''nm-openvpn3-extra-routes'',
       ''route 10.0.0.0 255.0.0.0'' @ [LF] @ ''route-up /tmp/evil.sh'' @ [LF]
       @ ''route 192.168.1.0 255.255.255.0 10.0.0.1'' @ [LF] @ ''route-gateway 10.8.0.1'')]"

definition corpus :: "(str \<times> str) list list" where
  "corpus = [tls_full, password_tls, password_only, static_key_stale_tls, extra_routes]"

section \<open>The check passes\<close>

lemma validate_perm:
  "validate ds = Inr () \<longleftrightarrow> (\<forall>d \<in> set ds. case d of Option n args \<Rightarrow> validate_option n args = Inr () | Blob n b \<Rightarrow> True)"
  by (induction ds rule: validate.induct) (auto split: sum.splits)

lemma export_parses:
  assumes "validate (from_nm_data data) = Inr ()"
  shows "parse (emit (from_nm_data data)) = Inr (from_nm_data data)"
proof -
  from parse_emit_lines [OF from_nm_data_parseable] obtain ls where
    ls: "emit (from_nm_data data) = unlines ls" "\<forall>l \<in> set ls. LF \<notin> set l \<and> strip_cr l = l"
      "\<forall>n. parse_lines n ls = Inr (from_nm_data data)" by blast
  then have "lines (emit (from_nm_data data)) = ls"
    using lines_lines [of ls "[]"] by (simp add: unlines_def)
  with ls(3) assms show ?thesis by (simp add: parse_inr parse_directives_def)
qed

text \<open>
  C7: The project's agreement test passes on every input, not only on its samples: for every list
  of settings with a gateway whose numbers are numbers, that is no half PKCS#12 bundle and whose
  export the importer accepts, both profiles parse and their canonical forms are equal.
\<close>

theorem agreement_check_passes:
  assumes "emitters_comparable (collect_pairs pairs)" and "get (collect_pairs pairs) ''remote'' \<noteq> None"
    and "validate (from_nm_data (collect_pairs pairs)) = Inr ()"
  shows "assert_agree pairs"
proof -
  let ?data = "collect_pairs pairs"
  from assms(2) obtain profile where c: "build_profile_string ?data Map.empty = Inr profile"
    by (auto simp: build_profile_text)
  from emitters_agree [OF c assms(1)] obtain ds where
    ds: "parse_directives profile = Inr ds" "mset ds = mset (from_nm_data ?data)" by blast
  from ds(2) have "set ds = set (from_nm_data ?data)" by (rule mset_eq_setD)
  with assms(3) have "validate ds = Inr ()" by (simp add: validate_perm)
  with ds(1) have "parse profile = Inr ds" by (simp add: parse_inr)
  moreover have "mset (map directive_line ds) = mset (map directive_line (from_nm_data ?data))"
    using ds(2) by simp
  then have "sort (map directive_line ds) = sort (map directive_line (from_nm_data ?data))"
    by (metis properties_for_sort mset_sort sorted_sort)
  ultimately show ?thesis
    using export_parses [OF assms(3)] c by (simp add: assert_agree_def connect_emit_def export_emit_def canonical_def)
qed

lemma comparable_samples:
  assumes "list_all (int_ok data) INT_KEYS \<and> get data ''mssfix'' = None \<and> (connect_collapse data \<longrightarrow> get data ''ca'' = get data ''cert'')"
  shows "emitters_comparable data"
  using assms by (simp add: emitters_comparable_def mssfix_ok_def)

definition sample_conditions :: "(str \<times> str) list \<Rightarrow> bool" where
  "sample_conditions pairs \<longleftrightarrow>
     (let data = collect_pairs pairs
      in list_all (int_ok data) INT_KEYS \<and> get data ''mssfix'' = None
         \<and> (connect_collapse data \<longrightarrow> get data ''ca'' = get data ''cert'')
         \<and> get data ''remote'' \<noteq> None \<and> validate (from_nm_data data) = Inr ())"

lemma corpus_conditions: "list_all sample_conditions corpus"
  unfolding corpus_def list.pred_inject by (intro conjI TrueI; code_simp)

lemma agreement_check_passes_witness: "list_all assert_agree corpus"
proof -
  have "assert_agree p" if "sample_conditions p" for p
    using that by (intro agreement_check_passes comparable_samples) (simp_all add: sample_conditions_def Let_def)
  with corpus_conditions show ?thesis by (simp add: list_all_iff)
qed

text \<open>The sanity check of the samples: the canonical form is not empty.\<close>

definition corpus_is_non_trivial :: bool where
  "corpus_is_non_trivial \<longleftrightarrow>
     (case Option.bind
             (connect_emit [(''connection-type'', ''tls''), (''remote'', ''vpn.example.com''),
                (''ca'', ''/etc/ovpn/ca.pem''), (''cert'', ''/etc/ovpn/client.crt''),
                (''key'', ''/etc/ovpn/client.key'')])
             canonical of
        None \<Rightarrow> False
      | Some ls \<Rightarrow> length ls > 5 \<and> List.member ls ''client'')"

lemma corpus_is_non_trivial_holds: corpus_is_non_trivial
  by code_simp

text \<open>
  The check compares lines in which the arguments are joined by blanks, so it cannot see a
  difference in how they are split: two profiles that say different things to openvpn3 pass.
\<close>

lemma canonical_joins_arguments:
  "let a = ''verify-x509-name server name'' @ [LF];
       b = ''verify-x509-name '' @ [SQUOTE] @ ''server name'' @ [SQUOTE, LF]
   in canonical a = canonical b \<and> canonical a \<noteq> None \<and> parse a \<noteq> parse b"
proof -
  have "parse (''verify-x509-name server name'' @ [LF]) = Inr [Option ''verify-x509-name'' [''server'', ''name'']]"
    by code_simp
  moreover have "parse (''verify-x509-name '' @ [SQUOTE] @ ''server name'' @ [SQUOTE, LF])
      = Inr [Option ''verify-x509-name'' [''server name'']]"
    by code_simp
  ultimately show ?thesis by (simp add: Let_def canonical_def)
qed

section \<open>The fixtures\<close>

text \<open>
  \<open>tests/fixtures_round_trip.rs\<close> and the files it reads.  \<open>files\<close> is what \<open>read_dir\<close> lists
  with the extension \<open>ovpn\<close>: the names and the contents.
\<close>

definition every_fixture_parses :: "(str \<times> str) list \<Rightarrow> bool" where
  "every_fixture_parses files \<longleftrightarrow>
     list_all (\<lambda>(path, content). parsed content (\<lambda>cfg. True)) files \<and> length files > 0"

definition every_fixture_round_trips :: "(str \<times> str) list \<Rightarrow> bool" where
  "every_fixture_round_trips files \<longleftrightarrow>
     list_all (\<lambda>(path, content). parsed content (\<lambda>first. parsed (emit first) (\<lambda>second. first = second))) files"

definition compress_ovpn :: str where
  "compress_ovpn = unlines
     [''remote 173.8.149.245 666'', ''dev tun'', ''client'', ''ca ca.crt'', [],
       ''allow-compression asym'', ''comp-lzo'', ''compress lzo'']"

definition connect_timeout_ovpn :: str where
  "connect_timeout_ovpn = unlines
     [''port 2345'', [], ''remote 173.8.149.245'', ''resolv-retry infinite'', ''connect-timeout 19'', [],
       ''dev tun'', ''persist-key'', ''persist-tun'', ''link-mtu 1400'', ''proto udp'', ''nobind'',
       ''pull'', ''tls-client'', [], ''ca keys/mg8.ca'', ''cert keys/clee.crt'',
       ''key keys/clee.key'', [], ''tls-auth keys/46.key 1'',
       (''tls-remote '' @ [DQUOTE] @ ''/CN=myvpn.company.com'' @ [DQUOTE]), [], ''compress'',
       ''verb 4'', []]"

definition crl_file_ovpn :: str where
  "crl_file_ovpn = unlines
     [''port 2345'', [], ''remote 173.8.149.245'', ''resolv-retry infinite'', [], ''dev tun'',
       ''persist-key'', ''persist-tun'', ''link-mtu 1400'', ''proto udp'', ''nobind'', ''pull'',
       ''tls-client'', [], ''ca keys/mg8.ca'', ''cert keys/clee.crt'', ''key keys/clee.key'', [],
       ''compress'', ''verb 3'', []]
     @ ''crl-verify /home/user/.cert/crl.pem''"

definition device_ovpn :: str where
  "device_ovpn = unlines
     [''client'', ''dev company0'', ''dev-type tun'', ''proto tcp'', ''topology subnet'',
       ''remote miami.proxpn.com 443'', ''resolv-retry infinite'', ''nobind'', ''persist-key'',
       ''persist-tun'', ''user openvpn'', ''group openvpn'', ''compress'', ''tun-mtu 1500'',
       ''mssfix 1450'', ''auth-user-pass'', ''auth-nocache'', ''reneg-sec 0'', [],
       ''cd /etc/openvpn'', ''ca CompanyISCA.pem'', ''cipher AES-256-CBC'', ''reneg-sec 0'', [],
       ''ping 30'', ''ping-exit 120'', ''verb 4'']"

definition keepalive_ovpn :: str where
  "keepalive_ovpn = unlines
     [''port 2345'', [], ''remote 173.8.149.245'', ''resolv-retry infinite'', [], ''dev tun'',
       ''persist-key'', ''persist-tun'', ''link-mtu 1400'', ''proto udp'', ''nobind'', ''pull'',
       ''tls-client'', [], ''ca keys/mg8.ca'', ''cert keys/clee.crt'', ''key keys/clee.key'', [],
       ''tls-auth keys/46.key 1'',
       (''tls-remote '' @ [DQUOTE] @ ''/CN=myvpn.company.com'' @ [DQUOTE]), [], ''compress'',
       ''verb 3'', [], ''keepalive 10 30'']"

definition keysize_ovpn :: str where
  "keysize_ovpn = unlines
     [''client'', ''dev tun'', ''proto tcp'', ''remote miami.proxpn.com 443 '', ''resolv-retry infinite'',
       ''nobind'', ''persist-key'', ''persist-tun'', ''compress'', ''tun-mtu 1500'',
       ''mssfix 1450'', ''auth-user-pass'', ''reneg-sec 0'', [], ''ca ssl/ca.crt'',
       ''cert ssl/client.crt'', ''key ssl/client.key'', ''cipher BF-CBC'', ''keysize 512'',
       ''ncp-disable'']"

definition mtu_disc_ovpn :: str where
  "mtu_disc_ovpn = unlines
     [''client'', ''dev company0'', ''dev-type tun'', ''proto tcp'', ''topology subnet'',
       ''remote miami.proxpn.com 443'', ''resolv-retry infinite'', ''nobind'', ''persist-key'',
       ''persist-tun'', ''user openvpn'', ''group openvpn'', ''compress'', ''tun-mtu 1500'',
       ''mssfix 1450'', ''auth-user-pass'', ''auth-nocache'', ''reneg-sec 0'', [],
       ''cd /etc/openvpn'', ''ca CompanyISCA.pem'', ''cipher AES-256-CBC'', ''reneg-sec 0'',
       ''mtu-disc yes'', [], ''ping 30'', ''ping-exit 120'', ''verb 4'']"

definition ping_with_restart_ovpn :: str where
  "ping_with_restart_ovpn = unlines
     [''port 2345'', [], ''remote 173.8.149.245'', ''resolv-retry infinite'', [], ''dev tun'',
       ''persist-key'', ''persist-tun'', ''link-mtu 1400'', ''proto udp'', ''nobind'', ''pull'',
       ''tls-client'', [], ''ca keys/mg8.ca'', ''cert keys/clee.crt'', ''key keys/clee.key'', [],
       ''tls-auth keys/46.key 1'',
       (''tls-remote '' @ [DQUOTE] @ ''/CN=myvpn.company.com'' @ [DQUOTE]), [], ''compress'',
       ''verb 3'', [], ''ping 10'', ''ping-restart 30'']"

definition pkcs12_with_ca_ovpn :: str where
  "pkcs12_with_ca_ovpn = unlines
     [''remote 173.8.149.245 1194'', ''resolv-retry infinite'', [], ''dev tun'', ''persist-key'',
       ''persist-tun'', ''link-mtu 1400'', ''proto udp'', ''nobind'', ''pull'', ''tls-client'', [],
       ''ca ca.crt'', ''pkcs12 keys/mine.p12'', [], ''compress'', ''verb 3'', []]"

definition pkcs12_ovpn :: str where
  "pkcs12_ovpn = unlines
     [''remote 173.8.149.245 1194'', ''resolv-retry infinite'', [], ''dev tun'', ''persist-key'',
       ''persist-tun'', ''link-mtu 1400'', ''proto udp'', ''nobind'', ''pull'', ''tls-client'', [],
       ''pkcs12 keys/mine.p12'', [], ''compress'', ''verb 3'', []]"

definition port_ovpn :: str where
  "port_ovpn = unlines
     [''port 2345'', [], ''remote 173.8.149.245'', ''resolv-retry infinite'', [], ''dev tun'',
       ''persist-key'', ''persist-tun'', ''link-mtu 1400'', ''proto udp'', ''nobind'', ''pull'',
       ''tls-client'', [], ''ca keys/mg8.ca'', ''cert keys/clee.crt'', ''key keys/clee.key'', [],
       ''tls-auth keys/46.key 1'',
       (''tls-remote '' @ [DQUOTE] @ ''/CN=myvpn.company.com'' @ [DQUOTE]), [], ''compress'',
       ''verb 3'', []]"

definition proto_tcp_ovpn :: str where
  "proto_tcp_ovpn = unlines
     [''remote 173.8.149.245 666'', ''dev tun'', ''client'', ''ca cacert.pem'', [], ''proto tcp'']"

definition proxy_http_ovpn :: str where
  "proxy_http_ovpn = unlines
     [''client'', ''dev tun'', [], ''proto tcp'', ''topology subnet'', [], ''rport 2352'',
       ''remote aa:bb::1 1194 udp'', ''nobind'', ''persist-key'', ''persist-tun'', ''user openvpn'',
       ''group openvpn'', [], ''http-proxy 10.1.1.1 8080 httpauthfile'', ''http-proxy-retry'', [],
       ''ca cacert.pem'', ''cipher AES-256-CBC'', ''reneg-sec 0'', [], ''auth-user-pass'',
       ''auth-nocache'', [], ''ping 30'', ''ping-exit 120'', [], ''# random comment'', [],
       ''script-security 2'', [], []]"

definition proxy_socks_ovpn :: str where
  "proxy_socks_ovpn = unlines
     [''client'', ''dev tun'', [], ''proto tcp'', ''topology subnet'', [], ''rport 2352'',
       ''remote test.server.com 443'', ''nobind'', ''persist-key'', ''persist-tun'',
       ''user openvpn'', ''group openvpn'', [], ''socks-proxy 10.1.1.1 1080'',
       ''socks-proxy-retry'', [], ''ca cacert.pem'', ''cipher AES-256-CBC'', ''reneg-sec 0'', [],
       ''auth-user-pass'', ''auth-nocache'', [], ''ping 30'', ''ping-exit 120'', [],
       ''# random comment'', [], ''script-security 2'', [], []]"

definition fixtures :: "(str \<times> str) list" where
  "fixtures =
     [(''compress.ovpn'', compress_ovpn), (''connect-timeout.ovpn'', connect_timeout_ovpn),
       (''crl-file.ovpn'', crl_file_ovpn), (''device.ovpn'', device_ovpn),
       (''keepalive.ovpn'', keepalive_ovpn), (''keysize.ovpn'', keysize_ovpn),
       (''mtu-disc.ovpn'', mtu_disc_ovpn), (''ping-with-restart.ovpn'', ping_with_restart_ovpn),
       (''pkcs12-with-ca.ovpn'', pkcs12_with_ca_ovpn), (''pkcs12.ovpn'', pkcs12_ovpn),
       (''port.ovpn'', port_ovpn), (''proto-tcp.ovpn'', proto_tcp_ovpn),
       (''proxy-http.ovpn'', proxy_http_ovpn), (''proxy-socks.ovpn'', proxy_socks_ovpn)]"

definition port_fixture_extracts_port_value :: bool where
  "port_fixture_extracts_port_value \<longleftrightarrow> parsed port_ovpn (\<lambda>cfg. as_nm_data cfg ''port'' = Some ''2345'')"

definition proto_tcp_fixture_sets_proto_tcp_yes :: bool where
  "proto_tcp_fixture_sets_proto_tcp_yes \<longleftrightarrow>
     parsed proto_tcp_ovpn (\<lambda>cfg. as_nm_data cfg ''proto-tcp'' = Some ''yes'')"

definition pkcs12_fixture_fills_ca_cert_key_with_same_path :: bool where
  "pkcs12_fixture_fills_ca_cert_key_with_same_path \<longleftrightarrow>
     parsed pkcs12_ovpn
       (\<lambda>cfg. let nm = as_nm_data cfg; ca = nm ''ca''; cert = nm ''cert''; key = nm ''key''
              in ca \<noteq> None \<and> ca = cert \<and> cert = key)"

definition proxy_http_fixture_sets_proxy_keys :: bool where
  "proxy_http_fixture_sets_proxy_keys \<longleftrightarrow>
     parsed proxy_http_ovpn
       (\<lambda>cfg. let nm = as_nm_data cfg in nm ''proxy-type'' = Some ''http'' \<and> nm ''proxy-server'' \<noteq> None)"

text \<open>What makes a file survive the round trip, as a test that computes.\<close>

definition fixture_ok :: "str \<Rightarrow> bool" where
  "fixture_ok content \<longleftrightarrow>
     \<not> List.member content CR
     \<and> parsed content (list_all (\<lambda>d. \<not> starts_with (dname d) ''--''
          \<and> (case d of Blob n body \<Rightarrow> body \<noteq> [] | Option _ _ \<Rightarrow> True)))"

lemma fixture_ok_round_trips:
  assumes "fixture_ok content"
  shows "parsed content (\<lambda>first. parsed (emit first) (\<lambda>second. first = second))"
proof -
  from assms obtain ds where ds: "parse content = Inr ds" "CR \<notin> set content"
    "\<forall>d \<in> set ds. \<not> starts_with (dname d) ''--''
      \<and> (case d of Blob n body \<Rightarrow> body \<noteq> [] | Option _ _ \<Rightarrow> True)"
    by (auto simp: fixture_ok_def parsed_def list_all_iff split: sum.splits)
  then have "parse (emit ds) = Inr ds" by (intro reparse_unchanged [OF ds(1,2)]) auto
  with ds(1) show ?thesis by (simp add: parsed_def)
qed

lemma fixture_suite_passes:
  assumes "files \<noteq> []" and "list_all (\<lambda>(path, content). fixture_ok content) files"
  shows "every_fixture_parses files \<and> every_fixture_round_trips files"
  using assms fixture_ok_round_trips
  by (fastforce simp: every_fixture_parses_def every_fixture_round_trips_def list_all_iff fixture_ok_def parsed_def
      split: sum.splits)

lemma fixtures_ok: "list_all (\<lambda>(path, content). fixture_ok content) fixtures"
  unfolding fixtures_def list.pred_inject prod.case by (intro conjI TrueI; code_simp)

lemma fixture_tests_pass:
  "every_fixture_parses fixtures \<and> every_fixture_round_trips fixtures"
  using fixtures_ok by (intro fixture_suite_passes) (simp_all add: fixtures_def)

lemma fixture_values_pass:
  "port_fixture_extracts_port_value \<and> proto_tcp_fixture_sets_proto_tcp_yes
   \<and> pkcs12_fixture_fills_ca_cert_key_with_same_path \<and> proxy_http_fixture_sets_proxy_keys"
  by (intro conjI; code_simp)

end
