(* ===== verification/Throughput.thy ===== *)
theory Throughput
  imports Plugin Editor
begin

text \<open>
  \<open>plugin.rs::byte_rate\<close>, the throughput of one statistics tick, on the 64-bit counters and on the
  floats of \<open>Editor\<close>: a nonnegative quotient is rounded as \<open>round_ratio\<close> rounds.
\<close>

text \<open>\<open>f64::max(x, m)\<close> for a finite \<open>m\<close>; a NaN gives \<open>m\<close>.\<close>

fun f64_max :: "f64 \<Rightarrow> rat \<Rightarrow> f64" where
  "f64_max F_Nan m = F_Fin m"
| "f64_max (F_Inf neg) m = (if neg then F_Fin m else F_Inf False)"
| "f64_max (F_Fin x) m = F_Fin (max x m)"

definition round_rat :: "rat \<Rightarrow> f64" where
  "round_rat x = (let (a, b) = quotient_of x in round_ratio (nat a) (nat b))"

text \<open>The division of a nonnegative finite float by a positive one or by infinity.\<close>

fun f64_div_pos :: "f64 \<Rightarrow> f64 \<Rightarrow> f64" where
  "f64_div_pos (F_Fin x) (F_Fin y) = round_rat (x / y)"
| "f64_div_pos (F_Fin x) (F_Inf neg) = F_Fin 0"
| "f64_div_pos (F_Inf neg) (F_Fin y) = F_Inf neg"
| "f64_div_pos _ _ = F_Nan"

text \<open>The float \<open>1e-3\<close>.\<close>

definition MIN_DT :: rat where
  "MIN_DT = 1152921504606847 / 2 ^ 60"

definition byte_rate :: "64 word \<Rightarrow> 64 word \<Rightarrow> f64 \<Rightarrow> int" where
  "byte_rate prev cur dt_secs =
     as_i64 (f64_div_pos (round_ratio (nat (byte_delta prev cur)) 1) (f64_max dt_secs MIN_DT))"

fun f64_nonneg :: "f64 \<Rightarrow> bool" where
  "f64_nonneg F_Nan = False"
| "f64_nonneg (F_Inf neg) = (\<not> neg)"
| "f64_nonneg (F_Fin x) = (0 \<le> x)"

lemma if_prop: "(c \<Longrightarrow> a) \<Longrightarrow> (\<not> c \<Longrightarrow> b) \<Longrightarrow> (if c then a else b)"
  by simp

lemma round_ratio_nonneg: "f64_nonneg (round_ratio n d)"
  unfolding round_ratio_def Let_def if_distrib [of f64_nonneg] f64_nonneg.simps
  by (intro if_prop divide_nonneg_nonneg of_nat_0_le_iff order_refl not_False_eq_True [THEN iffD2, OF TrueI])

lemma round_ratio_zero: "round_ratio 0 d = F_Fin 0"
  by (simp only: round_ratio_def if_True simp_thms)

lemma round_rat_zero: "round_rat 0 = F_Fin 0"
  by (simp add: round_rat_def round_ratio_zero)

lemma as_i64_range: "- (2 ^ 63) \<le> as_i64 x \<and> as_i64 x < 2 ^ 63"
  by (cases x) auto

lemma as_i64_nonneg: "f64_nonneg x \<Longrightarrow> 0 \<le> as_i64 x"
  by (cases x) auto

lemma div_nonneg: "f64_nonneg x \<Longrightarrow> 0 \<le> as_i64 (f64_div_pos x (f64_max y m))"
  by (cases x; cases y) (auto simp: round_rat_def as_i64_nonneg round_ratio_nonneg split: prod.split)

text \<open>
  The reported throughput is a nonnegative 63-bit number whatever the counters and the clock
  say, and it is 0 across a counter reset.
\<close>

theorem byte_rate_bounds:
  "0 \<le> byte_rate prev cur dt \<and> byte_rate prev cur dt < 2 ^ 63
   \<and> (sint cur \<le> sint prev \<longrightarrow> byte_rate prev cur dt = 0)"
proof (intro conjI impI)
  show "0 \<le> byte_rate prev cur dt"
    unfolding byte_rate_def by (intro div_nonneg round_ratio_nonneg)
  show "byte_rate prev cur dt < 2 ^ 63"
    unfolding byte_rate_def using as_i64_range by blast
  assume "sint cur \<le> sint prev"
  then have "byte_delta prev cur = 0" by (simp add: byte_delta_def)
  moreover have "as_i64 (f64_div_pos (F_Fin 0) (f64_max dt MIN_DT)) = 0"
    by (cases dt) (simp_all add: round_rat_zero)
  ultimately show "byte_rate prev cur dt = 0" by (simp add: byte_rate_def round_ratio_zero)
qed

definition byte_rate_normal_delta :: bool where
  "byte_rate_normal_delta \<longleftrightarrow>
     byte_rate 0 3000 (F_Fin 30) = 100 \<and> byte_rate 1000 1000 (F_Fin 30) = 0"

definition byte_rate_counter_reset_clamps_to_zero :: bool where
  "byte_rate_counter_reset_clamps_to_zero \<longleftrightarrow>
     byte_rate 1000000 0 (F_Fin 30) = 0 \<and> byte_rate 1000000 500 (F_Fin 30) = 0"

definition byte_rate_zero_dt_does_not_divide_by_zero :: bool where
  "byte_rate_zero_dt_does_not_divide_by_zero \<longleftrightarrow> byte_rate 0 1000 (F_Fin 0) > 0"

lemma MIN_DT_rounded: "round_ratio 1 1000 = F_Fin MIN_DT"
proof -
  have "bits 1000 = 10" by (simp add: bits.simps)
  then show ?thesis by (simp add: round_ratio_def bits_one MIN_DT_def)
qed

lemma round_rat_whole: "n < 2 ^ 53 \<Longrightarrow> round_rat (of_nat n) = F_Fin (of_nat n)"
  by (simp add: round_rat_def round_whole [unfolded One_nat_def])

lemma max_MIN_DT: "0 < d \<Longrightarrow> f64_max (F_Fin (of_nat d)) MIN_DT = F_Fin (of_nat d)"
proof -
  assume "0 < d"
  then have "(1 :: rat) \<le> of_nat d" by (metis One_nat_def Suc_leI of_nat_1 of_nat_le_iff)
  moreover have "MIN_DT \<le> 1" by (simp add: MIN_DT_def)
  ultimately show ?thesis by simp
qed

lemma byte_rate_whole:
  assumes "byte_delta prev cur = int (q * d)" and "0 < d" and "q * d < 2 ^ 53"
  shows "byte_rate prev cur (F_Fin (of_nat d)) = int q"
proof -
  have "q \<le> q * d" using assms(2) by simp
  then have q: "q < 2 ^ 53" using assms(3) by linarith
  have "(of_nat (q * d) :: rat) / of_nat d = of_nat q" using assms(2) by simp
  then have "byte_rate prev cur (F_Fin (of_nat d)) = as_i64 (F_Fin (of_nat q))"
    using assms q by (simp add: byte_rate_def max_MIN_DT round_whole round_rat_whole del: of_nat_mult One_nat_def f64_max.simps)
  then show ?thesis using q by simp
qed

lemma as_i64_positive: "1 \<le> x \<Longrightarrow> 0 < as_i64 (if 2 ^ 1024 \<le> x then F_Inf False else F_Fin x)"
  by (auto simp: le_floor_iff)

lemma round_ratio_positive:
  assumes "0 < den" and "den \<le> num" and "bits num < bits den + 53"
  shows "0 < as_i64 (round_ratio num den)"
proof -
  define e0 where "e0 = int (bits num) - int (bits den) - 53"
  define wide where "wide = (if 0 \<le> e0 then 2 ^ 53 * den * 2 ^ nat e0 \<le> num else 2 ^ 53 * den \<le> num * 2 ^ nat (- e0))"
  define e where "e = max (if wide then e0 + 1 else e0) (- 1074)"
  define a where "a = num * 2 ^ nat (- e)"
  define b where "b = den * 2 ^ nat e"
  define m where "m = (if b < 2 * (a mod b) \<or> (b = 2 * (a mod b) \<and> odd (a div b)) then a div b + 1 else a div b)"
  have "e \<le> 0" using assms(3) by (simp add: e_def e0_def)
  then have b: "b = den" by (simp add: b_def)
  have "2 ^ nat (- e) = (den * 2 ^ nat (- e)) div den" using assms(1) by simp
  also have "\<dots> \<le> a div b" unfolding a_def b by (intro div_le_mono mult_le_mono1 assms(2))
  also have "\<dots> \<le> m" by (simp add: m_def)
  finally have "2 ^ nat (- e) \<le> m * 2 ^ nat e" using \<open>e \<le> 0\<close> by simp
  then have "(of_nat (2 ^ nat (- e)) :: rat) \<le> of_nat (m * 2 ^ nat e)" by (simp only: of_nat_le_iff)
  then have "(1 :: rat) \<le> of_nat (m * 2 ^ nat e) / of_nat (2 ^ nat (- e))"
    by (subst le_divide_eq_1_pos) simp_all
  then have "0 < as_i64 (if 2 ^ 1024 \<le> (of_nat (m * 2 ^ nat e) / of_nat (2 ^ nat (- e)) :: rat) then F_Inf False
      else F_Fin (of_nat (m * 2 ^ nat e) / of_nat (2 ^ nat (- e))))"
    by (rule as_i64_positive)
  moreover have "num \<noteq> 0" using assms(1,2) by simp
  ultimately show ?thesis
    unfolding round_ratio_def Let_def e0_def [symmetric] wide_def [symmetric] e_def [symmetric]
      a_def [symmetric] b_def [symmetric] m_def [symmetric] by (simp only: if_False)
qed
lemma byte_rate_tests_pass:
  "byte_rate_normal_delta \<and> byte_rate_counter_reset_clamps_to_zero
   \<and> byte_rate_zero_dt_does_not_divide_by_zero"
proof (intro conjI)
  have "byte_delta 0 3000 = int (100 * 30)" by code_simp
  from byte_rate_whole [OF this] have "byte_rate 0 3000 (F_Fin 30) = 100" by simp
  moreover have "byte_rate 1000 1000 (F_Fin 30) = 0" using byte_rate_bounds by simp
  ultimately show byte_rate_normal_delta by (simp add: byte_rate_normal_delta_def)
  have "byte_rate 1000000 0 (F_Fin 30) = 0" "byte_rate 1000000 500 (F_Fin 30) = 0"
    using byte_rate_bounds [of 1000000 0] byte_rate_bounds [of 1000000 500] by simp_all
  then show byte_rate_counter_reset_clamps_to_zero by (simp add: byte_rate_counter_reset_clamps_to_zero_def)
  have "byte_delta 0 1000 = int 1000" by code_simp
  then have "byte_rate 0 1000 (F_Fin 0) = as_i64 (round_rat (1000 / MIN_DT))"
    by (simp add: byte_rate_def round_whole MIN_DT_def del: One_nat_def)
  also have "\<dots> > 0"
  proof -
    have "quotient_of (1152921504606846976000 / 1152921504606847) = (1152921504606846976000, 1152921504606847)"
      by code_simp
    moreover have "bits 1152921504606846976000 = 70" "bits 1152921504606847 = 51"
      by (simp_all add: bits.simps)
    ultimately show ?thesis
      using round_ratio_positive [of 1152921504606847 1152921504606846976000] by (simp add: MIN_DT_def round_rat_def)
  qed
  finally show byte_rate_zero_dt_does_not_divide_by_zero
    by (simp add: byte_rate_zero_dt_does_not_divide_by_zero_def)
qed

section \<open>The readings of the stats timer\<close>

text \<open>
  The loop's variables; an \<open>Instant\<close> is a number of seconds.  A reading that fails skips the
  tick.  A line gives the two rates, or none in the first line; its totals are left out.
\<close>

record stats_timer =
  last_bytes_in :: "64 word"
  last_bytes_out :: "64 word"
  last_tick :: rat
  first_reading :: bool

datatype stats_line = Totals | Rates int int

definition stats_start :: "rat \<Rightarrow> stats_timer" where
  "stats_start now =
     \<lparr>last_bytes_in = 0, last_bytes_out = 0, last_tick = now, first_reading = True\<rparr>"

definition stat_or_zero :: "(str \<rightharpoonup> 64 word) \<Rightarrow> str \<Rightarrow> 64 word" where
  "stat_or_zero stats k = (case stats k of Some v \<Rightarrow> v | None \<Rightarrow> 0)"

definition stats_reading ::
  "rat \<Rightarrow> (str \<rightharpoonup> 64 word) option \<Rightarrow> stats_timer \<Rightarrow> stats_line option \<times> stats_timer" where
  "stats_reading now answer t =
     (case answer of
        None \<Rightarrow> (None, t)
      | Some stats \<Rightarrow>
          (let bin = stat_or_zero stats ''BYTES_IN''; bout = stat_or_zero stats ''BYTES_OUT'';
               (l, t') =
                 (if first_reading t then (Totals, t\<lparr>first_reading := False\<rparr>)
                  else (let dt = round_rat (now - last_tick t)
                        in (Rates (byte_rate (last_bytes_in t) bin dt) (byte_rate (last_bytes_out t) bout dt),
                            t\<lparr>last_tick := now\<rparr>)))
           in (Some l, t'\<lparr>last_bytes_in := bin, last_bytes_out := bout\<rparr>)))"

fun stats_run :: "(rat \<times> (str \<rightharpoonup> 64 word) option) list \<Rightarrow> stats_timer \<Rightarrow> stats_line list" where
  "stats_run [] t = []"
| "stats_run ((now, answer) # rs) t =
     (let (l, t') = stats_reading now answer t
      in (case l of Some x \<Rightarrow> [x] | None \<Rightarrow> []) @ stats_run rs t')"

text \<open>What the rates of one reading are measured against: the reading before it.\<close>

definition rates_since :: "rat \<Rightarrow> (str \<rightharpoonup> 64 word) \<Rightarrow> rat \<Rightarrow> (str \<rightharpoonup> 64 word) \<Rightarrow> stats_line" where
  "rates_since t0 stats0 t1 stats1 =
     Rates
       (byte_rate (stat_or_zero stats0 ''BYTES_IN'') (stat_or_zero stats1 ''BYTES_IN'') (round_rat (t1 - t0)))
       (byte_rate (stat_or_zero stats0 ''BYTES_OUT'') (stat_or_zero stats1 ''BYTES_OUT'') (round_rat (t1 - t0)))"

definition answered :: "(rat \<times> (str \<rightharpoonup> 64 word) option) list \<Rightarrow> (rat \<times> (str \<rightharpoonup> 64 word)) list" where
  "answered rs = List.map_filter (\<lambda>(now, a). map_option (Pair now) a) rs"

fun rates_between :: "rat \<Rightarrow> (str \<rightharpoonup> 64 word) \<Rightarrow> (rat \<times> (str \<rightharpoonup> 64 word)) list \<Rightarrow> stats_line list" where
  "rates_between t0 stats0 [] = []"
| "rates_between t0 stats0 ((t1, stats1) # rs) = rates_since t0 stats0 t1 stats1 # rates_between t1 stats1 rs"

lemma rates_between_cases:
  "rates_between t0 stats0 rs = (case rs of [] \<Rightarrow> []
     | (t1, stats1) # rs' \<Rightarrow> rates_since t0 stats0 t1 stats1 # rates_between t1 stats1 rs')"
  by (cases rs) auto

definition holds_reading :: "rat \<Rightarrow> (str \<rightharpoonup> 64 word) \<Rightarrow> stats_timer" where
  "holds_reading now stats =
     \<lparr>last_bytes_in = stat_or_zero stats ''BYTES_IN'', last_bytes_out = stat_or_zero stats ''BYTES_OUT'',
      last_tick = now, first_reading = False\<rparr>"

lemma answered_simps [simp]:
  "answered [] = []" "answered ((now, None) # rs) = answered rs"
  "answered ((now, Some stats) # rs) = (now, stats) # answered rs"
  by (simp_all add: answered_def List.map_filter_def)

lemma stats_run_later: "stats_run rs (holds_reading t0 stats0) = rates_between t0 stats0 (answered rs)"
proof (induction rs arbitrary: t0 stats0)
  case (Cons r rs)
  obtain now a where r: "r = (now, a)" by (cases r)
  show ?case
  proof (cases a)
    case None
    with Cons.IH r show ?thesis by (simp add: stats_reading_def)
  next
    case (Some stats)
    have "stats_reading now (Some stats) (holds_reading t0 stats0) =
        (Some (rates_since t0 stats0 now stats), holds_reading now stats)"
      by (simp add: stats_reading_def holds_reading_def rates_since_def Let_def)
    with Cons.IH [of now stats] r Some show ?thesis by simp
  qed
qed simp

lemma stats_run_second:
  "stats_run rs (stats_start t0\<lparr>first_reading := False, last_bytes_in := stat_or_zero stats1 ''BYTES_IN'',
      last_bytes_out := stat_or_zero stats1 ''BYTES_OUT''\<rparr>) =
     (case answered rs of
        [] \<Rightarrow> []
      | (t2, stats2) # later \<Rightarrow> rates_since t0 stats1 t2 stats2 # rates_between t2 stats2 later)"
proof -
  have "stats_start t0\<lparr>first_reading := False, last_bytes_in := stat_or_zero stats1 ''BYTES_IN'',
      last_bytes_out := stat_or_zero stats1 ''BYTES_OUT''\<rparr> = holds_reading t0 stats1"
    by (simp add: stats_start_def holds_reading_def)
  then show ?thesis by (simp add: stats_run_later rates_between_cases)
qed

text \<open>
  C38: What the timer reports over any sequence of readings, failed ones included: the totals at the
  first answer, and from then on one line per answer whose rates compare it with the answer before.
  The rates of the second line are an exception: their bytes are counted from the first answer but
  their time from the start of the task, so at a 30 s period they come out at half the throughput.
\<close>

theorem stats_lines:
  "stats_run rs (stats_start t0) =
     (case answered rs of
        [] \<Rightarrow> []
      | (t1, stats1) # later \<Rightarrow>
          Totals # (case later of
             [] \<Rightarrow> []
           | (t2, stats2) # later' \<Rightarrow> rates_since t0 stats1 t2 stats2 # rates_between t2 stats2 later'))"
proof (induction rs)
  case (Cons r rs)
  obtain now a where r: "r = (now, a)" by (cases r)
  show ?case
  proof (cases a)
    case None
    with Cons.IH r show ?thesis by (simp add: stats_reading_def)
  next
    case (Some stats1)
    let ?t = "stats_start t0\<lparr>first_reading := False, last_bytes_in := stat_or_zero stats1 ''BYTES_IN'',
      last_bytes_out := stat_or_zero stats1 ''BYTES_OUT''\<rparr>"
    have "stats_run rs ?t = (case answered rs of [] \<Rightarrow> []
        | (t2, stats2) # later \<Rightarrow> rates_since t0 stats1 t2 stats2 # rates_between t2 stats2 later)"
      by (rule stats_run_second)
    with r Some show ?thesis by (simp add: stats_reading_def stats_start_def Let_def)
  qed
qed simp

text \<open>200 bytes a second are reported as 100 in the second line.\<close>

lemma second_line_at_half:
  "stats_run [(30, Some [''BYTES_IN'' \<mapsto> 0]), (60, Some [''BYTES_IN'' \<mapsto> 6000])] (stats_start 0)
     = [Totals, Rates 100 0]
   \<and> rates_since 30 [''BYTES_IN'' \<mapsto> 0] 60 [''BYTES_IN'' \<mapsto> 6000] = Rates 200 0"
proof -
  have "byte_delta 0 6000 = int (100 * 60)" "byte_delta 0 6000 = int (200 * 30)" by code_simp+
  then have "byte_rate 0 6000 (F_Fin 60) = 100" "byte_rate 0 6000 (F_Fin 30) = 200"
    using byte_rate_whole [of 0 6000 100 60] byte_rate_whole [of 0 6000 200 30] by simp_all
  moreover have "round_rat 60 = F_Fin 60" "round_rat 30 = F_Fin 30"
    using round_rat_whole [of 60] round_rat_whole [of 30] by simp_all
  moreover have "byte_rate 0 0 dt = 0" for dt using byte_rate_bounds by simp
  ultimately show ?thesis
    by (simp add: stats_reading_def stats_start_def rates_since_def stat_or_zero_def)
qed

end
