(* ===== verification/Plugin_Run.thy ===== *)
theory Plugin_Run
  imports Plugin
begin

text \<open>
  The plugin as a transition system: any number of handlers, started by NetworkManager
  at any time, interleaved step by step with the background tasks, each step with
  arbitrary replies.  An aborted task stops at its next await point, so it may still
  finish the step it is in.  The invariants below hold in every reachable state.
\<close>

section \<open>The transition system\<close>

record 'v system =
  sh :: shared
  procs :: "nat \<rightharpoonup> 'v task"
  dying :: "nat set"

definition start :: "'v system" where
  "start = \<lparr>sh = plugin_new, procs = Map.empty, dying = {}\<rparr>"

definition add_task :: "'v task \<Rightarrow> 'v system \<Rightarrow> 'v system" where
  "add_task k y =
     (let t = next_tid (sh y)
      in y\<lparr>sh := (sh y)\<lparr>next_tid := Suc t\<rparr>, procs := (procs y)(t \<mapsto> k)\<rparr>)"

definition commit :: "nat \<Rightarrow> 'v outcome \<Rightarrow> 'v system \<Rightarrow> 'v system" where
  "commit t out y =
     (case out of (k, s, new, aborts) \<Rightarrow>
        y\<lparr>sh := s, procs := ((procs y)(t \<mapsto> k)) ++ map_of new, dying := dying y \<union> set aborts\<rparr>)"

fun is_handler :: "'v task \<Rightarrow> bool" where
  "is_handler (T_Connect (C_Lock settings)) = True"
| "is_handler (T_Disconnect D_Flag) = True"
| "is_handler (T_New_Secrets (N_Take settings)) = True"
| "is_handler _ = False"

inductive step :: "'v env \<Rightarrow> 'v system \<Rightarrow> 'v system \<Rightarrow> bool" for env where
  dispatch: "is_handler k \<Longrightarrow> step env y (add_task k y)"
| run: "procs y t = Some k \<Longrightarrow> t \<notin> dying y \<Longrightarrow> task_step env t r k (sh y) = Some out \<Longrightarrow>
    step env y (commit t out y)"
| last_step: "procs y t = Some k \<Longrightarrow> t \<in> dying y \<Longrightarrow> task_step env t r k (sh y) = Some (k', s, [], []) \<Longrightarrow>
    step env y (y\<lparr>sh := s, procs := (procs y)(t := None)\<rparr>)"
| reap: "t \<in> dying y \<Longrightarrow> step env y (y\<lparr>procs := (procs y)(t := None)\<rparr>)"

definition reachable :: "'v env \<Rightarrow> 'v system \<Rightarrow> bool" where
  "reachable env y \<longleftrightarrow> (step env)\<^sup>*\<^sup>* start y"

lemma reachable_induct [consumes 1, case_names start step]:
  assumes "reachable env y" and "P start"
    and "\<And>y y'. reachable env y \<Longrightarrow> P y \<Longrightarrow> step env y y' \<Longrightarrow> P y'"
  shows "P y"
  using assms(1) unfolding reachable_def
proof (induction rule: rtranclp_induct)
  case base
  show ?case by (rule assms(2))
next
  case (step y z)
  then show ?case using assms(3) by (simp add: reachable_def)
qed

lemma reachable_steps: "reachable env y \<Longrightarrow> (step env)\<^sup>*\<^sup>* y z \<Longrightarrow> reachable env z"
  by (auto simp: reachable_def)

section \<open>What a task owes\<close>

text \<open>The tasks that hold the connect lock.\<close>

fun holds :: "'v task \<Rightarrow> bool" where
  "holds (T_Connect (C_Lock settings)) = False"
| "holds (T_Connect (C_Returned b)) = False"
| "holds (T_Connect _) = True"
| "holds (T_Disconnect D_Flag) = False"
| "holds (T_Disconnect D_Lock) = False"
| "holds (T_Disconnect D_Returned) = False"
| "holds (T_Disconnect _) = True"
| "holds _ = False"

fun background :: "'v task \<Rightarrow> bool" where
  "background (T_Connect _) = False"
| "background (T_Disconnect _) = False"
| "background (T_New_Secrets _) = False"
| "background _ = True"

text \<open>Sessions and configs at the backend that only this task's locals still name.\<close>

fun owes_session :: "'v task \<Rightarrow> str option" where
  "owes_session (T_Connect (C_Stash l cfg sp)) = Some sp"
| "owes_session (T_Connect (K_Disc1 sp cfg)) = Some sp"
| "owes_session (T_Disconnect (D_Disc1 sp cfg)) = Some sp"
| "owes_session _ = None"

fun owes_config :: "'v task \<Rightarrow> str option" where
  "owes_config (T_Connect (C_Override l cfg os)) = Some cfg"
| "owes_config (T_Connect (C_Tunnel l cfg)) = Some cfg"
| "owes_config (T_Connect (C_Drop_Config cfg)) = Some cfg"
| "owes_config (T_Connect (C_Stash l cfg sp)) = Some cfg"
| "owes_config (T_Connect (K_Disc1 sp cfg)) = cfg"
| "owes_config (T_Connect (K_Disc2 sp cfg)) = cfg"
| "owes_config (T_Connect (K_Remove cfg)) = Some cfg"
| "owes_config (T_Disconnect (D_Disc1 sp cfg)) = cfg"
| "owes_config (T_Disconnect (D_Disc2 sp cfg)) = cfg"
| "owes_config (T_Disconnect (D_Remove cfg)) = Some cfg"
| "owes_config _ = None"

text \<open>What a step of \<open>do_connect\<close> or of \<open>disconnect\<close> knows of the stashed session.\<close>

datatype stash = No_Session | Has_Session str | Unknown_Session

fun stash_of :: "'v task \<Rightarrow> stash" where
  "stash_of (T_Connect pc) =
     (case pc of
        C_Read l p \<Rightarrow> No_Session | C_Starting l p \<Rightarrow> No_Session | C_Emit_Starting l p \<Rightarrow> No_Session
      | C_Check0 l p \<Rightarrow> No_Session | C_Import l p \<Rightarrow> No_Session | C_Override l c os \<Rightarrow> No_Session
      | C_Tunnel l c \<Rightarrow> No_Session | C_Drop_Config c \<Rightarrow> No_Session | C_Stash l c sp \<Rightarrow> No_Session
      | C_Check1 l sp \<Rightarrow> Has_Session sp | C_Ready l sp \<Rightarrow> Has_Session sp
      | C_Listen l sp \<Rightarrow> Has_Session sp | C_Grant l sp \<Rightarrow> Has_Session sp
      | C_Check2 l sp \<Rightarrow> Has_Session sp | C_Connect l sp \<Rightarrow> Has_Session sp
      | C_Arm l sp \<Rightarrow> Has_Session sp | K_Take sp \<Rightarrow> Has_Session sp
      | K_Disc1 sp c \<Rightarrow> No_Session | K_Disc2 sp c \<Rightarrow> No_Session | K_Remove c \<Rightarrow> No_Session
      | _ \<Rightarrow> Unknown_Session)"
| "stash_of (T_Disconnect pc) =
     (if pc \<in> {D_Flag, D_Lock, D_Take, D_Returned} then Unknown_Session else No_Session)"
| "stash_of _ = Unknown_Session"

text \<open>
  A session is live if the last of its creation and its \<open>Disconnect\<close> calls is the
  creation; likewise a config and its \<open>Remove\<close>.
\<close>

fun live_session :: "str \<Rightarrow> event list \<Rightarrow> bool" where
  "live_session p [] = False"
| "live_session p (e # es) =
     (if e = Ev_Tunnel p then True else if e = Ev_Disconnect p then False else live_session p es)"

definition imports_config :: "str \<Rightarrow> event \<Rightarrow> bool" where
  "imports_config c e \<longleftrightarrow> (case e of Ev_Import name prof c' \<Rightarrow> c' = c | _ \<Rightarrow> False)"

fun live_config :: "str \<Rightarrow> event list \<Rightarrow> bool" where
  "live_config c [] = False"
| "live_config c (e # es) =
     (if imports_config c e then True else if e = Ev_Remove c then False else live_config c es)"

definition accounted :: "'v task \<Rightarrow> shared \<Rightarrow> bool" where
  "accounted k s \<longleftrightarrow>
     (\<forall>p. live_session p (trace s) \<longrightarrow> session_path (sess s) = Some p \<or> owes_session k = Some p)
     \<and> (\<forall>c. live_config c (trace s) \<longrightarrow> config_path (sess s) = Some c \<or> owes_config k = Some c)
     \<and> (session_path (sess s) = None \<longleftrightarrow> config_path (sess s) = None)
     \<and> (case stash_of k of No_Session \<Rightarrow> session_path (sess s) = None
        | Has_Session sp \<Rightarrow> session_path (sess s) = Some sp | Unknown_Session \<Rightarrow> True)"

lemma ev_simps [simp]:
  "trace (ev e s) = e # trace s" "sess (ev e s) = sess s" "holder (ev e s) = holder s"
  "teardown (ev e s) = teardown s" "svc (ev e s) = svc s" "next_tid (ev e s) = next_tid s"
  "failure_emitted (ev e s) = failure_emitted s" "disconnect_requested (ev e s) = disconnect_requested s"
  "next_flags (ev e s) = next_flags s" "quit (ev e s) = quit s" "ip4_emitted (ev e s) = ip4_emitted s"
  by (simp_all add: ev_def)

lemmas coord_defs = lock_connect_def unlock_def clear_teardown_def teardown_requested_def
  request_teardown_def set_state_locked_def new_flags_def

lemma connect_step_accounted:
  assumes "connect_step env t r pc s = Some (k', s', new, aborts)"
    and "accounted (T_Connect pc :: 'v task) s"
  shows "accounted k' s'"
  using assms
proof (cases pc)
  case (C_Gate settings)
  with assms show ?thesis
    by (auto simp: connect_gate_def stay_def accounted_def coord_defs Let_def
        split: if_splits sum.splits option.splits prod.splits)
next
  case (C_Override l cfg os)
  with assms show ?thesis
    by (cases os) (auto simp: stay_def accounted_def imports_config_def)
qed (auto simp: stay_def accounted_def coord_defs imports_config_def Let_def spawn_pair_def cleanup_locked_def
      after_cleanup_disconnect_def stash_session_def
      split: if_splits option.splits sum.splits)


lemma disconnect_step_accounted:
  assumes "disconnect_step env t r pc s = Some (k', s', new, aborts)"
    and "accounted (T_Disconnect pc :: 'v task) s"
  shows "accounted k' s'"
  using assms
proof (cases pc)
  case D_Take
  with assms show ?thesis
    by (auto simp: dstay_def accounted_def coord_defs Let_def take_session_def sess_default_def
        after_disconnect_calls_def split: option.splits)
qed (auto simp: dstay_def accounted_def coord_defs imports_config_def Let_def after_disconnect_calls_def
      split: if_splits option.splits)

text \<open>A task that does not hold the lock touches neither the lock nor what is accounted.\<close>

definition same_account :: "shared \<Rightarrow> shared \<Rightarrow> bool" where
  "same_account s s' \<longleftrightarrow> holder s' = holder s \<and> next_tid s' = next_tid s
     \<and> session_path (sess s') = session_path (sess s) \<and> config_path (sess s') = config_path (sess s)
     \<and> tasks (sess s') = tasks (sess s) \<and> flags (sess s') = flags (sess s)
     \<and> next_flags s' = next_flags s
     \<and> (\<forall>p. live_session p (trace s') = live_session p (trace s))
     \<and> (\<forall>c. live_config c (trace s') = live_config c (trace s))"

lemma same_account_refl [simp]: "same_account s s"
  by (simp add: same_account_def)

lemma accounted_same: "same_account s s' \<Longrightarrow> accounted k s' = accounted k s"
  by (simp add: same_account_def accounted_def split: stash.split)

text \<open>What the tasks other than the two lock holders leave alone.\<close>

definition quiet :: "shared \<Rightarrow> shared \<Rightarrow> bool" where
  "quiet s s' \<longleftrightarrow> same_account s s' \<and> teardown s' = teardown s"

lemma quiet_refl [simp]: "quiet s s"
  by (simp add: quiet_def)

lemma watch_report_same: "quiet s (snd (watch_report g pc s))"
  by (cases pc) (auto simp: quiet_def same_account_def set_state_locked_def failure_cas_def imports_config_def Let_def)

lemma watch_ip4_same: "quiet s (snd (watch_ip4 g r l s))"
  by (simp add: watch_ip4_def quiet_def same_account_def ip4_rollback_def imports_config_def)

lemma cas_same: "quiet s (snd (ip4_cas g s))" "quiet s (snd (failure_cas g s))"
  by (simp_all add: quiet_def same_account_def ip4_cas_def failure_cas_def)

lemma listener_step_same:
  assumes "listener_step g r pc s = Some (pc', s')"
  shows "quiet s s'"
  using assms watch_report_same [of s g pc] watch_ip4_same [of s g r "()"] cas_same(1) [of s g]
  by (cases "(g, r, pc, s)" rule: listener_step.cases)
     (auto simp: listener_signal_def Let_def split: option.splits if_splits prod.splits)

lemma poller_target_same: "quiet s (snd (poller_target g l status target s))"
  using cas_same(1) [of s g] by (auto simp: poller_target_def Let_def split: option.split prod.split)

lemma poller_step_same:
  assumes "poller_step g r pc s = Some (pc', s')"
  shows "quiet s s'"
proof -
  have e: "s' = snd (the (poller_step g r pc s))" using assms by simp
  show ?thesis
    using assms watch_report_same [of s g pc] watch_ip4_same [of s g r] poller_target_same
    unfolding e
    by (cases "(g, r, pc, s)" rule: poller_step.cases)
       (auto simp: poller_status_def poller_error_def poller_device_def Let_def split: option.split prod.split if_split)
qed

lemma stats_step_same: "stats_step g pc s = Some (pc', s') \<Longrightarrow> s' = s"
  by (cases pc) auto

lemma attention_step_same:
  assumes "attention_step g sp r pc s = Some (pc', s')"
  shows "quiet s s'"
  using assms cas_same(2) [of s g]
  by (cases "(g, sp, r, pc, s)" rule: attention_step.cases)
     (auto simp: quiet_def same_account_def imports_config_def Let_def split: option.splits if_splits prod.splits)

lemma new_secrets_step_same:
  assumes "new_secrets_step env r pc s = Some (pc', s')"
  shows "quiet s s'"
  using assms
  by (cases "(env, r, pc, s)" rule: new_secrets_step.cases)
     (auto simp: quiet_def same_account_def imports_config_def take_pending_def Let_def
        split: option.splits if_splits prod.splits)

text \<open>Every other task: its step neither spawns nor aborts, and leaves the account alone.\<close>

fun is_method :: "'v task \<Rightarrow> bool" where
  "is_method (T_Connect _) = True"
| "is_method (T_Disconnect _) = True"
| "is_method _ = False"

lemma other_task_step:
  assumes "task_step env t r k s = Some (k', s', new, aborts)" and "\<not> is_method k"
  shows "quiet s s' \<and> same_account s s' \<and> new = [] \<and> aborts = [] \<and> \<not> is_method k' \<and> background k' = background k"
  using assms
  by (cases k)
     (auto dest: listener_step_same poller_step_same stats_step_same attention_step_same
        new_secrets_step_same simp: quiet_def)


section \<open>The lock protocol\<close>

abbreviation idle :: "'v task" where
  "idle \<equiv> T_Disconnect D_Returned"

lemma not_holding_idle: "\<not> holds k \<Longrightarrow> accounted k s = accounted (idle :: 'v task) s"
  for k :: "'v task"
  by (cases k rule: holds.cases) (auto simp: accounted_def)

definition method_effect ::
  "nat \<Rightarrow> 'v task \<Rightarrow> shared \<Rightarrow> 'v task \<Rightarrow> shared \<Rightarrow> (nat \<times> 'v task) list \<Rightarrow> nat list \<Rightarrow> bool" where
  "method_effect t k s k' s' new aborts \<longleftrightarrow>
     is_method k' \<and> (\<forall>x \<in> set new. background (snd x) \<and> \<not> holds (snd x))
     \<and> map fst new = [next_tid s ..< next_tid s'] \<and> next_tid s \<le> next_tid s'
     \<and> ((tasks (sess s') = tasks (sess s) @ map fst new \<and> aborts = [])
        \<or> (tasks (sess s') = [] \<and> aborts = tasks (sess s) \<and> new = []))
     \<and> (holds k \<longrightarrow> holder s' = (if holds k' then holder s else None))
     \<and> (\<not> holds k \<longrightarrow> same_account (s\<lparr>holder := holder s'\<rparr>) s' \<and>
          (if holds k' then holder s = None \<and> holder s' = Some t else holder s' = holder s))"

lemma spawn_pair_upt: "[n ..< Suc (Suc n)] = [n, Suc n]"
  by (simp add: upt_rec)

lemma connect_step_effect:
  assumes "connect_step env t r pc s = Some (k', s', new, aborts)"
  shows "method_effect t (T_Connect pc) s k' s' new aborts"
  using assms
proof (cases pc)
  case (C_Gate settings)
  with assms show ?thesis
    by (auto simp: connect_gate_def stay_def method_effect_def coord_defs Let_def
        split: if_splits sum.splits option.splits prod.splits)
next
  case (C_Override l cfg os)
  with assms show ?thesis by (cases os) (auto simp: stay_def method_effect_def)
qed (auto simp: stay_def method_effect_def same_account_def coord_defs Let_def spawn_pair_def
      cleanup_locked_def after_cleanup_disconnect_def stash_session_def spawn_pair_upt
      split: if_splits option.splits sum.splits)

lemma disconnect_step_effect:
  assumes "disconnect_step env t r pc s = Some (k', s', new, aborts)"
  shows "method_effect t (T_Disconnect pc) s k' s' new aborts"
  using assms
  by (cases pc)
     (auto simp: dstay_def method_effect_def same_account_def coord_defs Let_def take_session_def
        sess_default_def after_disconnect_calls_def split: if_splits option.splits)

lemma method_step_effect:
  assumes "task_step env t r k s = Some (k', s', new, aborts)" and "is_method k"
  shows "method_effect t k s k' s' new aborts" "accounted k s \<Longrightarrow> accounted k' s'"
  using assms connect_step_effect connect_step_accounted disconnect_step_effect disconnect_step_accounted
  by (cases k; fastforce)+

definition lock_inv :: "'v system \<Rightarrow> bool" where
  "lock_inv y \<longleftrightarrow>
     (\<forall>t k. procs y t = Some k \<and> holds k \<longrightarrow> holder (sh y) = Some t \<and> accounted k (sh y))
     \<and> (\<forall>t. holder (sh y) = Some t \<longrightarrow> (\<exists>k. procs y t = Some k \<and> holds k))
     \<and> (holder (sh y) = None \<longrightarrow> accounted (idle :: 'v task) (sh y))"

definition tid_inv :: "'v system \<Rightarrow> bool" where
  "tid_inv y \<longleftrightarrow>
     (\<forall>t k. procs y t = Some k \<longrightarrow> t < next_tid (sh y))
     \<and> (\<forall>t \<in> dying y \<union> set (tasks (sess (sh y))).
          t < next_tid (sh y) \<and> (\<forall>k. procs y t = Some k \<longrightarrow> background k))
     \<and> (\<forall>t k. procs y t = Some k \<and> background k \<longrightarrow> t \<in> set (tasks (sess (sh y))) \<or> t \<in> dying y)"

lemma holds_method: "holds k \<Longrightarrow> is_method k" by (cases k rule: is_method.cases) auto
lemma background_method: "background k \<Longrightarrow> \<not> is_method k" by (cases k rule: is_method.cases) auto
lemma handler_not: "is_handler k \<Longrightarrow> \<not> holds k \<and> \<not> background k"
  by (cases k rule: is_handler.cases) auto

lemma map_of_new: "map_of new t = Some k \<Longrightarrow> t \<in> set (map fst new) \<and> (t, k) \<in> set new"
  by (auto dest: map_of_SomeD simp: rev_image_eqI)


lemma dying_background: "tid_inv y \<Longrightarrow> t \<in> dying y \<Longrightarrow> procs y t = Some k \<Longrightarrow> background k"
  unfolding tid_inv_def by blast

lemma tid_inv_step:
  assumes "step env y y'" and "tid_inv y"
  shows "tid_inv y'"
  using assms(1)
proof cases
  case (dispatch k)
  let ?n = "next_tid (sh y)"
  have nb: "\<not> background k" using handler_not [OF dispatch(2)] by simp
  have y': "procs y' u = (if u = ?n then Some k else procs y u)" "next_tid (sh y') = Suc ?n"
    "sess (sh y') = sess (sh y)" "dying y' = dying y" for u
    by (simp_all add: dispatch(1) add_task_def Let_def)
  have ne: "u < Suc ?n \<and> u \<noteq> ?n" if "u \<in> dying y \<union> set (tasks (sess (sh y)))" for u
    using assms(2) that by (auto simp: tid_inv_def less_SucI)
  from assms(2) nb show ?thesis
    unfolding tid_inv_def y' by (auto simp: less_Suc_eq ball_Un dest: ne split: if_splits)
next
  case (run t k r out)
  obtain k' s' new aborts where out: "out = (k', s', new, aborts)" by (cases out)
  note st = run(4) [unfolded out]
  from assms(2) run(2) have tk: "t < next_tid (sh y)" by (auto simp: tid_inv_def)
  show ?thesis
  proof (cases "is_method k")
    case True
    note eff = method_step_effect(1) [OF st True]
    have t: "t \<notin> dying y \<union> set (tasks (sess (sh y)))"
      using assms(2) run(2) background_method [of k] True unfolding tid_inv_def by blast
    have new: "map_of new u = Some x \<Longrightarrow> next_tid (sh y) \<le> u \<and> u < next_tid s' \<and> background x" for u x
      using eff map_of_new [of new u x] by (auto simp: method_effect_def)
    have dom_new: "(u \<in> set (map fst new)) = (\<exists>x. map_of new u = Some x)" for u
      by (metis dom_map_of_conv_image_fst domIff image_set not_None_eq)
    from eff have nb: "\<not> background k'" and le: "next_tid (sh y) \<le> next_tid s'"
      using background_method by (auto simp: method_effect_def)
    from eff have cases: "(tasks (sess s') = tasks (sess (sh y)) @ map fst new \<and> aborts = [])
        \<or> (tasks (sess s') = [] \<and> aborts = tasks (sess (sh y)) \<and> new = [])"
      unfolding method_effect_def by blast
    have fr: "u < next_tid (sh y) \<Longrightarrow> map_of new u = None" for u
      using new [of u] by (cases "map_of new u") auto
    have old: "u < next_tid (sh y) \<and> (\<forall>x. procs y u = Some x \<longrightarrow> background x)"
      if "u \<in> dying y \<union> set (tasks (sess (sh y)))" for u
      using assms(2) that unfolding tid_inv_def by blast
    have y': "sh y' = s'" "dying y' = dying y \<union> set aborts"
      "procs y' u = (case map_of new u of Some x \<Rightarrow> Some x | None \<Rightarrow> if u = t then Some k' else procs y u)" for u
      by (simp_all add: run(1) out commit_def map_add_def split: option.split)
    have "u < next_tid s'" if "procs y' u = Some x" for u x
      using that new [of u] tk le assms(2) unfolding y'(3) tid_inv_def
      by (cases "map_of new u") (auto split: if_splits dest: order.strict_trans2)
    moreover have "u < next_tid s' \<and> (\<forall>x. procs y' u = Some x \<longrightarrow> background x)"
      if "u \<in> dying y' \<union> set (tasks (sess s'))" for u
    proof -
      have "u \<in> dying y \<union> set (tasks (sess (sh y))) \<or> u \<in> set (map fst new)"
        using that cases unfolding y'(2) by auto
      then consider "u \<in> dying y \<union> set (tasks (sess (sh y)))" | "u \<in> set (map fst new)" by blast
      then show ?thesis
      proof cases
        case 1
        then have "u \<noteq> t" using t by blast
        with old [OF 1] fr [of u] le show ?thesis unfolding y'(3) by auto
      next
        case 2
        then obtain x where "map_of new u = Some x" unfolding dom_new by blast
        with new [OF this] show ?thesis unfolding y'(3) by simp
      qed
    qed
    moreover have "u \<in> set (tasks (sess s')) \<or> u \<in> dying y'" if "procs y' u = Some x" "background x" for u x
    proof (cases "map_of new u")
      case None
      with that nb have "procs y u = Some x" unfolding y'(3) by (auto split: if_splits)
      with that(2) assms(2) have "u \<in> set (tasks (sess (sh y))) \<or> u \<in> dying y" unfolding tid_inv_def by blast
      with cases show ?thesis unfolding y'(2) by auto
    next
      case (Some z)
      then have "u \<in> set (map fst new)" "new \<noteq> []" unfolding dom_new by auto
      with cases have "u \<in> set (map fst new)" "tasks (sess s') = tasks (sess (sh y)) @ map fst new" by blast+
      then show ?thesis by (simp only: set_append Un_iff simp_thms)
    qed
    ultimately show ?thesis unfolding tid_inv_def y'(1) by blast
  next
    case False
    from other_task_step [OF st False] have o: "same_account (sh y) s'" "new = []" "aborts = []"
      "background k' = background k" by auto
    with assms(2) run(2) show ?thesis
      unfolding tid_inv_def run(1) out commit_def prod.case
      by (auto simp: same_account_def split: if_splits)
  qed
next
  case (last_step t k r k' s')
  have "\<not> is_method k"
    using dying_background [OF assms(2) last_step(3,2)] background_method by blast
  from other_task_step [OF last_step(4) this] have o: "same_account (sh y) s'" by auto
  with assms(2) show ?thesis
    unfolding tid_inv_def last_step(1) by (auto simp: same_account_def)
next
  case (reap t)
  with assms(2) show ?thesis unfolding tid_inv_def by auto
qed

lemma lock_inv_cong:
  assumes p: "\<And>u x. procs y' u = Some x \<and> holds x \<longleftrightarrow> procs y u = Some x \<and> holds x"
    and same: "same_account (sh y) (sh y')" and "lock_inv y"
  shows "lock_inv y'"
proof -
  have h: "holder (sh y') = holder (sh y)" using same by (simp add: same_account_def)
  show ?thesis
    using assms(3) by (simp only: lock_inv_def p h accounted_same [OF same])
qed

lemma lock_inv_step:
  assumes "step env y y'" and "tid_inv y" and "lock_inv y"
  shows "lock_inv y'"
  using assms(1)
proof cases
  case (dispatch k)
  have fresh: "procs y (next_tid (sh y)) = None"
    using assms(2) by (cases "procs y (next_tid (sh y))") (auto simp: tid_inv_def)
  have acc: "accounted x ((sh y)\<lparr>next_tid := n\<rparr>) = accounted x (sh y)" for x :: "'a task" and n
    by (simp add: accounted_def split: stash.split)
  with assms(3) handler_not [OF dispatch(2)] fresh show ?thesis
    unfolding lock_inv_def dispatch(1) add_task_def Let_def by (auto split: if_splits)
next
  case (run t k r out)
  obtain k' s' new aborts where out: "out = (k', s', new, aborts)" by (cases out)
  note st = run(4) [unfolded out]
  from assms(2) run(2) have tk: "t < next_tid (sh y)" by (auto simp: tid_inv_def)
  show ?thesis
  proof (cases "is_method k")
    case True
    note eff = method_step_effect(1) [OF st True] and acc = method_step_effect(2) [OF st True]
    have new: "map_of new u = Some x \<Longrightarrow> next_tid (sh y) \<le> u \<and> \<not> holds x" for u x
      using eff map_of_new [of new u x] by (auto simp: method_effect_def)
    have fr: "u < next_tid (sh y) \<Longrightarrow> map_of new u = None" for u
      using new [of u] by (cases "map_of new u") auto
    have dom: "procs y u = Some x \<Longrightarrow> u < next_tid (sh y)" for u x
      using assms(2) by (auto simp: tid_inv_def)
    have p: "procs y' u = Some x \<and> holds x \<longleftrightarrow> (if u = t then x = k' \<and> holds k' else procs y u = Some x \<and> holds x)"
      for u x
      using new fr tk dom unfolding run(1) out commit_def
      by (cases "map_of new u") (auto simp: map_add_def)
    have sh': "sh y' = s'" by (simp add: run(1) out commit_def)
    show ?thesis
    proof (cases "holds k")
      case True
      with assms(3) run(2) have h: "holder (sh y) = Some t" "accounted k (sh y)" by (auto simp: lock_inv_def)
      then have others: "\<not> (procs y u = Some x \<and> holds x)" if "u \<noteq> t" for u x
        using assms(3) that by (auto simp: lock_inv_def)
      from eff True have "holder s' = (if holds k' then holder (sh y) else None)"
        by (simp add: method_effect_def)
      with h acc others not_holding_idle [of k' s'] p show ?thesis
        unfolding lock_inv_def sh' by auto
    next
      case False
      from eff False have e: "same_account ((sh y)\<lparr>holder := holder s'\<rparr>) s'"
        "if holds k' then holder (sh y) = None \<and> holder s' = Some t else holder s' = holder (sh y)"
        by (auto simp: method_effect_def)
      have eq: "accounted x s' = accounted x (sh y)" for x :: "'a task"
        using accounted_same [OF e(1), of x] by (simp add: accounted_def split: stash.split)
      have np: "procs y u = Some x \<and> holds x \<Longrightarrow> u \<noteq> t" for u x using run(2) False by auto
      show ?thesis
      proof (cases "holds k'")
        case True
        with e(2) have h: "holder (sh y) = None" "holder s' = Some t" by auto
        then have "\<not> (procs y u = Some x \<and> holds x)" for u x using assms(3) by (auto simp: lock_inv_def)
        moreover have "accounted k' s'"
          using acc not_holding_idle [OF False] h(1) assms(3) by (auto simp: lock_inv_def)
        ultimately show ?thesis unfolding lock_inv_def sh' using p h(2) True by auto
      next
        case False
        with e(2) have h: "holder s' = holder (sh y)" by auto
        have p': "procs y' u = Some x \<and> holds x \<longleftrightarrow> procs y u = Some x \<and> holds x" for u x
          using p [of u x] np [of u x] False by auto
        show ?thesis using assms(3) by (simp only: lock_inv_def sh' p' h eq)
      qed
    qed
  next
    case False
    from other_task_step [OF st False] have o: "same_account (sh y) s'" "new = []" "\<not> is_method k'" by auto
    have nh: "\<not> holds k" "\<not> holds k'" using False o(3) holds_method by auto
    have p: "procs y' u = Some x \<and> holds x \<longleftrightarrow> procs y u = Some x \<and> holds x" for u x
      using nh run(2) o(2) by (auto simp: run(1) out commit_def)
    have sh': "sh y' = s'" by (simp add: run(1) out commit_def)
    from lock_inv_cong [OF p _ assms(3)] o(1) show ?thesis by (simp add: sh')
  qed
next
  case (last_step t k r k' s')
  have b: "background k" by (rule dying_background [OF assms(2) last_step(3,2)])
  then have m: "\<not> is_method k" "\<not> holds k" using background_method holds_method by auto
  from other_task_step [OF last_step(4) m(1)] have o: "same_account (sh y) s'" by auto
  have p: "procs y' u = Some x \<and> holds x \<longleftrightarrow> procs y u = Some x \<and> holds x" for u x
    using m(2) last_step(2) by (auto simp: last_step(1))
  have sh': "sh y' = s'" by (simp add: last_step(1))
  from lock_inv_cong [OF p _ assms(3)] o show ?thesis by (simp add: sh')
next
  case (reap t)
  have nh: "\<not> (procs y t = Some x \<and> holds x)" for x
    using dying_background [OF assms(2) reap(2)] background_method holds_method by blast
  have p: "procs y' u = Some x \<and> holds x \<longleftrightarrow> procs y u = Some x \<and> holds x" for u x
    using nh by (auto simp: reap(1))
  have sh': "sh y' = sh y" by (simp add: reap(1))
  from lock_inv_cong [OF p _ assms(3)] show ?thesis by (simp add: sh')
qed

lemma reachable_inv:
  assumes "reachable env y"
  shows "tid_inv y \<and> lock_inv y"
  using assms
proof (induction rule: reachable_induct)
  case start
  show ?case
    by (simp add: tid_inv_def lock_inv_def start_def plugin_new_def sess_default_def accounted_def)
next
  case (step y y')
  then show ?case using tid_inv_step lock_inv_step by blast
qed

end
