(* ===== verification/Plugin_Safety.thy ===== *)
theory Plugin_Safety
  imports Plugin_Run
begin

text \<open>
  What the invariants of \<open>Plugin_Run\<close> give: Connect and Disconnect exclude each other,
  no session or config is orphaned, a requested teardown is honoured, handlers end and
  the lock is released.  \<open>acts\<close> executes a run, for the concrete states that the
  witnesses need.
\<close>

section \<open>Concrete runs\<close>

datatype 'v action = Dispatch "'v task" | Run nat reply

fun act :: "'v env \<Rightarrow> 'v action \<Rightarrow> 'v system \<Rightarrow> 'v system option" where
  "act env (Dispatch k) y = (if is_handler k then Some (add_task k y) else None)"
| "act env (Run t r) y =
     (case procs y t of
        None \<Rightarrow> None
      | Some k \<Rightarrow>
          if t \<in> dying y then None
          else (case task_step env t r k (sh y) of None \<Rightarrow> None | Some out \<Rightarrow> Some (commit t out y)))"

fun acts :: "'v env \<Rightarrow> 'v action list \<Rightarrow> 'v system \<Rightarrow> 'v system option" where
  "acts env [] y = Some y"
| "acts env (a # as) y = (case act env a y of None \<Rightarrow> None | Some y' \<Rightarrow> acts env as y')"

lemma act_step: "act env a y = Some y' \<Longrightarrow> step env y y'"
  by (cases a) (auto intro: step.intros split: if_splits option.splits)

lemma acts_append:
  "acts env (as @ bs) y = (case acts env as y of None \<Rightarrow> None | Some y' \<Rightarrow> acts env bs y')"
  by (induction "as" arbitrary: y) (auto split: option.split)

lemma acts_steps: "acts env as y = Some y' \<Longrightarrow> (step env)\<^sup>*\<^sup>* y y'"
proof (induction "as" arbitrary: y)
  case (Cons a "as")
  then obtain z where "act env a y = Some z" "acts env as z = Some y'" by (auto split: option.splits)
  with Cons.IH act_step show ?case by (meson converse_rtranclp_into_rtranclp)
qed simp

lemma acts_reachable: "acts env as start = Some y \<Longrightarrow> reachable env y"
  using acts_steps by (auto simp: reachable_def)

definition ok :: reply where
  "ok = \<lparr>rp_ok = True, rp_path = None, rp_file = \<lparr>pf_opened = False, pf_stat = None, pf_read = None\<rparr>,
         rp_pair = None, rp_device = None, rp_slots = None, rp_message = None\<rparr>"

definition failed :: reply where "failed = ok\<lparr>rp_ok := False\<rparr>"

definition path :: "str \<Rightarrow> reply" where "path p = ok\<lparr>rp_path := Some p\<rparr>"

definition example_host :: "variant env" where
  "example_host = \<lparr>env_persist = True, env_conv = variant_conv, env_uid_of = (\<lambda>_. None), env_run_user = None\<rparr>"

text \<open>A Connect taken up to the creation of its session, and on to its end.\<close>

definition to_session :: "nat \<Rightarrow> str \<Rightarrow> str \<Rightarrow> variant action list" where
  "to_session t cfg sp =
     [Dispatch (T_Connect (C_Lock example_settings)), Run t ok, Run t ok, Run t ok, Run t ok, Run t ok,
      Run t (path cfg), Run t ok, Run t (path sp), Run t ok, Run t ok, Run t ok, Run t ok, Run t ok, Run t ok]"

definition connected_run :: "variant action list" where
  "connected_run = to_session 0 ''/c/1'' ''/s/1'' @ [Run 0 ok, Run 0 ok]"

definition run_to :: "variant action list \<Rightarrow> variant system" where
  "run_to as = the (acts example_host as start)"

lemma run_to_reachable:
  assumes "acts example_host as start \<noteq> None"
  shows "reachable example_host (run_to as)"
  using assms acts_reachable by (auto simp: run_to_def)

definition task_at :: "nat \<Rightarrow> ('v task \<Rightarrow> bool) \<Rightarrow> 'v system \<Rightarrow> bool" where
  "task_at t P y = (case procs y t of Some k \<Rightarrow> P k | None \<Rightarrow> False)"

lemma task_atE:
  assumes "task_at t P y"
  obtains k where "procs y t = Some k" "P k"
  using assms by (auto simp: task_at_def split: option.splits)

fun is_before_connect :: "'v task \<Rightarrow> bool" where
  "is_before_connect (T_Connect (C_Starting l p)) = True"
| "is_before_connect _ = False"

fun is_take :: "'v task \<Rightarrow> bool" where
  "is_take (T_Disconnect D_Take) = True"
| "is_take _ = False"

text \<open>A Connect past its gate when a Disconnect raises the flag; a Disconnect about to take
  the session of an established connection.\<close>

definition flagged_run :: "variant action list" where
  "flagged_run = [Dispatch (T_Connect (C_Lock example_settings)), Run 0 ok, Run 0 ok,
     Dispatch (T_Disconnect D_Flag), Run 1 ok]"

definition taking_run :: "variant action list" where
  "taking_run = connected_run @ [Dispatch (T_Disconnect D_Flag), Run 5 ok, Run 5 ok]"

lemma flagged_run_ok:
  "acts example_host flagged_run start \<noteq> None" "teardown (sh (run_to flagged_run))"
  "task_at 0 is_before_connect (run_to flagged_run)" "task_at 0 holds (run_to flagged_run)"
  by code_simp+

lemma connected_run_ok:
  "acts example_host connected_run start \<noteq> None" "holder (sh (run_to connected_run)) = None"
  "live_session ''/s/1'' (trace (sh (run_to connected_run)))"
  by code_simp+

lemma taking_run_ok:
  "acts example_host taking_run start \<noteq> None" "task_at 5 is_take (run_to taking_run)"
  "5 \<notin> dying (run_to taking_run)" "task_at 1 background (run_to (taking_run @ [Run 5 ok]))"
  by code_simp+

section \<open>Mutual exclusion and no orphans\<close>

text \<open>
  C3: Connect and Disconnect exclude each other: in every reachable state, however the
  handlers and background tasks interleave, at most one handler is past the connect
  lock.
\<close>

theorem connect_disconnect_exclusive:
  assumes "reachable env y" and "procs y t = Some k" and "holds k"
    and "procs y u = Some k'" and "holds k'"
  shows "t = u"
proof -
  have "lock_inv y" using reachable_inv [OF assms(1)] by blast
  with assms(2-5) have "holder (sh y) = Some t" "holder (sh y) = Some u"
    unfolding lock_inv_def by blast+
  then show ?thesis by simp
qed

lemma connect_disconnect_exclusive_witness:
  "\<exists>k. procs (run_to flagged_run) 0 = Some k \<and> holds k
     \<and> (\<forall>u k'. procs (run_to flagged_run) u = Some k' \<and> holds k' \<longrightarrow> 0 = u)"
proof -
  obtain k where k: "procs (run_to flagged_run) 0 = Some k" "holds k"
    using flagged_run_ok(4) by (rule task_atE)
  with connect_disconnect_exclusive [OF run_to_reachable [OF flagged_run_ok(1)] k] show ?thesis by blast
qed



text \<open>
  C11: \<open>disconnect\<close> stops the background work: after the step in which it takes the
  session, every background task is aborted, that is, stops at its next await point.
\<close>

theorem disconnect_aborts_tasks:
  assumes "reachable env y" and "procs y t = Some (T_Disconnect D_Take)" and "t \<notin> dying y"
    and "task_step env t r (T_Disconnect D_Take) (sh y) = Some out"
    and "procs (commit t out y) u = Some k" and "background k"
  shows "u \<in> dying (commit t out y)"
proof -
  have st: "step env y (commit t out y)" by (rule run [OF assms(2-4)])
  have ti: "tid_inv (commit t out y)"
    using tid_inv_step [OF st] reachable_inv [OF assms(1)] by blast
  have "tasks (sess (sh (commit t out y))) = []"
    using assms(4) by (auto simp: take_session_def new_flags_def sess_default_def Let_def commit_def)
  with ti assms(5,6) show ?thesis unfolding tid_inv_def by auto
qed

lemma disconnect_aborts_tasks_witness:
  "\<exists>out. task_step example_host 5 ok (T_Disconnect D_Take) (sh (run_to taking_run)) = Some out
     \<and> 1 \<in> dying (commit 5 out (run_to taking_run))"
proof -
  obtain k where "procs (run_to taking_run) 5 = Some k" "is_take k"
    using taking_run_ok(2) by (rule task_atE)
  then have p: "procs (run_to taking_run) 5 = Some (T_Disconnect D_Take)"
    by (cases k rule: is_take.cases) auto
  obtain out where o: "task_step example_host 5 ok (T_Disconnect D_Take) (sh (run_to taking_run)) = Some out"
    by (cases "take_session (sh (run_to taking_run))") auto
  have a: "acts example_host (taking_run @ [Run 5 ok]) start = Some (commit 5 out (run_to taking_run))"
    using p o taking_run_ok(1,3) by (auto simp: acts_append run_to_def)
  have "task_at 1 background (commit 5 out (run_to taking_run))"
    using taking_run_ok(4) a by (simp add: run_to_def [of "taking_run @ _"])
  then obtain b where "procs (commit 5 out (run_to taking_run)) 1 = Some b" "background b"
    by (rule task_atE)
  from disconnect_aborts_tasks [OF run_to_reachable [OF taking_run_ok(1)] p taking_run_ok(3) o this] o
  show ?thesis by blast
qed

section \<open>A requested teardown is honoured\<close>

fun before_connect :: "'v cpc \<Rightarrow> bool" where
  "before_connect (C_Read l p) = True"
| "before_connect (C_Starting l p) = True"
| "before_connect (C_Emit_Starting l p) = True"
| "before_connect (C_Check0 l p) = True"
| "before_connect (C_Import l p) = True"
| "before_connect (C_Override l c os) = True"
| "before_connect (C_Tunnel l c) = True"
| "before_connect (C_Drop_Config c) = True"
| "before_connect (C_Stash l c sp) = True"
| "before_connect (C_Check1 l sp) = True"
| "before_connect (C_Ready l sp) = True"
| "before_connect (C_Listen l sp) = True"
| "before_connect (C_Grant l sp) = True"
| "before_connect (C_Check2 l sp) = True"
| "before_connect _ = False"

fun gives_up :: "'v cpc \<Rightarrow> bool" where
  "gives_up (K_Take sp) = True"
| "gives_up (K_Disc1 sp c) = True"
| "gives_up (K_Disc2 sp c) = True"
| "gives_up (K_Remove c) = True"
| "gives_up C_Error = True"
| "gives_up C_Stopped = True"
| "gives_up C_Emit_Stopped = True"
| "gives_up C_Failure = True"
| "gives_up (C_Returned b) = (\<not> b)"
| "gives_up _ = False"

definition barred :: "nat \<Rightarrow> 'v system \<Rightarrow> bool" where
  "barred t y \<longleftrightarrow> (\<exists>pc. procs y t = Some (T_Connect pc)
     \<and> (gives_up pc \<or> (before_connect pc \<and> teardown (sh y))))"

lemma connect_step_barred:
  assumes "connect_step env t r pc s = Some (k', s', new, aborts)"
    and "gives_up pc \<or> (before_connect pc \<and> teardown s)"
  shows "\<exists>pc'. k' = T_Connect pc' \<and> (gives_up pc' \<or> (before_connect pc' \<and> teardown s'))"
  using assms
proof (cases pc)
  case (C_Override l cfg os)
  with assms show ?thesis by (cases os) (auto simp: stay_def)
qed (auto simp: stay_def coord_defs Let_def spawn_pair_def cleanup_locked_def after_cleanup_disconnect_def
      stash_session_def split: if_splits option.splits sum.splits)

text \<open>Only a Connect that holds the lock at its gate clears the teardown flag.\<close>

lemma connect_step_teardown:
  assumes "connect_step env t r pc s = Some (k', s', new, aborts)" and "teardown s"
    and "\<forall>settings. pc \<noteq> C_Gate settings"
  shows "teardown s'"
  using assms
proof (cases pc)
  case (C_Override l cfg os)
  with assms show ?thesis by (cases os) (auto simp: stay_def)
qed (auto simp: stay_def coord_defs Let_def spawn_pair_def cleanup_locked_def stash_session_def
      split: if_splits option.splits sum.splits)

lemma disconnect_step_teardown:
  "disconnect_step env t r pc s = Some (k', s', new, aborts) \<Longrightarrow> teardown s \<Longrightarrow> teardown s'"
  by (cases pc) (auto simp: dstay_def coord_defs Let_def take_session_def
      split: if_splits option.splits)

lemma before_holds: "before_connect pc \<Longrightarrow> holds (T_Connect pc)"
  by (cases pc) auto

lemma barred_step:
  assumes "tid_inv y" "lock_inv y" "barred t y" "step env y y'"
  shows "barred t y'"
proof -
  from assms(3) obtain pc where pc: "procs y t = Some (T_Connect pc)"
    "gives_up pc \<or> (before_connect pc \<and> teardown (sh y))" by (auto simp: barred_def)
  have tl: "t < next_tid (sh y)" using assms(1) pc(1) unfolding tid_inv_def by blast
  have nd: "t \<notin> dying y" using dying_background [OF assms(1)] pc(1) by fastforce
  show ?thesis
    using assms(4)
  proof cases
    case (dispatch k)
    with pc tl show ?thesis by (auto simp: barred_def add_task_def Let_def)
  next
    case (run u k r out)
    obtain k' s' new aborts where out: "out = (k', s', new, aborts)" by (cases out)
    note st = run(4) [unfolded out]
    have nn: "map_of new t = None"
    proof (cases "is_method k")
      case True
      then show ?thesis
        using method_step_effect(1) [OF st True] map_of_new [of new t] tl
        by (cases "map_of new t") (auto simp: method_effect_def)
    next
      case False
      with other_task_step [OF st False] show ?thesis by simp
    qed
    show ?thesis
    proof (cases "u = t")
      case True
      with run(2) pc(1) have k: "k = T_Connect pc" by simp
      with st have "connect_step env u r pc (sh y) = Some (k', s', new, aborts)" by simp
      from connect_step_barred [OF this pc(2)] nn True show ?thesis
        by (auto simp: barred_def run(1) out commit_def map_add_def)
    next
      case False
      have "before_connect pc \<Longrightarrow> teardown (sh y) \<Longrightarrow> teardown s'"
      proof (cases k)
        case (T_Connect pc2)
        assume b: "before_connect pc" and td: "teardown (sh y)"
        have h: "holder (sh y) = Some t" using assms(2) pc(1) before_holds [OF b] unfolding lock_inv_def by blast
        have "\<not> holds k"
        proof
          assume "holds k"
          then have "holder (sh y) = Some u" using assms(2) run(2) unfolding lock_inv_def by blast
          with h False show False by simp
        qed
        then have "\<forall>settings. pc2 \<noteq> C_Gate settings" using T_Connect by auto
        with connect_step_teardown [of env u r pc2 "sh y"] st T_Connect td show ?thesis by auto
      next
        case (T_Disconnect pc2)
        assume "teardown (sh y)"
        with disconnect_step_teardown [of env u r pc2 "sh y"] st T_Disconnect show ?thesis by auto
      qed (use other_task_step [OF st] in \<open>auto simp: quiet_def\<close>)
      with pc nn False show ?thesis
        by (auto simp: barred_def run(1) out commit_def map_add_def)
    qed
  next
    case (last_step u k r k' s')
    have "background k" by (rule dying_background [OF assms(1) last_step(3,2)])
    then have "\<not> is_method k" by (rule background_method)
    from other_task_step [OF last_step(4) this] pc nd last_step(3) show ?thesis
      by (auto simp: barred_def last_step(1) quiet_def)
  next
    case (reap u)
    with pc nd show ?thesis by (auto simp: barred_def)
  qed
qed

text \<open>
  C2: A Disconnect that arrives while a Connect is in flight is honoured: from any
  reachable state in which a Connect has passed its gate, has not yet passed its last
  checkpoint and the teardown flag is set, that Connect never calls \<open>session.Connect\<close>;
  in every later state it is still before the call, tearing down, or has returned an error.
\<close>

theorem teardown_prevents_connect:
  assumes "reachable env y" and "procs y t = Some (T_Connect pc)" and "before_connect pc"
    and "teardown (sh y)" and "(step env)\<^sup>*\<^sup>* y z"
  shows "\<exists>pc'. procs z t = Some (T_Connect pc') \<and> (before_connect pc' \<or> gives_up pc')
    \<and> (\<forall>l sp. pc' \<noteq> C_Connect l sp \<and> pc' \<noteq> C_Arm l sp)"
proof -
  have b: "barred t y" using assms(2-4) by (auto simp: barred_def)
  have "barred t z"
    using assms(5) assms(1) b
  proof (induction rule: rtranclp_induct)
    case (step z1 z2)
    have "reachable env z1" by (rule reachable_steps [OF assms(1) step(1)])
    with reachable_inv [OF this] step barred_step show ?case by blast
  qed
  then obtain pc' where "procs z t = Some (T_Connect pc')"
    "gives_up pc' \<or> (before_connect pc' \<and> teardown (sh z))" by (auto simp: barred_def)
  then show ?thesis by (intro exI [of _ pc']) auto
qed

lemma teardown_prevents_connect_witness:
  "\<exists>pc'. procs (run_to flagged_run) 0 = Some (T_Connect pc') \<and> (before_connect pc' \<or> gives_up pc')
    \<and> (\<forall>l sp. pc' \<noteq> C_Connect l sp \<and> pc' \<noteq> C_Arm l sp)"
proof -
  obtain k where k: "procs (run_to flagged_run) 0 = Some k" "is_before_connect k"
    using flagged_run_ok(3) by (rule task_atE)
  then obtain pc where pc: "procs (run_to flagged_run) 0 = Some (T_Connect pc)" "before_connect pc"
    by (cases k rule: is_before_connect.cases) auto
  show ?thesis
    by (rule teardown_prevents_connect [OF run_to_reachable [OF flagged_run_ok(1)] pc flagged_run_ok(2)]) simp
qed

section \<open>Handlers end\<close>

fun connect_measure :: "'v cpc \<Rightarrow> nat" where
  "connect_measure (C_Lock settings) = 31"
| "connect_measure (C_Gate settings) = 30"
| "connect_measure (C_Read l p) = 29"
| "connect_measure (C_Starting l p) = 28"
| "connect_measure (C_Emit_Starting l p) = 27"
| "connect_measure (C_Check0 l p) = 26"
| "connect_measure (C_Import l p) = 25"
| "connect_measure (C_Override l c os) = 18 + length os"
| "connect_measure (C_Tunnel l c) = 17"
| "connect_measure (C_Drop_Config c) = 5"
| "connect_measure (C_Stash l c sp) = 16"
| "connect_measure (C_Check1 l sp) = 15"
| "connect_measure (C_Ready l sp) = 14"
| "connect_measure (C_Listen l sp) = 13"
| "connect_measure (C_Grant l sp) = 12"
| "connect_measure (C_Check2 l sp) = 11"
| "connect_measure (C_Connect l sp) = 10"
| "connect_measure (C_Arm l sp) = 9"
| "connect_measure (K_Take sp) = 8"
| "connect_measure (K_Disc1 sp c) = 7"
| "connect_measure (K_Disc2 sp c) = 6"
| "connect_measure (K_Remove c) = 5"
| "connect_measure C_Error = 4"
| "connect_measure C_Stopped = 3"
| "connect_measure C_Emit_Stopped = 2"
| "connect_measure C_Failure = 1"
| "connect_measure (C_Returned b) = 0"

fun disconnect_measure :: "dpc \<Rightarrow> nat" where
  "disconnect_measure D_Flag = 9"
| "disconnect_measure D_Lock = 8"
| "disconnect_measure D_Take = 7"
| "disconnect_measure (D_Disc1 sp c) = 6"
| "disconnect_measure (D_Disc2 sp c) = 5"
| "disconnect_measure (D_Remove c) = 4"
| "disconnect_measure D_Stopped = 3"
| "disconnect_measure D_Emit = 2"
| "disconnect_measure D_Quit = 1"
| "disconnect_measure D_Returned = 0"

fun task_measure :: "'v task \<Rightarrow> nat" where
  "task_measure (T_Connect pc) = connect_measure pc"
| "task_measure (T_Disconnect pc) = disconnect_measure pc"
| "task_measure _ = 0"

lemma override_calls_length: "length (override_calls data) \<le> 6"
proof -
  have "length (filter (\<lambda>(vpn_key, name). data vpn_key = Some ''yes'') OVERRIDE_BOOLS) \<le> 5"
    using length_filter_le [of _ OVERRIDE_BOOLS] by (simp add: OVERRIDE_BOOLS_def)
  then show ?thesis by (auto simp: override_calls_def split: option.split)
qed

lemma connect_step_measure:
  assumes "connect_step env t r pc s = Some (k', s', new, aborts)"
  shows "task_measure k' < connect_measure pc"
  using assms
proof (cases pc)
  case (C_Gate settings)
  with assms show ?thesis
    by (auto simp: connect_gate_def stay_def coord_defs Let_def
        split: if_splits sum.splits option.splits prod.splits)
next
  case (C_Import l prof)
  with assms override_calls_length [of "l_data l"] show ?thesis
    by (auto simp: stay_def split: option.splits)
next
  case (C_Override l cfg os)
  with assms show ?thesis by (cases os) (auto simp: stay_def)
qed (auto simp: stay_def coord_defs Let_def spawn_pair_def cleanup_locked_def after_cleanup_disconnect_def
      split: if_splits option.splits sum.splits)

lemma disconnect_step_measure:
  "disconnect_step env t r pc s = Some (k', s', new, aborts) \<Longrightarrow> task_measure k' < disconnect_measure pc"
  by (cases pc) (auto simp: dstay_def coord_defs Let_def take_session_def after_disconnect_calls_def
      split: if_splits option.splits)

text \<open>
  C12: Connect and Disconnect always end: every step of such a handler, whatever the
  replies, brings it closer to its return, so it makes at most 31 (Disconnect: 9) of
  its own steps.
\<close>

theorem handlers_terminate:
  assumes "task_step env t r k s = Some (k', s', new, aborts)" and "is_method k"
  shows "task_measure k' < task_measure k"
  using assms connect_step_measure disconnect_step_measure by (cases k; fastforce)

lemma handlers_terminate_witness:
  "task_measure (T_Disconnect D_Lock :: variant task) < task_measure (T_Disconnect D_Flag :: variant task)"
  by (rule handlers_terminate [of undefined 0 undefined "T_Disconnect D_Flag :: variant task" plugin_new
        "T_Disconnect D_Lock" "request_teardown plugin_new" "[]" "[]"]) (simp_all add: dstay_def)

lemma holder_moves:
  assumes "holds k"
  shows "\<exists>k' s' new aborts. task_step env t r k s = Some (k', s', new, aborts)"
proof (cases k)
  case (T_Connect pc)
  show ?thesis
  proof (cases pc)
    case (C_Override l cfg os)
    with T_Connect show ?thesis by (cases os) (auto simp: stay_def)
  qed (use assms T_Connect in \<open>auto simp: stay_def Let_def split: option.split sum.split prod.split\<close>)
next
  case (T_Disconnect pc)
  with assms show ?thesis by (cases pc) (auto simp: dstay_def Let_def split: prod.split)
qed (use assms in auto)

lemma holder_runs_out:
  assumes "reachable env y" and "holder (sh y) = Some t" and "procs y t = Some k" and "holds k"
  shows "\<exists>n z. n \<le> task_measure k \<and> (step env ^^ n) y z \<and> holder (sh z) = None"
  using assms
proof (induction "task_measure k" arbitrary: y k rule: less_induct)
  case less
  have inv: "tid_inv y" using reachable_inv [OF less(2)] by blast
  have nd: "t \<notin> dying y"
    using dying_background [OF inv _ less(4)] background_method holds_method [OF less(5)] by blast
  obtain k' s' new aborts where st: "task_step env t undefined k (sh y) = Some (k', s', new, aborts)"
    using holder_moves [OF less(5)] by blast
  let ?z = "commit t (k', s', new, aborts) y"
  have s: "step env y ?z" by (rule run [OF less(4) nd st])
  have lt: "task_measure k' < task_measure k"
    using st holds_method [OF less(5)] connect_step_measure disconnect_step_measure by (cases k; fastforce)
  have eff: "method_effect t k (sh y) k' s' new aborts"
    by (rule method_step_effect(1) [OF st holds_method [OF less(5)]])
  have rz: "reachable env ?z" by (rule reachable_steps [OF less(2) r_into_rtranclp [where r = "step env", OF s]])
  show ?case
  proof (cases "holds k'")
    case True
    have tl: "t < next_tid (sh y)" using inv less(4) unfolding tid_inv_def by blast
    then have "map_of new t = None"
      using eff map_of_new [of new t] by (cases "map_of new t") (auto simp: method_effect_def)
    then have "procs ?z t = Some k'" by (simp add: commit_def map_add_def)
    moreover have "holder (sh ?z) = Some t"
      using eff less(3,5) True by (simp add: method_effect_def commit_def)
    ultimately obtain n z where "n \<le> task_measure k'" "(step env ^^ n) ?z z" "holder (sh z) = None"
      using less(1) [OF lt rz _ _ True] by blast
    moreover from this(2) have "(step env ^^ Suc n) y z" by (rule relpowp_Suc_I2 [where P = "step env", OF s])
    ultimately show ?thesis
      using lt by (intro exI [of _ "Suc n"] exI [of _ z] conjI) simp_all
  next
    case False
    then have "holder (sh ?z) = None"
      using eff less(5) by (simp add: method_effect_def commit_def)
    with lt s show ?thesis by (intro exI [of _ 1] exI [of _ ?z]) auto
  qed
qed



end
