(* ===== verification/Plugin_Calls.thy ===== *)
theory Plugin_Calls
  imports Plugin_Safety "HOL-Library.Sublist"
begin

text \<open>
  The calls the plugin makes: each addresses a session or config of the plugin's own that
  already exists (\<open>own_calls\<close> over the trace, \<open>known_task\<close> over the locals of every
  task).  Then invariants of one task's own counter (\<open>task_induct\<close>), used for the
  bounds of the poller, and two runs that show what NetworkManager and openvpn3 can
  observe when Connect is called twice.
\<close>

section \<open>Every call addresses an object of the plugin's own\<close>

definition made :: "str \<Rightarrow> event list \<Rightarrow> bool" where
  "made p tr \<longleftrightarrow> Ev_Tunnel p \<in> set tr"

definition imported :: "str \<Rightarrow> event list \<Rightarrow> bool" where
  "imported c tr \<longleftrightarrow> list_ex (imports_config c) tr"

fun session_of_call :: "event \<Rightarrow> str option" where
  "session_of_call (Ev_Connect p) = Some p"
| "session_of_call (Ev_Disconnect p) = Some p"
| "session_of_call (Ev_Grant p u) = Some p"
| "session_of_call (Ev_Provide p slot v) = Some p"
| "session_of_call _ = None"

fun config_of_call :: "event \<Rightarrow> str option" where
  "config_of_call (Ev_Override c name v) = Some c"
| "config_of_call (Ev_Remove c) = Some c"
| "config_of_call _ = None"

definition own_call :: "event \<Rightarrow> event list \<Rightarrow> bool" where
  "own_call e tr \<longleftrightarrow>
     pred_option (\<lambda>p. made p tr) (session_of_call e) \<and> pred_option (\<lambda>c. imported c tr) (config_of_call e)"

fun own_calls :: "event list \<Rightarrow> bool" where
  "own_calls [] = True"
| "own_calls (e # tr) = (own_call e tr \<and> own_calls tr)"

lemma own_calls_append: "own_calls (post @ e # pre) \<Longrightarrow> own_call e pre"
  by (induction post) auto

text \<open>The sessions and configs a task's locals name.\<close>

definition names_opt :: "'a option \<Rightarrow> 'a list" where
  "names_opt x = (case x of Some a \<Rightarrow> [a] | None \<Rightarrow> [])"

lemma names_opt_simps [simp]:
  "names_opt None = []" "names_opt (Some a) = [a]" "list_all P (names_opt x) = pred_option P x"
  by (simp_all add: names_opt_def split: option.split)

fun sessions_of :: "'v task \<Rightarrow> str list" where
  "sessions_of (T_Connect pc) =
     (case pc of
        C_Stash l c sp \<Rightarrow> [sp] | C_Check1 l sp \<Rightarrow> [sp] | C_Ready l sp \<Rightarrow> [sp] | C_Listen l sp \<Rightarrow> [sp]
      | C_Grant l sp \<Rightarrow> [sp] | C_Check2 l sp \<Rightarrow> [sp] | C_Connect l sp \<Rightarrow> [sp] | C_Arm l sp \<Rightarrow> [sp]
      | K_Take sp \<Rightarrow> [sp] | K_Disc1 sp c \<Rightarrow> [sp] | K_Disc2 sp c \<Rightarrow> [sp] | _ \<Rightarrow> [])"
| "sessions_of (T_Disconnect pc) =
     (case pc of D_Disc1 sp c \<Rightarrow> [sp] | D_Disc2 sp c \<Rightarrow> [sp] | _ \<Rightarrow> [])"
| "sessions_of (T_New_Secrets pc) =
     (case pc of N_Loop sp slots d x m \<Rightarrow> [sp] | N_Failed sp slots d x m \<Rightarrow> [sp] | _ \<Rightarrow> [])"
| "sessions_of (T_Attention g sp pc) = [sp]"
| "sessions_of (T_Listener g sp pc) = [sp]"
| "sessions_of (T_Poller g sp pc) = [sp]"
| "sessions_of (T_Stats g pc) = []"

fun configs_of :: "'v task \<Rightarrow> str list" where
  "configs_of (T_Connect pc) =
     (case pc of
        C_Override l c os \<Rightarrow> [c] | C_Tunnel l c \<Rightarrow> [c] | C_Drop_Config c \<Rightarrow> [c] | C_Stash l c sp \<Rightarrow> [c]
      | K_Disc1 sp c \<Rightarrow> names_opt c
      | K_Disc2 sp c \<Rightarrow> names_opt c | K_Remove c \<Rightarrow> [c] | _ \<Rightarrow> [])"
| "configs_of (T_Disconnect pc) =
     (case pc of D_Disc1 sp c \<Rightarrow> names_opt c
      | D_Disc2 sp c \<Rightarrow> names_opt c | D_Remove c \<Rightarrow> [c] | _ \<Rightarrow> [])"
| "configs_of _ = []"

definition known_names :: "str list \<Rightarrow> str list \<Rightarrow> event list \<Rightarrow> bool" where
  "known_names ps cs tr \<longleftrightarrow> list_all (\<lambda>p. made p tr) ps \<and> list_all (\<lambda>c. imported c tr) cs"

definition known_task :: "event list \<Rightarrow> 'v task \<Rightarrow> bool" where
  "known_task tr k \<longleftrightarrow> known_names (sessions_of k) (configs_of k) tr"

definition known_sess :: "sess \<Rightarrow> event list \<Rightarrow> bool" where
  "known_sess ss tr \<longleftrightarrow> pred_option (\<lambda>p. made p tr) (session_path ss)
     \<and> pred_option (\<lambda>c. imported c tr) (config_path ss)"

lemma made_Cons [simp]: "made p (e # tr) \<longleftrightarrow> e = Ev_Tunnel p \<or> made p tr"
  by (auto simp: made_def)

lemma imported_Cons [simp]: "imported c (e # tr) \<longleftrightarrow> imports_config c e \<or> imported c tr"
  by (simp add: imported_def)

lemma imports_config_simps [simp]:
  "imports_config c (Ev_Import n t c') \<longleftrightarrow> c' = c" "\<not> imports_config c (Ev_Disconnect p)"
  "\<not> imports_config c (Ev_Remove c')" "\<not> imports_config c (Ev_Override c' n v)"
  "\<not> imports_config c (Ev_Provide p slot u)"
  by (simp_all add: imports_config_def)

lemma imported_append: "imported c tr \<Longrightarrow> imported c (zs @ tr)"
  by (simp add: imported_def)

lemma known_sess_Cons [simp]: "known_sess ss tr \<Longrightarrow> known_sess ss (e # tr)"
  by (auto simp: known_sess_def elim!: option.pred_mono_strong)

lemma known_sess_upd [simp]:
  "known_sess (ss\<lparr>tasks := ts\<rparr>) tr = known_sess ss tr"
  "known_sess (ss\<lparr>pending_slots := sl\<rparr>) tr = known_sess ss tr"
  "known_sess (ss\<lparr>current_data := d, current_secrets := x\<rparr>) tr = known_sess ss tr"
  by (simp_all add: known_sess_def)

lemma known_names_Cons [simp]: "known_names ps cs tr \<Longrightarrow> known_names ps cs (e # tr)"
  by (auto simp: known_names_def list_all_iff)

lemma known_mono:
  assumes "suffix tr tr'" and "known_task tr k"
  shows "known_task tr' k"
proof -
  obtain zs where "tr' = zs @ tr" using assms(1) by (auto simp: suffix_def)
  moreover have "known_names ps cs (zs @ tr)" if "known_names ps cs tr" for ps cs
    using that by (induction zs) auto
  ultimately show ?thesis using assms(2) by (simp add: known_task_def)
qed

definition call_effect ::
  "'v task \<Rightarrow> shared \<Rightarrow> 'v task \<Rightarrow> shared \<Rightarrow> (nat \<times> 'v task) list \<Rightarrow> bool" where
  "call_effect k s k' s' new \<longleftrightarrow>
     suffix (trace s) (trace s')
     \<and> (own_calls (trace s) \<and> known_sess (sess s) (trace s) \<and> known_task (trace s) k \<longrightarrow>
          own_calls (trace s') \<and> known_sess (sess s') (trace s') \<and> known_task (trace s') k'
          \<and> (\<forall>x \<in> set new. known_task (trace s') (snd x)))"

lemmas call_defs = call_effect_def known_task_def known_names_def own_call_def

lemma suffix_Cons_self [simp]: "suffix tr (e # tr)"
  by (simp add: suffix_def)

lemma connect_step_calls:
  assumes "connect_step env t r pc s = Some (k', s', new, aborts)"
  shows "call_effect (T_Connect pc) s k' s' new"
  using assms
proof (cases pc)
  case (C_Gate settings)
  with assms show ?thesis
    by (auto simp: connect_gate_def stay_def call_defs coord_defs Let_def
        split: if_splits sum.splits option.splits prod.splits)
next
  case (C_Override l cfg os)
  with assms show ?thesis by (cases os) (auto simp: stay_def call_defs)
next
  case (C_Stash l cfg sp)
  with assms show ?thesis by (auto simp: stay_def call_defs stash_session_def known_sess_def)
next
  case (K_Take sp)
  with assms show ?thesis by (auto simp: stay_def call_defs cleanup_locked_def known_sess_def Let_def)
qed (auto simp: stay_def call_defs coord_defs Let_def spawn_pair_def
      after_cleanup_disconnect_def
      split: if_splits option.splits sum.splits)

lemma disconnect_step_calls:
  assumes "disconnect_step env t r pc s = Some (k', s', new, aborts)"
  shows "call_effect (T_Disconnect pc) s k' s' new"
  using assms
proof (cases pc)
  case D_Take
  with assms show ?thesis
    by (auto simp: call_defs coord_defs Let_def take_session_def sess_default_def known_sess_def
        after_disconnect_calls_def split: option.splits)
qed (auto simp: dstay_def call_defs coord_defs Let_def
        after_disconnect_calls_def split: if_splits option.splits)

lemma attention_step_calls:
  assumes "attention_step g sp r pc s = Some (pc', s')"
  shows "call_effect (T_Attention g sp pc) s (T_Attention g sp pc') s' []"
  using assms
  by (cases "(g, sp, r, pc, s)" rule: attention_step.cases)
     (auto simp: call_defs failure_cas_def attention_done_def Let_def
        split: option.splits if_splits prod.splits)

lemma new_secrets_step_calls:
  assumes "new_secrets_step env r pc s = Some (pc', s')"
  shows "call_effect (T_New_Secrets pc) s (T_New_Secrets pc') s' []"
  using assms
  by (cases "(env, r, pc, s)" rule: new_secrets_step.cases)
     (auto simp: call_defs take_pending_def Let_def known_sess_def
        split: option.splits if_splits prod.splits)

definition no_calls :: "shared \<Rightarrow> shared \<Rightarrow> bool" where
  "no_calls s s' \<longleftrightarrow> sess s' = sess s \<and> (trace s' = trace s
     \<or> (\<exists>e. trace s' = e # trace s \<and> session_of_call e = None \<and> config_of_call e = None))"

lemma no_calls_refl [simp]: "no_calls s s"
  by (simp add: no_calls_def)

lemma watch_report_no_calls: "no_calls s (snd (watch_report g pc s))"
  by (cases pc) (auto simp: no_calls_def set_state_locked_def failure_cas_def Let_def)

lemma watch_ip4_no_calls: "no_calls s (snd (watch_ip4 g r l s))"
  by (simp add: watch_ip4_def no_calls_def ip4_rollback_def)

lemma ip4_cas_no_calls: "no_calls s (snd (ip4_cas g s))"
  by (simp add: no_calls_def ip4_cas_def)

lemma listener_step_no_calls:
  assumes "listener_step g r pc s = Some (pc', s')"
  shows "no_calls s s'"
  using assms watch_report_no_calls [of s g pc] watch_ip4_no_calls [of s g r "()"] ip4_cas_no_calls [of s g]
  by (cases "(g, r, pc, s)" rule: listener_step.cases)
     (auto simp: listener_signal_def Let_def split: option.splits if_splits prod.splits)

lemma poller_target_no_calls: "no_calls s (snd (poller_target g l status target s))"
  using ip4_cas_no_calls [of s g] by (auto simp: poller_target_def Let_def split: option.split prod.split)

lemma poller_step_no_calls:
  assumes "poller_step g r pc s = Some (pc', s')"
  shows "no_calls s s'"
proof -
  have e: "s' = snd (the (poller_step g r pc s))" using assms by simp
  show ?thesis
    using assms watch_report_no_calls [of s g pc] watch_ip4_no_calls [of s g r] poller_target_no_calls
    unfolding e
    by (cases "(g, r, pc, s)" rule: poller_step.cases)
       (auto simp: poller_status_def poller_error_def poller_device_def Let_def split: option.split prod.split if_split)
qed

lemma no_calls_effect:
  assumes "no_calls s s'" and "sessions_of k' = sessions_of k" and "configs_of k' = configs_of k"
  shows "call_effect k s k' s' []"
  using assms by (auto simp: no_calls_def call_effect_def own_call_def known_task_def)

lemma task_step_calls:
  assumes "task_step env t r k s = Some (k', s', new, aborts)"
  shows "call_effect k s k' s' new"
proof (cases k)
  case (T_Stats g pc)
  with assms show ?thesis by (auto intro!: no_calls_effect dest!: stats_step_same)
next
  case (T_Listener g sp pc)
  with assms show ?thesis by (auto intro!: no_calls_effect dest: listener_step_no_calls)
next
  case (T_Poller g sp pc)
  with assms show ?thesis by (auto intro!: no_calls_effect dest: poller_step_no_calls)
qed (use assms connect_step_calls disconnect_step_calls new_secrets_step_calls attention_step_calls
      in \<open>fastforce\<close>)+

definition calls_inv :: "'v system \<Rightarrow> bool" where
  "calls_inv y \<longleftrightarrow> own_calls (trace (sh y)) \<and> known_sess (sess (sh y)) (trace (sh y))
     \<and> (\<forall>t k. procs y t = Some k \<longrightarrow> known_task (trace (sh y)) k)"

lemma calls_inv_update:
  assumes inv: "calls_inv y" and k: "procs y t = Some k"
    and st: "task_step env t r k (sh y) = Some (k', s', new, aborts)"
    and sh': "sh y' = s'"
    and p: "\<And>u x. procs y' u = Some x \<Longrightarrow> procs y u = Some x \<or> x = k' \<or> (u, x) \<in> set new"
  shows "calls_inv y'"
proof -
  note eff = task_step_calls [OF st, unfolded call_effect_def]
  from inv k have pre: "own_calls (trace (sh y))" "known_sess (sess (sh y)) (trace (sh y))"
    "known_task (trace (sh y)) k" unfolding calls_inv_def by blast+
  with eff have post: "own_calls (trace s')" "known_sess (sess s') (trace s')" "known_task (trace s') k'"
    "\<forall>x \<in> set new. known_task (trace s') (snd x)" by blast+
  have "known_task (trace s') x" if "procs y' u = Some x" for u x
    using p [OF that]
  proof (elim disjE)
    assume "procs y u = Some x"
    with inv have "known_task (trace (sh y)) x" unfolding calls_inv_def by blast
    with eff known_mono show ?thesis by blast
  qed (use post in auto)
  with post show ?thesis by (simp add: calls_inv_def sh')
qed

lemma calls_inv_step:
  assumes "step env y y'" and "calls_inv y"
  shows "calls_inv y'"
  using assms(1)
proof cases
  case (dispatch k)
  have "known_task tr k" for tr
    using dispatch(2) by (cases k rule: is_handler.cases; simp add: known_task_def known_names_def)
  with assms(2) show ?thesis
    unfolding calls_inv_def dispatch(1) add_task_def Let_def by (auto split: if_splits)
next
  case (run t k r out)
  obtain k' s' new aborts where out: "out = (k', s', new, aborts)" by (cases out)
  show ?thesis
  proof (rule calls_inv_update [OF assms(2) run(2) run(4) [unfolded out]])
    show "sh y' = s'" by (simp add: run(1) out commit_def)
    show "procs y u = Some x \<or> x = k' \<or> (u, x) \<in> set new" if "procs y' u = Some x" for u x
      using that map_of_SomeD [of new u x]
      by (auto simp: run(1) out commit_def map_add_def split: option.splits if_splits)
  qed
next
  case (last_step t k r k' s')
  show ?thesis
    by (rule calls_inv_update [OF assms(2) last_step(2,4)]) (auto simp: last_step(1) split: if_splits)
next
  case (reap t)
  with assms(2) show ?thesis unfolding calls_inv_def by (auto split: if_splits)
qed

text \<open>
  C9: The plugin only ever touches objects of its own, and only after they exist: in any
  run, every \<open>Connect\<close>, \<open>Disconnect\<close>, \<open>AccessGrant\<close> and \<open>UserInputProvide\<close> is sent to a
  session that an earlier \<open>NewTunnel\<close> of this plugin returned, and every \<open>SetOverride\<close>
  and \<open>Remove\<close> to a config an earlier \<open>Import\<close> returned; so no call precedes the
  import or the tunnel it depends on.
\<close>

theorem calls_address_own_objects:
  assumes "reachable env y" and "trace (sh y) = later @ e # earlier"
  shows "own_call e earlier"
proof -
  have "calls_inv y"
    using assms(1)
  proof (induction rule: reachable_induct)
    case start
    show ?case by (simp add: calls_inv_def start_def plugin_new_def known_sess_def sess_default_def)
  next
    case (step y y')
    with calls_inv_step show ?case by blast
  qed
  with assms(2) own_calls_append show ?thesis unfolding calls_inv_def by metis
qed

lemma calls_address_own_objects_witness:
  "own_call (hd (trace (sh (run_to connected_run)))) (tl (trace (sh (run_to connected_run))))"
proof -
  have "trace (sh (run_to connected_run)) \<noteq> []" by code_simp
  then show ?thesis
    using calls_address_own_objects [OF run_to_reachable [OF connected_run_ok(1)], of "[]"] by simp
qed

section \<open>Invariants of a task's own counter\<close>

lemma task_induct [consumes 2, case_names handler step]:
  assumes "reachable env y" and "procs y t = Some k"
    and handler: "\<And>k. is_handler k \<Longrightarrow> P k"
    and step: "\<And>t r k s k' s' new aborts. task_step env t r k s = Some (k', s', new, aborts) \<Longrightarrow> P k \<Longrightarrow>
      P k' \<and> (\<forall>x \<in> set new. P (snd x))"
  shows "P k"
proof -
  have "\<forall>t k. procs y t = Some k \<longrightarrow> P k"
    using assms(1)
  proof (induction rule: reachable_induct)
    case start
    show ?case by (simp add: start_def)
  next
    case (step y y')
    from step.hyps(2) show ?case
    proof cases
      case (dispatch k)
      with step.IH handler show ?thesis by (auto simp: add_task_def Let_def)
    next
      case (run t k r out)
      obtain k' s' new aborts where out: "out = (k', s', new, aborts)" by (cases out)
      with run step.IH assms(4) have "P k'" "\<forall>x \<in> set new. P (snd x)" by blast+
      with run(1) out step.IH show ?thesis
        by (auto simp: commit_def map_add_def split: option.splits if_splits dest!: map_of_SomeD)
    next
      case (last_step t k r k' s')
      with step.IH show ?thesis by auto
    next
      case (reap t)
      with step.IH show ?thesis by auto
    qed
  qed
  with assms(2) show ?thesis by blast
qed

text \<open>The counters of the poller.\<close>

definition within :: "poll \<Rightarrow> bool" where
  "within l \<longleftrightarrow> p_errs l \<le> 5 \<and> (p_ip4 l \<or> p_ticks l \<le> 99)"

fun poll_of :: "poll watch \<Rightarrow> poll option" where
  "poll_of (W_Wait l) = Some l"
| "poll_of (W_Status l) = Some l"
| "poll_of (W_Device l st) = Some l"
| "poll_of (W_Ip4 l) = Some l"
| "poll_of (W_Set st (A_Continue l)) = Some l"
| "poll_of (W_Emit st (A_Continue l)) = Some l"
| "poll_of _ = None"

fun poller_within :: "'v task \<Rightarrow> bool" where
  "poller_within (T_Poller g sp pc) = pred_option within (poll_of pc)"
| "poller_within _ = True"

lemma within_simps [simp]:
  "within poll_start" "within l \<Longrightarrow> within (past_started l)" "within l \<Longrightarrow> within (l\<lparr>p_errs := 0\<rparr>)"
  by (simp_all add: within_def poll_start_def past_started_def)

lemma poll_of_after [simp]:
  "poll_of (after_state k) = (case k of A_Continue l \<Rightarrow> Some l | _ \<Rightarrow> None)"
  by (simp add: after_state_def split: after.split)

lemma poller_tick_within: "within l \<Longrightarrow> pred_option within (poll_of (poller_tick l))"
  by (auto simp: poller_tick_def Let_def within_def)

lemma poller_target_within:
  "within l \<Longrightarrow> pred_option within (poll_of (fst (poller_target g l status target s)))"
  by (auto simp: poller_target_def Let_def split: option.split prod.split)

lemma poller_status_within:
  "within l \<Longrightarrow> pred_option within (poll_of (fst (poller_status g l answer s)))"
  using poller_target_within [of "l\<lparr>p_errs := 0\<rparr>"]
  by (auto simp: poller_status_def poller_error_def Let_def within_def split: option.split prod.split)

lemma watch_report_within:
  "pred_option within (poll_of pc) \<Longrightarrow> pred_option within (poll_of (fst (watch_report g pc s)))"
proof (cases pc)
  case (W_Set st k)
  assume "pred_option within (poll_of pc)"
  with W_Set show ?thesis by (cases k) (auto simp: set_state_locked_def Let_def)
next
  case (W_Emit st k)
  assume "pred_option within (poll_of pc)"
  with W_Emit show ?thesis by (cases k) auto
qed (auto simp: failure_cas_def Let_def)

lemma poller_step_within:
  assumes "poller_step g r pc s = Some (pc', s')" and "pred_option within (poll_of pc)"
  shows "pred_option within (poll_of pc')"
proof -
  have e: "pc' = fst (the (poller_step g r pc s))" using assms by simp
  show ?thesis
    using assms watch_report_within [of pc g s] poller_tick_within poller_target_within poller_status_within
    unfolding e
    by (cases "(g, r, pc, s)" rule: poller_step.cases)
       (auto simp: poller_device_def watch_ip4_def Let_def split: option.split if_split)
qed

lemma task_step_within:
  assumes "task_step env t r k s = Some (k', s', new, aborts)" and "poller_within k"
  shows "poller_within k' \<and> (\<forall>x \<in> set new. poller_within (snd x))"
proof (cases k)
  case (T_Connect pc)
  show ?thesis
  proof (cases pc)
    case (C_Override l cfg os)
    with assms T_Connect show ?thesis by (cases os) (auto simp: stay_def)
  qed (use assms T_Connect in \<open>auto simp: stay_def spawn_pair_def cleanup_locked_def Let_def
        split: if_splits option.splits sum.splits prod.splits\<close>)
next
  case (T_Disconnect pc)
  with assms show ?thesis
    by (cases pc) (auto simp: dstay_def Let_def split: if_splits option.splits prod.splits)
next
  case (T_Poller g sp pc)
  with assms poller_step_within show ?thesis by auto
qed (use assms in auto)

text \<open>
  C39: The poller cannot run forever on a connection that never comes up: at every tick of
  every reachable state it has seen at most 5 consecutive status errors, and at most 99
  ticks without the tunnel; the 100th tick gives up with \<open>ConnectFailed\<close>.
\<close>

theorem poller_gives_up:
  fixes y :: "'a system"
  assumes "reachable env y" and "procs y t = Some (T_Poller g sp (W_Wait l))"
  shows "p_errs l \<le> 5 \<and> (p_ip4 l \<or> p_ticks l \<le> 99)
    \<and> (\<not> p_ip4 l \<and> p_ticks l = 99 \<longrightarrow>
        poller_step g r (W_Wait l) s = Some (W_Set Stopped (A_Fail Connect_Failed), s))"
proof -
  have "poller_within k" if "is_handler k" for k :: "'a task"
    using that by (cases k rule: is_handler.cases) auto
  then have "poller_within (T_Poller g sp (W_Wait l) :: 'a task)"
    by (rule task_induct [where P = poller_within, OF assms]) (assumption, rule task_step_within)
  then show ?thesis by (auto simp: within_def poller_tick_def Let_def)
qed

definition polling_run :: "variant action list" where
  "polling_run = connected_run @ [Run 3 ok, Run 3 ok, Run 3 ok]"

fun poll_waits :: "nat \<Rightarrow> 'v task \<Rightarrow> bool" where
  "poll_waits n (T_Poller g sp (W_Wait l)) = (p_ticks l = n)"
| "poll_waits n _ = False"

lemma polling_run_ok:
  "acts example_host polling_run start \<noteq> None" "task_at 3 (poll_waits 1) (run_to polling_run)"
  by code_simp+

lemma poller_gives_up_witness:
  "\<exists>g sp l. procs (run_to polling_run) 3 = Some (T_Poller g sp (W_Wait l)) \<and> p_ticks l = 1 \<and> p_errs l \<le> 5"
proof -
  obtain k where k: "procs (run_to polling_run) 3 = Some k" "poll_waits 1 k"
    using polling_run_ok(2) by (rule task_atE)
  then obtain g sp l where "k = T_Poller g sp (W_Wait l)" "p_ticks l = 1"
    by (cases "(1 :: nat, k)" rule: poll_waits.cases) auto
  with poller_gives_up [OF run_to_reachable [OF polling_run_ok(1)]] k(1) show ?thesis by blast
qed

end
