(* ===== verification/Plugin_Failure.thy ===== *)
theory Plugin_Failure
  imports Plugin_Safety
begin

text \<open>
  The compare-and-swap of \<open>emit_failure_once\<close>: at most one of a session's watchers
  signals the failure.  \<open>failure_effect\<close> says what one step of any task does to the
  guard; \<open>failure_inv\<close> is the invariant that follows.
\<close>

section \<open>At most one failure per session\<close>

text \<open>The failures a session's watchers have signalled, and the task about to signal one.\<close>

definition failures :: "nat \<Rightarrow> event list \<Rightarrow> nat" where
  "failures g tr = length (filter (\<lambda>e. \<exists>r. e = Ev_Failure (Some g) r) tr)"

fun pending_failure :: "'v task \<Rightarrow> nat option" where
  "pending_failure (T_Listener g sp (W_Failure r)) = Some g"
| "pending_failure (T_Poller g sp (W_Failure r)) = Some g"
| "pending_failure (T_Attention g sp A_Failure) = Some g"
| "pending_failure _ = None"

fun flags_of :: "'v task \<Rightarrow> nat option" where
  "flags_of (T_Listener g sp pc) = Some g"
| "flags_of (T_Poller g sp pc) = Some g"
| "flags_of (T_Attention g sp pc) = Some g"
| "flags_of (T_Stats g pc) = Some g"
| "flags_of (T_Connect pc) =
     (case pc of
        C_Read l p \<Rightarrow> Some (l_flags l) | C_Starting l p \<Rightarrow> Some (l_flags l)
      | C_Emit_Starting l p \<Rightarrow> Some (l_flags l) | C_Check0 l p \<Rightarrow> Some (l_flags l)
      | C_Import l p \<Rightarrow> Some (l_flags l) | C_Override l c os \<Rightarrow> Some (l_flags l)
      | C_Tunnel l c \<Rightarrow> Some (l_flags l) | C_Stash l c sp \<Rightarrow> Some (l_flags l)
      | C_Check1 l sp \<Rightarrow> Some (l_flags l) | C_Ready l sp \<Rightarrow> Some (l_flags l)
      | C_Listen l sp \<Rightarrow> Some (l_flags l) | C_Grant l sp \<Rightarrow> Some (l_flags l)
      | C_Check2 l sp \<Rightarrow> Some (l_flags l) | C_Connect l sp \<Rightarrow> Some (l_flags l)
      | C_Arm l sp \<Rightarrow> Some (l_flags l) | _ \<Rightarrow> None)"
| "flags_of _ = None"

text \<open>What one step does to the failure guard.\<close>

definition failure_effect :: "'v task \<Rightarrow> shared \<Rightarrow> 'v task \<Rightarrow> shared \<Rightarrow> bool" where
  "failure_effect k s k' s' \<longleftrightarrow> next_flags s \<le> next_flags s'
     \<and> (\<forall>g. flags_of k' = Some g \<longrightarrow> flags_of k = Some g \<or> (next_flags s \<le> g \<and> g < next_flags s'))
     \<and> (((\<forall>g < next_flags s. failure_emitted s' g = failure_emitted s g)
          \<and> (\<forall>g. failures g (trace s') = failures g (trace s))
          \<and> pending_failure k' = None \<and> pending_failure k = None)
        \<or> (\<exists>g. flags_of k = Some g \<and> \<not> failure_emitted s g
             \<and> failure_emitted s' = (failure_emitted s)(g := True)
             \<and> (\<forall>g. failures g (trace s') = failures g (trace s))
             \<and> pending_failure k = None \<and> pending_failure k' = Some g)
        \<or> (\<exists>g. pending_failure k = Some g \<and> failure_emitted s' = failure_emitted s
             \<and> failures g (trace s') = Suc (failures g (trace s))
             \<and> (\<forall>g'. g' \<noteq> g \<longrightarrow> failures g' (trace s') = failures g' (trace s))
             \<and> pending_failure k' = None))"

lemma failures_simps [simp]:
  "failures g [] = 0"
  "failures g (Ev_Failure (Some g') r # tr) = (if g' = g then Suc (failures g tr) else failures g tr)"
  "(\<forall>r. e \<noteq> Ev_Failure (Some g) r) \<Longrightarrow> failures g (e # tr) = failures g tr"
  by (auto simp: failures_def)

lemma connect_step_failure:
  assumes "connect_step env t r pc s = Some (k', s', new, aborts)"
  shows "failure_effect (T_Connect pc) s k' s'"
  using assms
proof (cases pc)
  case (C_Gate settings)
  with assms show ?thesis
    by (auto simp: connect_gate_def stay_def failure_effect_def coord_defs Let_def
        split: if_splits sum.splits option.splits prod.splits)
next
  case (C_Override l cfg os)
  with assms show ?thesis by (cases os) (auto simp: stay_def failure_effect_def)
qed (auto simp: stay_def failure_effect_def coord_defs Let_def spawn_pair_def
      cleanup_locked_def after_cleanup_disconnect_def stash_session_def
      split: if_splits option.splits sum.splits)

lemma disconnect_step_failure:
  assumes "disconnect_step env t r pc s = Some (k', s', new, aborts)"
  shows "failure_effect (T_Disconnect pc) s k' s'"
  using assms
  by (cases pc)
     (auto simp: dstay_def failure_effect_def coord_defs Let_def take_session_def
        after_disconnect_calls_def split: if_splits option.splits)

text \<open>The background tasks.\<close>

definition watch_effect :: "nat \<Rightarrow> 'l watch \<Rightarrow> shared \<Rightarrow> 'l watch \<Rightarrow> shared \<Rightarrow> bool" where
  "watch_effect g pc s pc' s' \<longleftrightarrow> next_flags s' = next_flags s
     \<and> ((failure_emitted s' = failure_emitted s \<and> (\<forall>g. failures g (trace s') = failures g (trace s))
          \<and> (\<forall>r. pc \<noteq> W_Failure r) \<and> (\<forall>r. pc' \<noteq> W_Failure r))
        \<or> (\<not> failure_emitted s g \<and> failure_emitted s' = (failure_emitted s)(g := True)
          \<and> (\<forall>g. failures g (trace s') = failures g (trace s))
          \<and> (\<forall>r. pc \<noteq> W_Failure r) \<and> (\<exists>r. pc' = W_Failure r))
        \<or> ((\<exists>r. pc = W_Failure r) \<and> failure_emitted s' = failure_emitted s
          \<and> failures g (trace s') = Suc (failures g (trace s))
          \<and> (\<forall>g'. g' \<noteq> g \<longrightarrow> failures g' (trace s') = failures g' (trace s))
          \<and> (\<forall>r. pc' \<noteq> W_Failure r)))"

lemma after_state_not_failure [simp]: "after_state k \<noteq> W_Failure r"
  by (simp add: after_state_def split: after.split)

lemma watch_report_effect:
  assumes "watch_report g pc s = (pc', s')"
    and "pc \<noteq> W_Attach" "pc \<noteq> W_End" "\<forall>l. pc \<noteq> W_Wait l \<and> pc \<noteq> W_Ip4 l \<and> pc \<noteq> W_Status l"
    "\<forall>l st. pc \<noteq> W_Device l st"
  shows "watch_effect g pc s pc' s'"
  using assms
  by (cases pc)
     (auto simp: watch_effect_def set_state_locked_def failure_cas_def Let_def split: if_splits)

lemma listener_step_effect:
  assumes "listener_step g r pc s = Some (pc', s')"
  shows "watch_effect g pc s pc' s'"
  using assms watch_report_effect [of g pc s]
  by (cases "(g, r, pc, s)" rule: listener_step.cases)
     (auto simp: watch_effect_def listener_signal_def watch_ip4_def ip4_rollback_def ip4_cas_def Let_def
        split: option.splits if_splits prod.splits)

lemma poller_target_effect:
  assumes "poller_target g l status target s = (pc', s')"
  shows "failure_emitted s' = failure_emitted s \<and> trace s' = trace s \<and> next_flags s' = next_flags s
    \<and> (\<forall>r. pc' \<noteq> W_Failure r)"
  using assms
  by (auto simp: poller_target_def ip4_cas_def Let_def split: option.splits if_splits)

lemma poller_step_effect:
  assumes "poller_step g r pc s = Some (pc', s')"
  shows "watch_effect g pc s pc' s'"
proof (cases "\<exists>l st. pc = W_Status l \<or> pc = W_Device l st")
  case True
  then obtain l st where "pc = W_Status l \<or> pc = W_Device l st" by blast
  with assms show ?thesis
    by (auto simp: watch_effect_def poller_status_def poller_error_def poller_device_def Let_def
        split: option.splits if_splits prod.splits dest!: poller_target_effect)
next
  case False
  with assms watch_report_effect [of g pc s] show ?thesis
    by (cases "(g, r, pc, s)" rule: poller_step.cases)
       (auto simp: watch_effect_def poller_tick_def watch_ip4_def ip4_rollback_def Let_def
          split: option.splits if_splits prod.splits)
qed

lemma attention_step_effect:
  assumes "attention_step g sp r pc s = Some (pc', s')"
  shows "failure_effect (T_Attention g sp pc) s (T_Attention g sp pc') s'"
  using assms
  by (cases "(g, sp, r, pc, s)" rule: attention_step.cases)
     (auto simp: failure_effect_def failure_cas_def attention_done_def Let_def
        split: option.splits if_splits prod.splits)

lemma new_secrets_step_effect:
  assumes "new_secrets_step env r pc s = Some (pc', s')"
  shows "failure_effect (T_New_Secrets pc) s (T_New_Secrets pc') s'"
  using assms
  by (cases "(env, r, pc, s)" rule: new_secrets_step.cases)
     (auto simp: failure_effect_def take_pending_def Let_def
        split: option.splits if_splits prod.splits)

lemma watch_to_failure:
  "watch_effect g pc s pc' s' \<Longrightarrow> failure_effect (T_Listener g sp pc) s (T_Listener g sp pc') s'"
  "watch_effect g pc2 s pc2' s' \<Longrightarrow> failure_effect (T_Poller g sp pc2) s (T_Poller g sp pc2') s'"
  by (cases pc; cases pc'; force simp: watch_effect_def failure_effect_def)
     (cases pc2; cases pc2'; force simp: watch_effect_def failure_effect_def)

lemma task_step_failure:
  assumes "task_step env t r k s = Some (k', s', new, aborts)"
  shows "failure_effect k s k' s'"
proof (cases k)
  case (T_Stats g pc)
  with assms show ?thesis by (cases pc) (auto simp: failure_effect_def)
qed (use assms connect_step_failure disconnect_step_failure new_secrets_step_effect attention_step_effect
      watch_to_failure listener_step_effect poller_step_effect in \<open>fastforce\<close>)+


lemma new_tasks_fresh:
  assumes "task_step env t r k s = Some (k', s', new, aborts)" and "x \<in> set new"
  shows "pending_failure (snd x) = None \<and> flags_of (snd x) = flags_of k"
proof (cases "is_method k")
  case True
  with assms show ?thesis
  proof (cases k)
    case (T_Connect pc)
    show ?thesis
    proof (cases pc)
      case (C_Override l cfg os)
      with assms T_Connect show ?thesis by (cases os) (auto simp: stay_def)
    qed (use assms T_Connect in \<open>auto simp: stay_def spawn_pair_def cleanup_locked_def Let_def
          split: if_splits option.splits sum.splits prod.splits\<close>)
  next
    case (T_Disconnect pc)
    with assms show ?thesis
      by (cases pc) (auto simp: dstay_def Let_def split: if_splits option.splits prod.splits)
  qed auto
next
  case False
  with other_task_step [OF assms(1)] assms(2) show ?thesis by simp
qed

lemma pending_flags: "pending_failure k = Some g \<Longrightarrow> flags_of k = Some g"
  by (cases k rule: pending_failure.cases) auto

definition failure_inv :: "'v system \<Rightarrow> bool" where
  "failure_inv y \<longleftrightarrow>
     (\<forall>t k g. procs y t = Some k \<and> flags_of k = Some g \<longrightarrow> g < next_flags (sh y))
     \<and> (\<forall>g. failures g (trace (sh y)) \<le> 1)
     \<and> (\<forall>g. next_flags (sh y) \<le> g \<longrightarrow> failures g (trace (sh y)) = 0)
     \<and> (\<forall>g < next_flags (sh y). \<not> failure_emitted (sh y) g \<longrightarrow>
          failures g (trace (sh y)) = 0 \<and> (\<forall>t k. procs y t = Some k \<longrightarrow> pending_failure k \<noteq> Some g))
     \<and> (\<forall>t k g. procs y t = Some k \<and> pending_failure k = Some g \<longrightarrow>
          failures g (trace (sh y)) = 0
          \<and> (\<forall>u k'. procs y u = Some k' \<and> pending_failure k' = Some g \<longrightarrow> u = t))"

lemma failure_inv_update:
  assumes inv: "failure_inv y" and k: "procs y t = Some k"
    and st: "task_step env t r k (sh y) = Some (k', s', new, aborts)"
    and sh': "sh y' = s'"
    and p: "\<And>u x. procs y' u = Some x \<Longrightarrow>
        (u \<noteq> t \<and> procs y u = Some x) \<or> (u = t \<and> x = k') \<or> (u, x) \<in> set new"
  shows "failure_inv y'"
proof -
  note eff = task_step_failure [OF st] and new = new_tasks_fresh [OF st]
  have fl: "flags_of x = Some g \<Longrightarrow> g < next_flags (sh y)" if "procs y u = Some x" for u x g
    using inv that unfolding failure_inv_def by blast
  have pend: "failures g (trace (sh y)) = 0 \<and> (\<forall>v k'. procs y v = Some k' \<and> pending_failure k' = Some g \<longrightarrow> v = u)"
    if "procs y u = Some x" "pending_failure x = Some g" for u x g
    using inv that unfolding failure_inv_def by blast
  have free: "failures g (trace (sh y)) = 0 \<and> (\<forall>t k. procs y t = Some k \<longrightarrow> pending_failure k \<noteq> Some g)"
    if "g < next_flags (sh y)" "\<not> failure_emitted (sh y) g" for g
    using inv that unfolding failure_inv_def by blast
  have le1: "failures g (trace (sh y)) \<le> 1" and out: "next_flags (sh y) \<le> g \<Longrightarrow> failures g (trace (sh y)) = 0" for g
    using inv unfolding failure_inv_def by blast+
  from eff have mono: "next_flags (sh y) \<le> next_flags s'"
    and fk': "\<And>g. flags_of k' = Some g \<Longrightarrow> flags_of k = Some g \<or> (next_flags (sh y) \<le> g \<and> g < next_flags s')"
    unfolding failure_effect_def by blast+
  have part1: "g < next_flags s'" if "procs y' u = Some x" "flags_of x = Some g" for u x g
  proof -
    have "procs y u = Some x \<or> x = k' \<or> flags_of k = Some g"
      using p [OF that(1)] new [of "(u, x)"] that(2) by auto
    then show ?thesis
      using fl [OF k, of g] fl [of u x g] fk' [of g] that(2) mono by (auto dest: order.strict_trans2)
  qed
  have pp: "(u \<noteq> t \<and> procs y u = Some x) \<or> (u = t \<and> x = k')"
    if "procs y' u = Some x" "pending_failure x = Some g" for u x g
    using p [OF that(1)] that(2) new [of "(u, x)"] by auto
  have flg: "g < next_flags (sh y)" if "flags_of k = Some g" for g using fl [OF k that] .
  from eff have "(\<forall>g < next_flags (sh y). failure_emitted s' g = failure_emitted (sh y) g)
          \<and> (\<forall>g. failures g (trace s') = failures g (trace (sh y)))
          \<and> pending_failure k' = None \<and> pending_failure k = None
      \<or> (\<exists>g. flags_of k = Some g \<and> \<not> failure_emitted (sh y) g
          \<and> failure_emitted s' = (failure_emitted (sh y))(g := True)
          \<and> (\<forall>g. failures g (trace s') = failures g (trace (sh y)))
          \<and> pending_failure k = None \<and> pending_failure k' = Some g)
      \<or> (\<exists>g. pending_failure k = Some g \<and> failure_emitted s' = failure_emitted (sh y)
          \<and> failures g (trace s') = Suc (failures g (trace (sh y)))
          \<and> (\<forall>g'. g' \<noteq> g \<longrightarrow> failures g' (trace s') = failures g' (trace (sh y)))
          \<and> pending_failure k' = None)"
    unfolding failure_effect_def by (elim conjE)
  then show ?thesis
  proof (elim disjE exE conjE, goal_cases same win emit)
    case same
    have pq: "u \<noteq> t \<and> procs y u = Some x" if "procs y' u = Some x" "pending_failure x = Some g" for u x g
      using pp [OF that] that(2) same(3) by auto
    have "pending_failure x \<noteq> Some g" if "\<not> failure_emitted s' g" "procs y' u = Some x" for g u x
    proof
      assume x: "pending_failure x = Some g"
      with pq [OF that(2)] have px: "procs y u = Some x" by blast
      from fl [OF px pending_flags [OF x]] have "g < next_flags (sh y)" .
      with free [of g] same(1) that(1) px x show False by blast
    qed
    moreover have "failures g (trace (sh y)) = 0" if "g < next_flags s'" "\<not> failure_emitted s' g" for g
      using that free [of g] same(1) out [of g] by (cases "g < next_flags (sh y)") auto
    ultimately show ?thesis
      unfolding failure_inv_def sh' same(2) [rule_format]
      using part1 le1 out mono pend pq by (intro conjI allI impI; blast intro: order.trans)
  next
    case (win g)
    note g = flg [OF win(1)]
    have f0: "failures g (trace (sh y)) = 0" and np: "procs y u = Some x \<Longrightarrow> pending_failure x \<noteq> Some g" for u x
      using free [OF g win(2)] by blast+
    have only: "procs y' u = Some x \<Longrightarrow> pending_failure x = Some g' \<Longrightarrow>
        (u = t \<and> g' = g) \<or> (u \<noteq> t \<and> procs y u = Some x \<and> g' \<noteq> g)" for u x g'
      using pp [of u x g'] np [of u x] win(6) by auto
    have "failures h (trace (sh y)) = 0 \<and> (\<forall>u x. procs y' u = Some x \<longrightarrow> pending_failure x \<noteq> Some h)"
      if "h < next_flags s'" "\<not> failure_emitted s' h" for h
    proof -
      have h: "h \<noteq> g" "\<not> failure_emitted (sh y) h" using that(2) win(3) by (auto split: if_splits)
      have "pending_failure x \<noteq> Some h" if "procs y' u = Some x" for u x
      proof
        assume x: "pending_failure x = Some h"
        with only [OF that] h(1) have px: "procs y u = Some x" by blast
        from free [OF fl [OF px pending_flags [OF x]] h(2)] px x show False by blast
      qed
      then show ?thesis
        using free [OF _ h(2)] out [of h] by (cases "h < next_flags (sh y)") auto
    qed
    moreover have "failures h (trace (sh y)) = 0 \<and> (\<forall>v z. procs y' v = Some z \<and> pending_failure z = Some h \<longrightarrow> v = u)"
      if "procs y' u = Some x" "pending_failure x = Some h" for u x h
      using only [OF that]
    proof (elim disjE conjE)
      assume "u = t" "h = g"
      with only f0 show ?thesis by blast
    next
      assume "procs y u = Some x" "h \<noteq> g"
      with only pend [of u x h] that(2) show ?thesis by blast
    qed
    ultimately show ?thesis
      unfolding failure_inv_def sh' win(4) [rule_format]
      using part1 le1 out mono by (intro conjI allI impI; blast intro: order.trans)
  next
    case (emit g)
    have g: "g < next_flags (sh y)" using flg pending_flags [OF emit(1)] by blast
    have f0: "failures g (trace (sh y)) = 0"
      and un: "procs y u = Some x \<Longrightarrow> pending_failure x = Some g \<Longrightarrow> u = t" for u x
      using pend [OF k emit(1)] by blast+
    have em: "failure_emitted (sh y) g" using free [OF g] k emit(1) by blast
    have pq: "procs y' u = Some x \<Longrightarrow> pending_failure x = Some h \<Longrightarrow> procs y u = Some x \<and> h \<noteq> g" for u x h
      using pp [of u x h] un [of u x] emit(5) by auto
    have fh: "failures h (trace s') = (if h = g then 1 else failures h (trace (sh y)))" for h
      using emit(3,4) f0 by auto
    have "failures h (trace s') = 0 \<and> (\<forall>u x. procs y' u = Some x \<longrightarrow> pending_failure x \<noteq> Some h)"
      if "h < next_flags s'" "\<not> failure_emitted s' h" for h
    proof -
      have h: "h \<noteq> g" "\<not> failure_emitted (sh y) h" using that(2) emit(2) em by auto
      have "pending_failure x \<noteq> Some h" if "procs y' u = Some x" for u x
      proof
        assume x: "pending_failure x = Some h"
        with pq [OF that] have px: "procs y u = Some x" by blast
        from free [OF fl [OF px pending_flags [OF x]] h(2)] px x show False by blast
      qed
      then show ?thesis
        using free [OF _ h(2)] out [of h] h(1) fh [of h] by (cases "h < next_flags (sh y)") auto
    qed
    moreover have "failures h (trace s') = 0 \<and> (\<forall>v z. procs y' v = Some z \<and> pending_failure z = Some h \<longrightarrow> v = u)"
      if "procs y' u = Some x" "pending_failure x = Some h" for u x h
    proof -
      from pq [OF that] have px: "procs y u = Some x" and h: "h \<noteq> g" by blast+
      have "v = u" if "procs y' v = Some z" "pending_failure z = Some h" for v z
        using pq [OF that] pend [OF px \<open>pending_failure x = Some h\<close>] that(2) by blast
      with pend [OF px that(2)] h fh [of h] show ?thesis by simp
    qed
    moreover have "failures h (trace s') \<le> 1" for h using fh [of h] le1 [of h] by auto
    moreover have "failures h (trace s') = 0" if "next_flags s' \<le> h" for h
      using fh [of h] out [of h] that mono g by auto
    ultimately show ?thesis unfolding failure_inv_def sh' using part1 by blast
  qed
qed

lemma failure_inv_step:
  assumes "step env y y'" and "tid_inv y" and "failure_inv y"
  shows "failure_inv y'"
  using assms(1)
proof cases
  case (dispatch k)
  have "flags_of k = None" "pending_failure k = None"
    using dispatch(2) by (cases k rule: is_handler.cases; simp)+
  with assms(3) show ?thesis
    unfolding failure_inv_def dispatch(1) add_task_def Let_def by (auto split: if_splits)
next
  case (run t k r out)
  obtain k' s' new aborts where out: "out = (k', s', new, aborts)" by (cases out)
  show ?thesis
  proof (rule failure_inv_update [OF assms(3) run(2) run(4) [unfolded out]])
    show "sh y' = s'" by (simp add: run(1) out commit_def)
    show "(u \<noteq> t \<and> procs y u = Some x) \<or> (u = t \<and> x = k') \<or> (u, x) \<in> set new"
      if "procs y' u = Some x" for u x
      using that map_of_new [of new u x]
      by (auto simp: run(1) out commit_def map_add_def split: option.splits if_splits)
  qed
next
  case (last_step t k r k' s')
  show ?thesis
    by (rule failure_inv_update [OF assms(3) last_step(2,4)]) (auto simp: last_step(1) split: if_splits)
next
  case (reap t)
  with assms(3) show ?thesis unfolding failure_inv_def by (auto split: if_splits)
qed

text \<open>
  C8: NetworkManager gets at most one failure per session from the watchers: the status
  listener, the poller and the attention listener of a session together signal at most
  one \<open>Failure\<close> in any run, however their terminal events race.
\<close>

theorem failure_at_most_once:
  assumes "reachable env y"
  shows "failures g (trace (sh y)) \<le> 1"
proof -
  have "failure_inv y"
    using assms
  proof (induction rule: reachable_induct)
    case start
    show ?case by (simp add: failure_inv_def start_def plugin_new_def)
  next
    case (step y y')
    with reachable_inv failure_inv_step show ?case by blast
  qed
  then show ?thesis unfolding failure_inv_def by blast
qed


text \<open>A run whose session is reported failed by both watchers: the listener wins.\<close>

definition failing_run :: "variant action list" where
  "failing_run = connected_run
     @ [Run 1 ok, Run 1 (ok\<lparr>rp_pair := Some (2, 9)\<rparr>), Run 1 ok, Run 1 ok, Run 1 ok, Run 1 ok, Run 1 ok,
        Run 3 ok, Run 3 ok, Run 3 (ok\<lparr>rp_pair := Some (2, 9)\<rparr>), Run 3 ok, Run 3 ok, Run 3 ok]"

lemma failing_run_ok: "acts example_host failing_run start \<noteq> None"
  by code_simp

lemma failure_at_most_once_witness:
  "failures 1 (trace (sh (run_to failing_run))) \<le> 1"
  by (rule failure_at_most_once [OF run_to_reachable [OF failing_run_ok]])

end
