(* ===== verification/Plugin_Scenarios.thy ===== *)
theory Plugin_Scenarios
  imports Plugin_Calls Plugin_Failure
begin

text \<open>
  Two complete runs of the plugin, evaluated: what NetworkManager and openvpn3 observe
  when \<open>Connect\<close> is called again while a session is up, and when it is called after a
  failed activation.
\<close>

section \<open>What calling Connect twice shows\<close>

text \<open>The poller sees the tunnel up; then NetworkManager calls \<open>Connect\<close> again.\<close>

definition second_connect_run :: "variant action list" where
  "second_connect_run = connected_run
     @ [Run 3 ok, Run 3 ok, Run 3 (ok\<lparr>rp_pair := Some (2, 7)\<rparr>), Run 3 ok, Run 3 ok, Run 3 ok, Run 3 ok,
        Dispatch (T_Connect (C_Lock example_settings)), Run 5 ok, Run 5 ok, Run 5 ok, Run 5 ok, Run 5 ok, Run 5 ok]"

text \<open>
  Refusing a second \<open>Connect\<close> disturbs the first: the refused call reports \<open>Stopped\<close>
  and \<open>ConnectFailed\<close> to NetworkManager, outside the once-per-session guard, while the
  first session, reported \<open>Started\<close> just before, is live, is still the plugin's session,
  and has not failed.
\<close>

theorem refused_connect_reports_stopped:
  "map_option (\<lambda>y. (take 3 (trace (sh y)), svc (sh y), session_path (sess (sh y)),
       live_session ''/s/1'' (trace (sh y)), failure_emitted (sh y) 1))
     (acts example_host second_connect_run start)
   = Some ([Ev_Failure None Connect_Failed, Ev_State Stopped, Ev_State Started], Stopped, Some ''/s/1'',
       True, False)"
  by code_simp

fun is_secrets :: "event \<Rightarrow> bool" where
  "is_secrets (Ev_Secrets prompt hints) = True"
| "is_secrets _ = False"

text \<open>
  A session asks for a one-time code, then fails to connect and is cleaned up; a second
  session connects, and the agent's answer to the first request arrives.
\<close>

definition otp_slot :: input_slot where
  "otp_slot = \<lparr>slot_type = 1, slot_group = 1, slot_id = 0, slot_name = ''dynamic_challenge'',
               slot_description = '''', slot_mask_input = False\<rparr>"

definition otp_settings :: "variant settings" where
  "otp_settings =
     [''vpn'' \<mapsto> [''data'' \<mapsto> V_Dict [(''remote'', V_Str ''h'')],
                ''secrets'' \<mapsto> V_Dict [(''challenge-response'', V_Str ''424242'')]]]"

definition stale_slots_run :: "variant action list" where
  "stale_slots_run = to_session 0 ''/c/1'' ''/s/1''
     @ [Run 2 ok, Run 2 (ok\<lparr>rp_message := Some ''code''\<rparr>), Run 2 (ok\<lparr>rp_slots := Some [otp_slot]\<rparr>),
        Run 2 ok, Run 2 ok, Run 2 ok, Run 2 ok, Run 2 ok,
        Run 0 failed, Run 0 ok, Run 0 ok, Run 0 ok, Run 0 ok, Run 0 ok, Run 0 ok, Run 0 ok]
     @ to_session 3 ''/c/2'' ''/s/2''
     @ [Run 3 ok, Run 3 ok, Dispatch (T_New_Secrets (N_Take otp_settings)), Run 8 ok, Run 8 ok]"


end
