(* ===== verification/Service_Main.thy ===== *)
theory Service_Main
  imports Plugin_Safety
begin

text \<open>
  The process around the plugin: \<open>nm-openvpn3-service/src/main.rs\<close>.  Start-up is the sequence of
  bus operations that can fail, with their answers given; then the process serves method calls,
  which is the transition system of \<open>Plugin_Run\<close>, until \<open>select!\<close> sees a signal or the quit
  message of \<open>disconnect\<close>.
\<close>

section \<open>Start-up\<close>

record args =
  arg_bus_name :: str
  arg_debug :: bool
  arg_persist :: bool

definition default_args :: args where
  "default_args =
     \<lparr>arg_bus_name = ''org.freedesktop.NetworkManager.openvpn3'', arg_debug = False, arg_persist = False\<rparr>"

datatype startup_error =
    M_Open_Bus | M_Builder | M_Register | M_Request_Name | M_Claim str | M_Signal

record boot =
  bt_client :: bool
  bt_builder :: bool
  bt_serve_at :: bool
  bt_name :: bool
  bt_build :: bool
  bt_sigterm :: bool
  bt_sigint :: bool

text \<open>What the bus has seen: the object was registered before the name was claimed.\<close>

datatype bus_action = Serve_At | Claim_Name str

definition main_startup :: "boot \<Rightarrow> args \<Rightarrow> (startup_error, unit) result \<times> bus_action list" where
  "main_startup bt args =
     (if \<not> bt_client bt then (Inl M_Open_Bus, [])
      else if \<not> bt_builder bt then (Inl M_Builder, [])
      else if \<not> bt_serve_at bt then (Inl M_Register, [])
      else if \<not> bt_name bt then (Inl M_Request_Name, [])
      else if \<not> bt_build bt then (Inl (M_Claim (arg_bus_name args)), [Serve_At])
      else if \<not> (bt_sigterm bt \<and> bt_sigint bt) then (Inl M_Signal, [Serve_At, Claim_Name (arg_bus_name args)])
      else (Inr (), [Serve_At, Claim_Name (arg_bus_name args)]))"

section \<open>The wait\<close>

datatype exit_cause = X_Sigterm | X_Sigint | X_Quit

datatype 'v process = Serving "'v system" | Exited exit_cause "'v system"

inductive process_run :: "boot \<Rightarrow> args \<Rightarrow> 'v env \<Rightarrow> 'v process \<Rightarrow> bool" for bt args env where
  Start: "fst (main_startup bt args) = Inr () \<Longrightarrow> env_persist env = arg_persist args
    \<Longrightarrow> process_run bt args env (Serving start)"
| Serve: "process_run bt args env (Serving y) \<Longrightarrow> step env y y' \<Longrightarrow> process_run bt args env (Serving y')"
| Sigterm: "process_run bt args env (Serving y) \<Longrightarrow> process_run bt args env (Exited X_Sigterm y)"
| Sigint: "process_run bt args env (Serving y) \<Longrightarrow> process_run bt args env (Exited X_Sigint y)"
| Quit: "process_run bt args env (Serving y) \<Longrightarrow> 0 < quit (sh y) \<Longrightarrow> process_run bt args env (Exited X_Quit y)"

inductive_cases exited_quitE: "process_run bt args env (Exited X_Quit y)"

lemma serving_reachable:
  assumes "process_run bt args env (Serving y)"
  shows "reachable env y \<and> env_persist env = arg_persist args"
  using assms
proof (induction "Serving y" arbitrary: y)
  case Start
  then show ?case by (simp add: reachable_def)
next
  case (Serve y y')
  then show ?case by (auto simp: reachable_def)
qed

section \<open>Who sends the quit message\<close>

lemma watch_report_quit: "quit (snd (watch_report g pc s)) = quit s"
  by (cases pc) (simp_all add: set_state_locked_def failure_cas_def Let_def)

lemma watch_ip4_quit: "quit (snd (watch_ip4 g r l s)) = quit s"
  by (simp add: watch_ip4_def ip4_rollback_def)

lemma cas_quit: "quit (snd (ip4_cas g s)) = quit s" "quit (snd (failure_cas g s)) = quit s"
  by (simp_all add: ip4_cas_def failure_cas_def)

lemma listener_step_quit:
  assumes "listener_step g r pc s = Some (pc', s')"
  shows "quit s' = quit s"
  using assms watch_report_quit [of g pc s] watch_ip4_quit [of g r "()" s] cas_quit(1) [of g s]
  by (cases "(g, r, pc, s)" rule: listener_step.cases)
     (auto simp: listener_signal_def Let_def split: option.splits if_splits prod.splits)

lemma poller_target_quit: "quit (snd (poller_target g l status target s)) = quit s"
  using cas_quit(1) [of g s] by (auto simp: poller_target_def Let_def split: option.split prod.split)

lemma poller_step_quit:
  assumes "poller_step g r pc s = Some (pc', s')"
  shows "quit s' = quit s"
proof -
  have e: "s' = snd (the (poller_step g r pc s))" using assms by simp
  show ?thesis
    using assms watch_report_quit [of g pc s] watch_ip4_quit [of g r _ s] poller_target_quit
    unfolding e
    by (cases "(g, r, pc, s)" rule: poller_step.cases)
       (auto simp: poller_status_def poller_device_def Let_def split: option.split prod.split if_split)
qed

lemma attention_step_quit:
  assumes "attention_step g sp r pc s = Some (pc', s')"
  shows "quit s' = quit s"
  using assms cas_quit(2) [of g s]
  by (cases "(g, sp, r, pc, s)" rule: attention_step.cases)
     (auto simp: Let_def split: option.splits if_splits prod.splits)

lemma new_secrets_step_quit:
  assumes "new_secrets_step env r pc s = Some (pc', s')"
  shows "quit s' = quit s"
  using assms
  by (cases "(env, r, pc, s)" rule: new_secrets_step.cases)
     (auto simp: take_pending_def Let_def split: option.splits if_splits prod.splits)

lemma connect_step_quit:
  assumes "connect_step env t r pc s = Some (k', s', new, aborts)"
  shows "quit s' = quit s"
  using assms
proof (cases pc)
  case (C_Gate settings)
  with assms show ?thesis
    by (auto simp: connect_gate_def stay_def coord_defs Let_def split: if_splits sum.splits option.splits prod.splits)
next
  case (C_Override l cfg os)
  with assms show ?thesis by (cases os) (auto simp: stay_def)
qed (auto simp: stay_def coord_defs Let_def spawn_pair_def cleanup_locked_def stash_session_def
      split: if_splits option.splits sum.splits)

lemma disconnect_step_quit:
  assumes "disconnect_step env t r pc s = Some (k', s', new, aborts)"
  shows "quit s' = quit s
    \<or> pc = D_Quit \<and> \<not> env_persist env \<and> quit s' = Suc (quit s) \<and> trace s' = trace s \<and> sess s' = sess s"
  using assms
  by (cases pc)
     (auto simp: dstay_def coord_defs Let_def take_session_def after_disconnect_calls_def split: option.splits if_splits)

lemma task_step_quit:
  assumes "task_step env t r k s = Some (k', s', new, aborts)"
  shows "quit s' = quit s
    \<or> k = T_Disconnect D_Quit \<and> \<not> env_persist env \<and> trace s' = trace s \<and> sess s' = sess s"
proof (cases k)
  case (T_Connect pc)
  with assms show ?thesis using connect_step_quit by auto
next
  case (T_Disconnect pc)
  with assms have "disconnect_step env t r pc s = Some (k', s', new, aborts)" by simp
  from disconnect_step_quit [OF this] T_Disconnect show ?thesis by blast
next
  case (T_New_Secrets pc)
  with assms show ?thesis by (auto dest: new_secrets_step_quit)
next
  case (T_Listener g sp pc)
  with assms show ?thesis by (auto dest: listener_step_quit)
next
  case (T_Poller g sp pc)
  with assms show ?thesis by (auto dest: poller_step_quit)
next
  case (T_Stats g pc)
  with assms show ?thesis by (auto dest: stats_step_same)
next
  case (T_Attention g sp pc)
  with assms show ?thesis by (auto dest: attention_step_quit)
qed

text \<open>Nothing of openvpn3 is left: every session was disconnected, every config removed.\<close>

definition all_dropped :: "'v system \<Rightarrow> bool" where
  "all_dropped y \<longleftrightarrow> session_path (sess (sh y)) = None
     \<and> (\<forall>p. \<not> live_session p (trace (sh y))) \<and> (\<forall>c. \<not> live_config c (trace (sh y)))"

lemma quitting_dropped:
  assumes "reachable env y" and "procs y t = Some (T_Disconnect D_Quit)"
  shows "all_dropped y"
proof -
  have h: "holds (T_Disconnect D_Quit)" by simp
  have "lock_inv y" using reachable_inv [OF assms(1)] by (rule conjunct2)
  then have "procs y t = Some k \<Longrightarrow> holds k \<Longrightarrow> accounted k (sh y)" for k
    unfolding lock_inv_def by blast
  from this [OF assms(2) h] show ?thesis by (auto simp: accounted_def all_dropped_def)
qed

text \<open>When the quit message has been sent, it was sent in a state with nothing left.\<close>

lemma quit_history:
  assumes "reachable env y" and "0 < quit (sh y)"
  shows "\<not> env_persist env \<and> (\<exists>y0. reachable env y0 \<and> 0 < quit (sh y0) \<and> all_dropped y0 \<and> (step env)\<^sup>*\<^sup>* y0 y)"
  using assms
proof (induction rule: reachable_induct)
  case start
  then show ?case by (simp add: start_def plugin_new_def)
next
  case (step y y')
  show ?case
  proof (cases "0 < quit (sh y)")
    case True
    with step(3) obtain y0 where "\<not> env_persist env" "reachable env y0" "0 < quit (sh y0)" "all_dropped y0"
      "(step env)\<^sup>*\<^sup>* y0 y" by blast
    moreover from this(5) step(2) have "(step env)\<^sup>*\<^sup>* y0 y'" by (rule rtranclp.rtrancl_into_rtrancl)
    ultimately show ?thesis by blast
  next
    case False
    have "\<exists>t. procs y t = Some (T_Disconnect D_Quit) \<and> \<not> env_persist env
        \<and> trace (sh y') = trace (sh y) \<and> sess (sh y') = sess (sh y)"
      using step(2)
    proof cases
      case (dispatch k)
      then show ?thesis using False step(4) by (simp add: add_task_def Let_def)
    next
      case (run t k r out)
      then show ?thesis
        using False step(4) task_step_quit [of env t r k "sh y"] by (cases out) (auto simp: commit_def)
    next
      case (last_step t k r k' s')
      then show ?thesis using False step(4) task_step_quit [of env t r k "sh y"] by auto
    next
      case (reap t)
      then show ?thesis using False step(4) by simp
    qed
    then obtain t where t: "procs y t = Some (T_Disconnect D_Quit)" "\<not> env_persist env"
      "trace (sh y') = trace (sh y)" "sess (sh y') = sess (sh y)" by blast
    have "all_dropped y'" using quitting_dropped [OF step(1) t(1)] t(3,4) by (simp add: all_dropped_def)
    moreover have "reachable env y'" using step(1,2) by (auto simp: reachable_def)
    ultimately show ?thesis using t(2) step(4) by blast
  qed
qed

section \<open>Properties\<close>


section \<open>A process that ends\<close>

definition all_up :: boot where
  "all_up = \<lparr>bt_client = True, bt_builder = True, bt_serve_at = True, bt_name = True, bt_build = True,
             bt_sigterm = True, bt_sigint = True\<rparr>"

definition quitting_host :: "variant env" where
  "quitting_host = example_host\<lparr>env_persist := False\<rparr>"

definition quitting_run :: "variant action list" where
  "quitting_run = connected_run @ [Dispatch (T_Disconnect D_Flag)] @ replicate 8 (Run 5 ok)"

lemma quitting_run_ok:
  "acts quitting_host quitting_run start \<noteq> None" "0 < quit (sh (the (acts quitting_host quitting_run start)))"
  by code_simp+

lemma process_serves:
  assumes "(step env)\<^sup>*\<^sup>* start y" and "fst (main_startup bt args) = Inr ()" and "env_persist env = arg_persist args"
  shows "process_run bt args env (Serving y)"
  using assms(1)
proof induction
  case base
  show ?case by (rule process_run.Start [OF assms(2,3)])
next
  case (step y z)
  then show ?case by (blast intro: process_run.Serve)
qed


end
