(* ===== verification/Users.thy ===== *)
theory Users
  imports Plugin
begin

text \<open>
  Who may see the session: \<open>username_to_uid\<close> of \<open>nm-openvpn3-service/src/plugin.rs\<close>, which turns a
  user of \<open>connection.permissions\<close> into the uid that \<open>grant_access\<close> is called with.  \<open>sysconf\<close> and
  \<open>getpwnam_r\<close> are parameters: the latter takes the name and the size of its buffer and
  returns its code and the uid of the entry it found.
\<close>

section \<open>The buffer loop\<close>

definition ERANGE :: int where "ERANGE = 34"

type_synonym getpwnam = "str \<Rightarrow> nat \<Rightarrow> int \<times> u32 option"

text \<open>\<open>None\<close> when the loop does not end, which a buffer of size 0 would cause.\<close>

partial_function (option) uid_loop :: "getpwnam \<Rightarrow> str \<Rightarrow> nat \<Rightarrow> u32 option option" where
  "uid_loop getpw name bufsize =
     (case getpw name bufsize of (rc, result) \<Rightarrow>
        if rc = 0 \<and> result \<noteq> None then Some result
        else if rc = ERANGE \<and> bufsize < 2 ^ 20 then uid_loop getpw name (bufsize * 2)
        else Some None)"

definition username_to_uid :: "int \<Rightarrow> getpwnam \<Rightarrow> str \<Rightarrow> u32 option option" where
  "username_to_uid sysconf getpw name =
     (if has_nul name then Some None
      else let bufsize = (if 0 < sysconf then nat sysconf else 4096) in uid_loop getpw name bufsize)"

lemma uid_loop_ends:
  assumes "0 < b"
  shows "\<exists>res. uid_loop getpw name b = Some res"
  using assms
proof (induction "2 ^ 20 - b" arbitrary: b rule: less_induct)
  case less
  obtain rc result where g: "getpw name b = (rc, result)" by (cases "getpw name b")
  show ?case
  proof (cases "\<not> (rc = 0 \<and> result \<noteq> None) \<and> rc = ERANGE \<and> b < 2 ^ 20")
    case True
    then have "2 ^ 20 - b * 2 < 2 ^ 20 - b" using less.prems by linarith
    from less.hyps [OF this] less.prems True g show ?thesis
      by (subst uid_loop.simps) simp
  next
    case False
    then show ?thesis using g by (subst uid_loop.simps) auto
  qed
qed

text \<open>The only sizes it ever asks with: below 2 MiB, unless libc itself suggested more.\<close>

lemma uid_loop_sizes:
  assumes "0 < b" and "\<And>n. n \<le> max b (2 ^ 21) \<Longrightarrow> getpw name n = getpw' name n"
  shows "uid_loop getpw name b = uid_loop getpw' name b"
  using assms
proof (induction "2 ^ 20 - b" arbitrary: b rule: less_induct)
  case less
  obtain rc result where g: "getpw name b = (rc, result)" by (cases "getpw name b")
  have g': "getpw' name b = (rc, result)" using less.prems(2) [of b] g by simp
  show ?case
  proof (cases "\<not> (rc = 0 \<and> result \<noteq> None) \<and> rc = ERANGE \<and> b < 2 ^ 20")
    case True
    have m: "2 ^ 20 - b * 2 < 2 ^ 20 - b" "0 < b * 2" using less.prems(1) True by linarith+
    have "max (b * 2) (2 ^ 21) \<le> max b (2 ^ 21)" using True by auto
    then have "uid_loop getpw name (b * 2) = uid_loop getpw' name (b * 2)"
      by (intro less.hyps [OF m] less.prems(2)) linarith
    then show ?thesis
      by (subst (1 2) uid_loop.simps) (simp add: g g' ERANGE_def)
  next
    case False
    then show ?thesis by (subst (1 2) uid_loop.simps) (auto simp: g g')
  qed
qed

section \<open>Against a passwd database\<close>

text \<open>
  POSIX: a name without an entry gives 0 and no result, an entry that does not fit the buffer
  gives \<open>ERANGE\<close>.  An entry is its uid and the buffer it needs.
\<close>

definition passwd :: "(str \<Rightarrow> (u32 \<times> nat) option) \<Rightarrow> getpwnam" where
  "passwd db name bufsize =
     (case db name of
        None \<Rightarrow> (0, None)
      | Some (uid, need) \<Rightarrow> if need \<le> bufsize then (0, Some uid) else (ERANGE, None))"

lemma uid_loop_finds:
  assumes "0 < b" and "db name = Some (uid, need)" and "need \<le> 2 ^ 20"
  shows "uid_loop (passwd db) name b = Some (Some uid)"
  using assms(1)
proof (induction "2 ^ 20 - b" arbitrary: b rule: less_induct)
  case less
  show ?case
  proof (cases "need \<le> b")
    case True
    then show ?thesis by (subst uid_loop.simps) (simp add: passwd_def assms(2))
  next
    case False
    then have b: "b < 2 ^ 20" using assms(3) by linarith
    then have "2 ^ 20 - b * 2 < 2 ^ 20 - b" using less.prems by linarith
    from less.hyps [OF this] less.prems False b show ?thesis
      by (subst uid_loop.simps) (simp add: passwd_def assms(2) ERANGE_def)
  qed
qed

lemma uid_loop_unknown: "db name = None \<Longrightarrow> uid_loop (passwd db) name b = Some None"
  by (subst uid_loop.simps) (simp add: passwd_def ERANGE_def)

lemma uid_of_entry:
  assumes "\<And>u uid need. db u = Some (uid, need) \<Longrightarrow> need \<le> 2 ^ 20 \<and> \<not> has_nul u"
  shows "username_to_uid sysconf (passwd db) name = Some (map_option fst (db name))"
proof (cases "db name")
  case None
  then show ?thesis by (simp add: username_to_uid_def uid_loop_unknown Let_def)
next
  case (Some e)
  obtain uid need where e: "e = (uid, need)" by (cases e)
  note p = assms [OF Some [unfolded e]]
  have "0 < (if 0 < sysconf then nat sysconf else 4096)" by simp
  from uid_loop_finds [of _ db name, OF this Some [unfolded e]] p
  show ?thesis by (simp add: username_to_uid_def Let_def Some e)
qed

text \<open>
  C36: The lookup always returns, whatever libc answers, and never asks for a buffer above 2 MiB
  (or the size libc itself suggested): its result depends on no larger one.
\<close>

theorem uid_lookup_terminates:
  assumes "\<And>n. n \<le> max (nat sysconf) (2 ^ 21) \<Longrightarrow> getpw' name n = getpw name n"
  shows "(\<exists>res. username_to_uid sysconf getpw name = Some res)
    \<and> username_to_uid sysconf getpw' name = username_to_uid sysconf getpw name"
proof -
  let ?b = "if 0 < sysconf then nat sysconf else 4096"
  have b: "0 < ?b" by simp
  have "uid_loop getpw' name ?b = uid_loop getpw name ?b"
    by (rule uid_loop_sizes [OF b]) (rule assms, auto split: if_splits)
  then show ?thesis
    using uid_loop_ends [OF b, of getpw name] by (auto simp: username_to_uid_def Let_def)
qed

text \<open>
  C35: Access goes to the first user of \<open>connection.permissions\<close> whom the passwd database knows,
  however long the entry is (up to a mebibyte) and whatever buffer libc suggests, and to the
  \<open>/run/user\<close> guess only when there is none.
\<close>

theorem grant_goes_to_first_known_user:
  assumes "\<And>u uid need. db u = Some (uid, need) \<Longrightarrow> need \<le> 2 ^ 20 \<and> \<not> has_nul u"
    and "\<And>u. username_to_uid sysconf (passwd db) u = Some (env_uid_of env u)"
  shows "grant_uid env settings =
    (case List.map_filter (\<lambda>u. map_option fst (db u)) (permission_users (env_conv env) settings) of
       uid # _ \<Rightarrow> Some uid | [] \<Rightarrow> lowest_run_user_uid (env_run_user env))"
proof -
  have f: "env_uid_of env = (\<lambda>u. map_option fst (db u))"
  proof
    fix u
    have "username_to_uid sysconf (passwd db) u = Some (map_option fst (db u))"
      by (rule uid_of_entry) (rule assms(1))
    with assms(2) [of u] show "env_uid_of env u = map_option fst (db u)" by simp
  qed
  have "(case find_map g us of None \<Rightarrow> d | Some u \<Rightarrow> Some u)
      = (case List.map_filter g us of [] \<Rightarrow> d | u # _ \<Rightarrow> Some u)" for g us and d :: "u32 option"
    by (induction us) (auto simp: List.map_filter_def split: option.splits)
  then show ?thesis by (simp add: grant_uid_def f)
qed

definition example_db :: "str \<Rightarrow> (u32 \<times> nat) option" where
  "example_db = [''alice'' \<mapsto> (1000, 6000)]"

lemma example_db_ok: "example_db u = Some (uid, need) \<Longrightarrow> need \<le> 2 ^ 20 \<and> \<not> has_nul u"
  by (auto simp: example_db_def has_nul_def split: if_splits)

lemma uid_lookup_terminates_witness:
  "username_to_uid (- 1) (\<lambda>name n. if n \<le> 2 ^ 21 then passwd example_db name n else (0, Some 7)) ''alice''
    = username_to_uid (- 1) (passwd example_db) ''alice''"
proof (rule conjunct2 [OF uid_lookup_terminates])
  fix n :: nat
  assume "n \<le> max (nat (- 1)) (2 ^ 21)"
  then have "n \<le> 2 ^ 21" by linarith
  then show "(if n \<le> 2 ^ 21 then passwd example_db ''alice'' n else (0, Some 7)) = passwd example_db ''alice'' n"
    by (rule if_P)
qed

definition list_conv :: "str list conv" where
  "list_conv = \<lparr>as_str = (\<lambda>_. None), as_ss = (\<lambda>_. None), as_sv = (\<lambda>_. None), as_str_list = Some, clone = Some\<rparr>"

definition list_env :: "str list env" where
  "list_env = \<lparr>env_persist = False, env_conv = list_conv,
     env_uid_of = (\<lambda>u. the (username_to_uid 1024 (passwd example_db) u)), env_run_user = Some [''1001'']\<rparr>"

lemma grant_goes_to_first_known_user_witness:
  "grant_uid list_env [''connection'' \<mapsto> [''permissions'' \<mapsto> [''user:bob:'', ''user:alice:'']]] = Some 1000"
proof -
  have u: "username_to_uid 1024 (passwd example_db) u = Some (env_uid_of list_env u)" for u
    using uid_of_entry [of example_db, OF example_db_ok] by (simp add: list_env_def)
  have "permission_users (env_conv list_env) [''connection'' \<mapsto> [''permissions'' \<mapsto> [''user:bob:'', ''user:alice:'']]]
      = [''bob'', ''alice'']"
    by code_simp
  then show ?thesis
    using grant_goes_to_first_known_user [of example_db 1024 list_env, OF example_db_ok u]
    by (simp add: List.map_filter_def example_db_def)
qed

end
