(* ===== verification/Editor_Plugin.thy ===== *)
theory Editor_Plugin
  imports Bridge
begin

text \<open>
  \<open>nm-openvpn3-properties/src/plugin.rs\<close>: the entry points NetworkManager's tools call on the
  editor plugin: import from a file, export to a file, the suggested file name, and finding
  the editor module.  A C string argument is \<open>None\<close> for NULL and \<open>Some None\<close> for bytes that
  are not UTF-8; the panic guard around each body is the identity on a body that returns.
  The module loader and \<open>dladdr\<close> are parameters.
\<close>

section \<open>Import, export, suggested name\<close>

datatype entry_error =
    I_Null_Path | I_Not_Utf8 | I_Open io_error | I_Fstat | I_Not_Regular | I_Too_Big nat | I_Read | I_Grew
  | I_Not_Openvpn import_error | I_Export_Failed

definition MAX_IMPORT_BYTES :: nat where "MAX_IMPORT_BYTES = 1048576"

definition iface_import_from_file ::
  "bridge_env \<Rightarrow> str option option \<Rightarrow> (entry_error, nm_connection \<times> (str \<times> str) list) result" where
  "iface_import_from_file env path =
     (case path of
        None \<Rightarrow> Inl I_Null_Path
      | Some None \<Rightarrow> Inl I_Not_Utf8
      | Some (Some p) \<Rightarrow>
          (let f = be_file env p
           in case of_open f of
                Some e \<Rightarrow> Inl (I_Open e)
              | None \<Rightarrow>
                  (case of_stat f of
                     None \<Rightarrow> Inl I_Fstat
                   | Some (is_file, len) \<Rightarrow>
                       if \<not> is_file then Inl I_Not_Regular
                       else if MAX_IMPORT_BYTES < len then Inl (I_Too_Big len)
                       else case of_read f of
                              None \<Rightarrow> Inl I_Read
                            | Some txt \<Rightarrow>
                                if MAX_IMPORT_BYTES < length (utf8_bytes txt) then Inl I_Grew
                                else case ovpn_text_to_connection env p txt of
                                       Inl e \<Rightarrow> Inl (I_Not_Openvpn e)
                                     | Inr c \<Rightarrow> Inr c)))"

definition iface_export_to_file ::
  "bridge_env \<Rightarrow> write_plan \<Rightarrow> str option option \<Rightarrow> dict option \<Rightarrow> files \<Rightarrow> (entry_error, unit) result \<times> files" where
  "iface_export_to_file env plan path connection fs =
     (case (path, connection) of
        (Some p, Some data) \<Rightarrow>
          (case p of
             None \<Rightarrow> (Inl I_Not_Utf8, fs)
           | Some p \<Rightarrow>
               (let (ok, fs) = export_connection_to_path env plan data p fs
                in (if ok then Inr () else Inl I_Export_Failed, fs)))
      | _ \<Rightarrow> (Inl I_Null_Path, fs))"

definition iface_get_suggested_filename :: "str option option \<Rightarrow> str option" where
  "iface_get_suggested_filename cid =
     (case cid of
        Some (Some s) \<Rightarrow> if s \<noteq> [] then Some (s @ '' (openvpn).conf'') else None
      | _ \<Rightarrow> None)"

section \<open>The editor module\<close>

definition EDITOR_MODULE :: str where
  "EDITOR_MODULE = ''libnm-vpn-plugin-openvpn3-editor.so''"

text \<open>\<open>own\<close> is the path \<open>dladdr\<close> reports for this library.\<close>

definition locate_editor_module :: "str option \<Rightarrow> str option" where
  "locate_editor_module own =
     (case own of
        None \<Rightarrow> None
      | Some fname \<Rightarrow>
          (case path_parent fname of
             None \<Rightarrow> None
           | Some parent \<Rightarrow>
               if parent = [] then None
               else let editor = join_path parent EDITOR_MODULE
                    in if has_nul editor then None else Some editor))"

datatype editor_load = Loaded str | Open_Module_Failed str | No_Factory str

definition iface_get_editor :: "str option \<Rightarrow> (str \<Rightarrow> bool) \<Rightarrow> (str \<Rightarrow> bool) \<Rightarrow> editor_load" where
  "iface_get_editor own opens has_factory =
     (let abs_path = locate_editor_module own;
          module = (case abs_path of Some p \<Rightarrow> if opens p then Some p else None | None \<Rightarrow> None);
          module = (case module of
                      None \<Rightarrow> if opens EDITOR_MODULE then Some EDITOR_MODULE else None
                    | Some m \<Rightarrow> Some m)
      in case module of
           None \<Rightarrow> Open_Module_Failed (case abs_path of Some p \<Rightarrow> p | None \<Rightarrow> EDITOR_MODULE)
         | Some m \<Rightarrow> if has_factory m then Loaded m else No_Factory m)"

section \<open>Properties\<close>

lemma import_no_blobs:
  "\<forall>d \<in> set ds. plain_option d \<Longrightarrow> import_blobs env cid ds acc = acc"
proof (induction ds)
  case (Cons d ds)
  then show ?case by (cases d) auto
qed simp

text \<open>A file system as the importer sees it, for contents that are ASCII text.\<close>

definition on_disk :: "files \<Rightarrow> str \<Rightarrow> os_file" where
  "on_disk fs p =
     \<lparr>of_open = (if fs p = None then Some E_Other else None),
      of_stat = map_option (\<lambda>b. (True, length b)) (fs p), of_read = fs p\<rparr>"

lemma import_exported:
  assumes "fs' path = Some txt" and "length (utf8_bytes txt) \<le> MAX_IMPORT_BYTES"
    and "length txt \<le> MAX_IMPORT_BYTES" and "parse txt = Inr cfg" and "be_new_connection env"
  shows "\<exists>con files. iface_import_from_file (env\<lparr>be_file := on_disk fs'\<rparr>) (Some (Some path)) = Inr (con, files)
    \<and> ovpn_text_to_connection (env\<lparr>be_file := on_disk fs'\<rparr>) path txt = Inr (con, files)"
proof -
  have "\<exists>con files. ovpn_text_to_connection (env\<lparr>be_file := on_disk fs'\<rparr>) path txt = Inr (con, files)"
    using assms(4,5) by (simp add: ovpn_text_to_connection_def Let_def split: prod.split)
  with assms(1-3) show ?thesis
    by (auto simp: iface_import_from_file_def on_disk_def Let_def)
qed

lemma export_outcome:
  assumes "export_connection_to_path env plan data path fs = (True, fs')"
  shows "fs' path = Some (connection_to_ovpn_text env data)"
  using export_result [OF assms] by simp

lemma utf8_bytes_id: "\<forall>c \<in> set s. of_char c < (128 :: nat) \<Longrightarrow> length (utf8_bytes s) = length s"
  by (simp add: utf8_ascii)

definition exportable :: "bridge_env \<Rightarrow> dict \<Rightarrow> bool" where
  "exportable env data \<longleftrightarrow> validate (from_nm_data data) = Inr ()
     \<and> (\<forall>c \<in> set (emit (from_nm_data data)). of_char c < (128 :: nat))
     \<and> (\<forall>p. data ''nm-openvpn3-profile'' = Some p \<longrightarrow> p = [] \<or> read_profile_securely env p = None)
     \<and> length (utf8_bytes (connection_to_ovpn_text env data)) \<le> MAX_IMPORT_BYTES"

lemma utf8_bytes_longer: "length s \<le> length (utf8_bytes s)"
  by (induction s) (auto simp: utf8_bytes_def Let_def)


text \<open>
  The editor module is loaded from beside the plugin or from the loader's search path:
  never from a path relative to the working directory.
\<close>

theorem editor_module_never_relative:
  assumes "iface_get_editor own opens has_factory = Loaded m"
  shows "m = EDITOR_MODULE \<or> (\<exists>fname d. own = Some fname \<and> path_parent fname = Some d \<and> d \<noteq> []
    \<and> m = join_path d EDITOR_MODULE \<and> file_name m = Some EDITOR_MODULE)"
proof -
  have "plain_file EDITOR_MODULE" by code_simp
  then show ?thesis
    using assms file_name_join
    by (auto simp: iface_get_editor_def locate_editor_module_def Let_def split: option.splits if_splits)
qed

definition all_well :: write_plan where
  "all_well = \<lparr>w_unlink_ok = True, w_create_ok = True, w_bytes = None, w_sync_ok = True,
               w_rename_ok = True, w_cleanup_ok = True\<rparr>"

definition small_vpn :: dict where
  "small_vpn = [''connection-type'' \<mapsto> ''tls'', ''remote'' \<mapsto> ''vpn:443'', ''cipher'' \<mapsto> ''AES-256-GCM'']"

lemma small_exportable: "exportable example_bridge small_vpn"
proof -
  have "list_all (\<lambda>c. of_char c < (128 :: nat)) (emit (from_nm_data small_vpn))" by code_simp
  moreover have "validate (from_nm_data small_vpn) = Inr ()" by code_simp
  moreover have "length (utf8_bytes (connection_to_ovpn_text example_bridge small_vpn)) \<le> 1000" by code_simp
  then have "length (utf8_bytes (connection_to_ovpn_text example_bridge small_vpn)) \<le> MAX_IMPORT_BYTES"
    by (simp add: MAX_IMPORT_BYTES_def)
  moreover have "small_vpn ''nm-openvpn3-profile'' = None" by (simp add: small_vpn_def)
  ultimately show ?thesis by (simp add: exportable_def list_all_iff)
qed


lemma editor_module_never_relative_witness:
  "file_name ''/usr/lib/libnm-vpn-plugin-openvpn3-editor.so'' = Some EDITOR_MODULE"
proof -
  let ?m = "''/usr/lib/libnm-vpn-plugin-openvpn3-editor.so''"
  have l: "iface_get_editor (Some ''/usr/lib/plugin.so'') (\<lambda>_. True) (\<lambda>_. True) = Loaded ?m"
  proof -
    have "path_parent ''/usr/lib/plugin.so'' = Some ''/usr/lib''" by code_simp
    moreover have "join_path ''/usr/lib'' EDITOR_MODULE = ?m" by (simp add: join_path_def EDITOR_MODULE_def)
    moreover have "\<not> has_nul ?m" by (simp add: has_nul_def)
    ultimately show ?thesis by (simp add: iface_get_editor_def locate_editor_module_def)
  qed
  have "?m \<noteq> EDITOR_MODULE" by (simp add: EDITOR_MODULE_def)
  with editor_module_never_relative [OF l] show ?thesis by blast
qed

end
