(* ===== verification/Library_Entry.thy ===== *)
theory Library_Entry
  imports Editor_Plugin
begin

text \<open>
  \<open>nm-openvpn3-properties/src/libnm.rs\<close> and \<open>ffi.rs\<close>: the GError convention, the factory
  NetworkManager's tools load the plugin with, and \<open>connection_to_nm_data\<close> of \<open>bridge.rs\<close>,
  which reads a connection over libnm's C callback.  The address of a GObject is a number,
  0 for NULL.
\<close>

section \<open>GError\<close>

text \<open>
  A \<open>GError **\<close> argument: \<open>None\<close> when the caller passes NULL, otherwise what it points to.
\<close>

record gerror =
  ge_code :: int
  ge_message :: str

type_synonym error_out = "gerror option option"

definition NM_OPENVPN3_PLUGIN_ERROR_FAILED :: int where
  "NM_OPENVPN3_PLUGIN_ERROR_FAILED = 0"

definition set_error :: "error_out \<Rightarrow> int \<Rightarrow> str \<Rightarrow> error_out" where
  "set_error err_out code msg =
     (case err_out of
        None \<Rightarrow> None
      | Some (Some e) \<Rightarrow> Some (Some e)
      | Some None \<Rightarrow>
          Some (Some \<lparr>ge_code = code, ge_message = (if has_nul msg then ''unspecified error'' else msg)\<rparr>))"

lemma set_error_simps [simp]:
  "set_error None code msg = None"
  "set_error (Some (Some e)) code msg = Some (Some e)"
  by (simp_all add: set_error_def)

lemma set_error_null_iff [simp]: "set_error err code msg = Some None \<longleftrightarrow> False"
  by (simp add: set_error_def split: option.split)

section \<open>The plugin factory\<close>

definition NM_LIBNM_VERSION_MIN :: u32 where
  "NM_LIBNM_VERSION_MIN = or (push_bit 16 1) (push_bit 8 30)"

definition version_message :: "u32 \<Rightarrow> str" where
  "version_message version =
     ''libnm '' @ show_int (uint (and (drop_bit 16 version) 255)) @ ''.''
       @ show_int (uint (and (drop_bit 8 version) 255)) @ ''.''
       @ show_int (uint (and version 255)) @ '' is too old; need 1.30+''"

definition nm_vpn_editor_plugin_factory :: "u32 \<Rightarrow> nat \<Rightarrow> error_out \<Rightarrow> nat \<times> error_out" where
  "nm_vpn_editor_plugin_factory version plugin_new error =
     (if version < NM_LIBNM_VERSION_MIN
      then (0, set_error error NM_OPENVPN3_PLUGIN_ERROR_FAILED (version_message version))
      else if plugin_new = 0
      then (0, set_error error NM_OPENVPN3_PLUGIN_ERROR_FAILED ''plugin_new returned NULL'')
      else (plugin_new, error))"

text \<open>libnm's \<open>NM_ENCODE_VERSION\<close>.\<close>

definition encode_version :: "nat \<Rightarrow> nat \<Rightarrow> nat \<Rightarrow> u32" where
  "encode_version major minor micro = of_nat (major * 65536 + minor * 256 + micro)"

lemma unat_encode_version:
  assumes "major < 256" "minor < 256" "micro < 256"
  shows "unat (encode_version major minor micro) = major * 65536 + minor * 256 + micro"
proof -
  have "major * 65536 + minor * 256 + micro < 2 ^ LENGTH(32)"
    using assms by simp
  then show ?thesis unfolding encode_version_def unat_of_nat by simp
qed

lemma version_min_value: "unat NM_LIBNM_VERSION_MIN = 73216"
  by (simp add: NM_LIBNM_VERSION_MIN_def push_bit_numeral push_bit_of_1)

lemma version_gate:
  assumes "major < 256" "minor < 256" "micro < 256"
  shows "encode_version major minor micro < NM_LIBNM_VERSION_MIN \<longleftrightarrow> major = 0 \<or> major = 1 \<and> minor < 30"
  unfolding word_less_nat_alt unat_encode_version [OF assms] version_min_value
proof -
  consider "major = 0" | "major = 1" | "2 \<le> major" by linarith
  then show "major * 65536 + minor * 256 + micro < 73216 \<longleftrightarrow> major = 0 \<or> major = 1 \<and> minor < 30"
    by cases (use assms in auto)
qed

lemma encode_version_fields:
  assumes "major < 256" "minor < 256" "micro < 256"
  shows "uint (and (drop_bit 16 (encode_version major minor micro)) 255) = int major"
    and "uint (and (drop_bit 8 (encode_version major minor micro)) 255) = int minor"
    and "uint (and (encode_version major minor micro) 255) = int micro"
proof -
  have field: "uint (and (drop_bit n v) (255 :: u32)) = int (unat v div 2 ^ n mod 256)" for n and v :: u32
  proof -
    have "mask 8 = (255 :: u32)" by (simp add: mask_eq_exp_minus_1)
    from this [symmetric] have "uint (and (drop_bit n v) (255 :: u32)) = uint (take_bit 8 (drop_bit n v))"
      by (simp only: take_bit_eq_mask)
    also have "\<dots> = take_bit 8 (uint (drop_bit n v))" by (simp only: unsigned_take_bit_eq)
    also have "\<dots> = uint (drop_bit n v) mod 256" by (simp add: take_bit_eq_mod)
    also have "uint (drop_bit n v) = int (unat v div 2 ^ n)"
      unfolding uint_nat unat_drop_bit_eq by (simp only: drop_bit_eq_div)
    finally show ?thesis by (simp only: zmod_int of_nat_numeral)
  qed
  let ?v = "encode_version major minor micro"
  note u = unat_encode_version [OF assms]
  show "uint (and (drop_bit 16 ?v) 255) = int major"
    unfolding field u using assms by simp
  have "(major * 65536 + minor * 256 + micro) div 256 = major * 256 + minor"
    using assms(3) by simp
  then show "uint (and (drop_bit 8 ?v) 255) = int minor"
    unfolding field u using assms by simp
  show "uint (and ?v 255) = int micro"
  proof -
    have "major * 65536 + minor * 256 + micro = micro + (major * 256 + minor) * 256" by simp
    then have "(major * 65536 + minor * 256 + micro) mod 256 = micro"
      using assms(3) by (simp only: mod_mult_self1 mod_less)
    then show ?thesis using field [of 0 ?v] u by simp
  qed
qed

text \<open>
  The load gate: a libnm before 1.30 is refused, with the version it reported in the error,
  and every later one gets the plugin object, or the error that there is none; the caller finds
  a null object exactly with an error set.
\<close>

theorem factory_refuses_old_libnm:
  assumes "major < 256" "minor < 256" "micro < 256"
  shows "nm_vpn_editor_plugin_factory (encode_version major minor micro) obj (Some None) =
    (if major = 0 \<or> major = 1 \<and> minor < 30
     then (0, Some (Some \<lparr>ge_code = 0, ge_message = ''libnm '' @ show_int (int major) @ ''.''
            @ show_int (int minor) @ ''.'' @ show_int (int micro) @ '' is too old; need 1.30+''\<rparr>))
     else if obj = 0 then (0, Some (Some \<lparr>ge_code = 0, ge_message = ''plugin_new returned NULL''\<rparr>))
     else (obj, Some None))"
proof -
  have plain: "\<not> has_nul (show_int (int n))" for n
    using show_int_digits(2) [of "int n"] by (force simp: has_nul_def is_ascii_digit_def)
  have msg: "version_message (encode_version major minor micro) = ''libnm '' @ show_int (int major) @ ''.''
      @ show_int (int minor) @ ''.'' @ show_int (int micro) @ '' is too old; need 1.30+''"
    unfolding version_message_def encode_version_fields [OF assms] ..
  have "\<not> has_nul (version_message (encode_version major minor micro))"
    unfolding msg using plain by (simp add: has_nul_def)
  then show ?thesis
    by (simp add: nm_vpn_editor_plugin_factory_def version_gate [OF assms] set_error_def msg
        NM_OPENVPN3_PLUGIN_ERROR_FAILED_def has_nul_def)
qed

lemma factory_refuses_old_libnm_witness:
  "fst (nm_vpn_editor_plugin_factory (encode_version 1 28 4) 7 (Some None)) = 0
   \<and> nm_vpn_editor_plugin_factory (encode_version 1 30 0) 7 (Some None) = (7, Some None)"
  using factory_refuses_old_libnm [of 1 28 4 7] factory_refuses_old_libnm [of 1 30 0 7] by simp

section \<open>What the plugin says of itself\<close>

definition NM_VPN_EDITOR_PLUGIN_CAPABILITY_IMPORT :: u32 where
  "NM_VPN_EDITOR_PLUGIN_CAPABILITY_IMPORT = 1"

definition NM_VPN_EDITOR_PLUGIN_CAPABILITY_EXPORT :: u32 where
  "NM_VPN_EDITOR_PLUGIN_CAPABILITY_EXPORT = 2"

definition NM_VPN_EDITOR_PLUGIN_CAPABILITY_IPV6 :: u32 where
  "NM_VPN_EDITOR_PLUGIN_CAPABILITY_IPV6 = 4"

definition iface_get_capabilities :: u32 where
  "iface_get_capabilities =
     or NM_VPN_EDITOR_PLUGIN_CAPABILITY_IMPORT NM_VPN_EDITOR_PLUGIN_CAPABILITY_EXPORT"

definition PLUGIN_NAME :: str where "PLUGIN_NAME = ''OpenVPN 3''"

definition PLUGIN_DESC :: str where
  "PLUGIN_DESC = ''Compatible with the OpenVPN 3 Linux client (net.openvpn.v3.*).''"

definition NM_VPN_SERVICE_TYPE_OPENVPN3 :: str where
  "NM_VPN_SERVICE_TYPE_OPENVPN3 = ''org.freedesktop.NetworkManager.openvpn3''"

text \<open>The property getter: the value set, if any.\<close>

definition get_property :: "u32 \<Rightarrow> str option" where
  "get_property prop_id =
     (if prop_id = 1 then Some PLUGIN_NAME
      else if prop_id = 2 then Some PLUGIN_DESC
      else if prop_id = 3 then Some NM_VPN_SERVICE_TYPE_OPENVPN3
      else None)"

text \<open>IPv6 is not advertised: the service emits no IPv6 configuration.\<close>

lemma no_ipv6_capability: "and iface_get_capabilities NM_VPN_EDITOR_PLUGIN_CAPABILITY_IPV6 = 0"
  by (simp add: iface_get_capabilities_def NM_VPN_EDITOR_PLUGIN_CAPABILITY_IMPORT_def
      NM_VPN_EDITOR_PLUGIN_CAPABILITY_EXPORT_def NM_VPN_EDITOR_PLUGIN_CAPABILITY_IPV6_def)

section \<open>Reading a connection\<close>

text \<open>
  One call of the callback: a C string is \<open>None\<close> for NULL and \<open>Some None\<close> for bytes that are
  not UTF-8.  The connection is the calls libnm makes for it, \<open>None\<close> without a VPN setting.
\<close>

type_synonym c_str = "str option option"

fun collect :: "c_str \<times> c_str \<Rightarrow> dict \<Rightarrow> dict" where
  "collect (Some (Some k), Some (Some v)) out = out(k \<mapsto> v)"
| "collect (_, _) out = out"

definition connection_to_nm_data :: "(c_str \<times> c_str) list option \<Rightarrow> dict" where
  "connection_to_nm_data s_vpn =
     (case s_vpn of None \<Rightarrow> Map.empty | Some calls \<Rightarrow> fold collect calls Map.empty)"

lemma map_of_rev: "distinct (map fst xs) \<Longrightarrow> map_of (rev xs) = map_of xs"
  by (subst map_of_inject_set) (auto simp: rev_map [symmetric])

text \<open>What libnm enumerates for a dictionary is that dictionary.\<close>

lemma collect_utf8:
  "fold collect (map (\<lambda>(k, v). (Some (Some k), Some (Some v))) xs) out = out ++ map_of (rev xs)"
  by (induction xs arbitrary: out) (auto simp: map_add_def split: option.splits)

lemma connection_to_nm_data_reads:
  assumes "distinct (map fst xs)"
  shows "connection_to_nm_data (Some (map (\<lambda>(k, v). (Some (Some k), Some (Some v))) xs)) = map_of xs"
  using assms by (simp add: connection_to_nm_data_def collect_utf8 map_of_rev)

end
