(* ===== verification/Editor_Widgets.thy ===== *)
theory Editor_Widgets
  imports Editor
begin

text \<open>
  The rows of the settings page (\<open>build_widget_tree\<close> of \<open>nm-openvpn3-editor/src/editor.rs\<close>): an
  id for every input row, reading and setting what it holds, and the page as the code lays it
  out, row by row with its title, its vocabulary, bounds or file filters, and the item that
  fills it.  Hints and tooltips are left out.
\<close>

section \<open>Widgets\<close>

datatype combo_id =
    CB_contype | CB_static_key_dir | CB_dev_type | CB_allow_compression | CB_comp_lzo | CB_compress
  | CB_cipher | CB_data_ciphers_fallback | CB_auth | CB_tls_version_min | CB_tls_version_max
  | CB_remote_cert_tls | CB_ns_cert_type | CB_ta_dir | CB_proxy_type

datatype entry_id =
    EN_remote | EN_ca | EN_cert | EN_key | EN_username | EN_profile_path | EN_static_key | EN_dev
  | EN_data_ciphers | EN_tls_cipher | EN_verify_x509_name | EN_ta | EN_tls_crypt | EN_tls_crypt_v2
  | EN_proxy_server | EN_proxy_user

datatype password_id = PW_cert_pass | PW_password | PW_proxy_pass

datatype spin_id =
    SP_port | SP_tun_mtu | SP_mssfix_bytes | SP_fragment | SP_keepalive_ping | SP_keepalive_restart
  | SP_reneg_seconds | SP_connect_timeout | SP_keysize | SP_proxy_port | SP_or_log_level

datatype switch_id =
    SW_proto_tcp | SW_mssfix_enabled | SW_tls_version_min_or_highest | SW_or_route_nopull
  | SW_or_force_default_gateway | SW_or_block_ipv6 | SW_or_dns_setup_disabled | SW_or_dco

datatype widget =
    W_Combo combo_id | W_Entry entry_id | W_Password password_id | W_Spin spin_id | W_Switch switch_id

fun combo_of :: "combo_id \<Rightarrow> editor_state \<Rightarrow> combo" where
  "combo_of CB_contype st = st_contype st"
| "combo_of CB_static_key_dir st = st_static_key_dir st"
| "combo_of CB_dev_type st = st_dev_type st"
| "combo_of CB_allow_compression st = st_allow_compression st"
| "combo_of CB_comp_lzo st = st_comp_lzo st"
| "combo_of CB_compress st = st_compress st"
| "combo_of CB_cipher st = st_cipher st"
| "combo_of CB_data_ciphers_fallback st = st_data_ciphers_fallback st"
| "combo_of CB_auth st = st_auth st"
| "combo_of CB_tls_version_min st = st_tls_version_min st"
| "combo_of CB_tls_version_max st = st_tls_version_max st"
| "combo_of CB_remote_cert_tls st = st_remote_cert_tls st"
| "combo_of CB_ns_cert_type st = st_ns_cert_type st"
| "combo_of CB_ta_dir st = st_ta_dir st"
| "combo_of CB_proxy_type st = st_proxy_type st"

fun entry_of :: "entry_id \<Rightarrow> editor_state \<Rightarrow> str" where
  "entry_of EN_remote st = st_remote st"
| "entry_of EN_ca st = st_ca st"
| "entry_of EN_cert st = st_cert st"
| "entry_of EN_key st = st_key st"
| "entry_of EN_username st = st_username st"
| "entry_of EN_profile_path st = st_profile_path st"
| "entry_of EN_static_key st = st_static_key st"
| "entry_of EN_dev st = st_dev st"
| "entry_of EN_data_ciphers st = st_data_ciphers st"
| "entry_of EN_tls_cipher st = st_tls_cipher st"
| "entry_of EN_verify_x509_name st = st_verify_x509_name st"
| "entry_of EN_ta st = st_ta st"
| "entry_of EN_tls_crypt st = st_tls_crypt st"
| "entry_of EN_tls_crypt_v2 st = st_tls_crypt_v2 st"
| "entry_of EN_proxy_server st = st_proxy_server st"
| "entry_of EN_proxy_user st = st_proxy_user st"

fun password_of :: "password_id \<Rightarrow> editor_state \<Rightarrow> str" where
  "password_of PW_cert_pass st = st_cert_pass st"
| "password_of PW_password st = st_password st"
| "password_of PW_proxy_pass st = st_proxy_pass st"

fun spin_of :: "spin_id \<Rightarrow> editor_state \<Rightarrow> f64" where
  "spin_of SP_port st = st_port st"
| "spin_of SP_tun_mtu st = st_tun_mtu st"
| "spin_of SP_mssfix_bytes st = st_mssfix_bytes st"
| "spin_of SP_fragment st = st_fragment st"
| "spin_of SP_keepalive_ping st = st_keepalive_ping st"
| "spin_of SP_keepalive_restart st = st_keepalive_restart st"
| "spin_of SP_reneg_seconds st = st_reneg_seconds st"
| "spin_of SP_connect_timeout st = st_connect_timeout st"
| "spin_of SP_keysize st = st_keysize st"
| "spin_of SP_proxy_port st = st_proxy_port st"
| "spin_of SP_or_log_level st = st_or_log_level st"

fun switch_of :: "switch_id \<Rightarrow> editor_state \<Rightarrow> bool" where
  "switch_of SW_proto_tcp st = st_proto_tcp st"
| "switch_of SW_mssfix_enabled st = st_mssfix_enabled st"
| "switch_of SW_tls_version_min_or_highest st = st_tls_version_min_or_highest st"
| "switch_of SW_or_route_nopull st = st_or_route_nopull st"
| "switch_of SW_or_force_default_gateway st = st_or_force_default_gateway st"
| "switch_of SW_or_block_ipv6 st = st_or_block_ipv6 st"
| "switch_of SW_or_dns_setup_disabled st = st_or_dns_setup_disabled st"
| "switch_of SW_or_dco st = st_or_dco st"

text \<open>What a user's action, or a widget setter, puts into one row.\<close>

datatype edit =
    Pick combo_id nat | Type_Text entry_id str | Type_Password password_id str
  | Spin_To spin_id f64 | Toggle switch_id bool

fun changes :: "edit \<Rightarrow> editor_state \<Rightarrow> bool" where
  "changes (Pick c i) st \<longleftrightarrow> combo_selected (combo_of c st) \<noteq> i"
| "changes (Type_Text e s) st \<longleftrightarrow> entry_of e st \<noteq> s"
| "changes (Type_Password p s) st \<longleftrightarrow> password_of p st \<noteq> s"
| "changes (Spin_To w v) st \<longleftrightarrow> spin_of w st \<noteq> v"
| "changes (Toggle w b) st \<longleftrightarrow> switch_of w st \<noteq> b"

fun set_selected :: "combo_id \<Rightarrow> nat \<Rightarrow> editor_state \<Rightarrow> editor_state" where
  "set_selected CB_contype v st = st\<lparr>st_contype := (st_contype st)\<lparr>combo_selected := v\<rparr>\<rparr>"
| "set_selected CB_static_key_dir v st = st\<lparr>st_static_key_dir := (st_static_key_dir st)\<lparr>combo_selected := v\<rparr>\<rparr>"
| "set_selected CB_dev_type v st = st\<lparr>st_dev_type := (st_dev_type st)\<lparr>combo_selected := v\<rparr>\<rparr>"
| "set_selected CB_allow_compression v st = st\<lparr>st_allow_compression := (st_allow_compression st)\<lparr>combo_selected := v\<rparr>\<rparr>"
| "set_selected CB_comp_lzo v st = st\<lparr>st_comp_lzo := (st_comp_lzo st)\<lparr>combo_selected := v\<rparr>\<rparr>"
| "set_selected CB_compress v st = st\<lparr>st_compress := (st_compress st)\<lparr>combo_selected := v\<rparr>\<rparr>"
| "set_selected CB_cipher v st = st\<lparr>st_cipher := (st_cipher st)\<lparr>combo_selected := v\<rparr>\<rparr>"
| "set_selected CB_data_ciphers_fallback v st = st\<lparr>st_data_ciphers_fallback := (st_data_ciphers_fallback st)\<lparr>combo_selected := v\<rparr>\<rparr>"
| "set_selected CB_auth v st = st\<lparr>st_auth := (st_auth st)\<lparr>combo_selected := v\<rparr>\<rparr>"
| "set_selected CB_tls_version_min v st = st\<lparr>st_tls_version_min := (st_tls_version_min st)\<lparr>combo_selected := v\<rparr>\<rparr>"
| "set_selected CB_tls_version_max v st = st\<lparr>st_tls_version_max := (st_tls_version_max st)\<lparr>combo_selected := v\<rparr>\<rparr>"
| "set_selected CB_remote_cert_tls v st = st\<lparr>st_remote_cert_tls := (st_remote_cert_tls st)\<lparr>combo_selected := v\<rparr>\<rparr>"
| "set_selected CB_ns_cert_type v st = st\<lparr>st_ns_cert_type := (st_ns_cert_type st)\<lparr>combo_selected := v\<rparr>\<rparr>"
| "set_selected CB_ta_dir v st = st\<lparr>st_ta_dir := (st_ta_dir st)\<lparr>combo_selected := v\<rparr>\<rparr>"
| "set_selected CB_proxy_type v st = st\<lparr>st_proxy_type := (st_proxy_type st)\<lparr>combo_selected := v\<rparr>\<rparr>"

fun set_entry :: "entry_id \<Rightarrow> str \<Rightarrow> editor_state \<Rightarrow> editor_state" where
  "set_entry EN_remote v st = st\<lparr>st_remote := v\<rparr>"
| "set_entry EN_ca v st = st\<lparr>st_ca := v\<rparr>"
| "set_entry EN_cert v st = st\<lparr>st_cert := v\<rparr>"
| "set_entry EN_key v st = st\<lparr>st_key := v\<rparr>"
| "set_entry EN_username v st = st\<lparr>st_username := v\<rparr>"
| "set_entry EN_profile_path v st = st\<lparr>st_profile_path := v\<rparr>"
| "set_entry EN_static_key v st = st\<lparr>st_static_key := v\<rparr>"
| "set_entry EN_dev v st = st\<lparr>st_dev := v\<rparr>"
| "set_entry EN_data_ciphers v st = st\<lparr>st_data_ciphers := v\<rparr>"
| "set_entry EN_tls_cipher v st = st\<lparr>st_tls_cipher := v\<rparr>"
| "set_entry EN_verify_x509_name v st = st\<lparr>st_verify_x509_name := v\<rparr>"
| "set_entry EN_ta v st = st\<lparr>st_ta := v\<rparr>"
| "set_entry EN_tls_crypt v st = st\<lparr>st_tls_crypt := v\<rparr>"
| "set_entry EN_tls_crypt_v2 v st = st\<lparr>st_tls_crypt_v2 := v\<rparr>"
| "set_entry EN_proxy_server v st = st\<lparr>st_proxy_server := v\<rparr>"
| "set_entry EN_proxy_user v st = st\<lparr>st_proxy_user := v\<rparr>"

fun set_password :: "password_id \<Rightarrow> str \<Rightarrow> editor_state \<Rightarrow> editor_state" where
  "set_password PW_cert_pass v st = st\<lparr>st_cert_pass := v\<rparr>"
| "set_password PW_password v st = st\<lparr>st_password := v\<rparr>"
| "set_password PW_proxy_pass v st = st\<lparr>st_proxy_pass := v\<rparr>"

fun set_spin :: "spin_id \<Rightarrow> f64 \<Rightarrow> editor_state \<Rightarrow> editor_state" where
  "set_spin SP_port v st = st\<lparr>st_port := v\<rparr>"
| "set_spin SP_tun_mtu v st = st\<lparr>st_tun_mtu := v\<rparr>"
| "set_spin SP_mssfix_bytes v st = st\<lparr>st_mssfix_bytes := v\<rparr>"
| "set_spin SP_fragment v st = st\<lparr>st_fragment := v\<rparr>"
| "set_spin SP_keepalive_ping v st = st\<lparr>st_keepalive_ping := v\<rparr>"
| "set_spin SP_keepalive_restart v st = st\<lparr>st_keepalive_restart := v\<rparr>"
| "set_spin SP_reneg_seconds v st = st\<lparr>st_reneg_seconds := v\<rparr>"
| "set_spin SP_connect_timeout v st = st\<lparr>st_connect_timeout := v\<rparr>"
| "set_spin SP_keysize v st = st\<lparr>st_keysize := v\<rparr>"
| "set_spin SP_proxy_port v st = st\<lparr>st_proxy_port := v\<rparr>"
| "set_spin SP_or_log_level v st = st\<lparr>st_or_log_level := v\<rparr>"

fun set_switch :: "switch_id \<Rightarrow> bool \<Rightarrow> editor_state \<Rightarrow> editor_state" where
  "set_switch SW_proto_tcp v st = st\<lparr>st_proto_tcp := v\<rparr>"
| "set_switch SW_mssfix_enabled v st = st\<lparr>st_mssfix_enabled := v\<rparr>"
| "set_switch SW_tls_version_min_or_highest v st = st\<lparr>st_tls_version_min_or_highest := v\<rparr>"
| "set_switch SW_or_route_nopull v st = st\<lparr>st_or_route_nopull := v\<rparr>"
| "set_switch SW_or_force_default_gateway v st = st\<lparr>st_or_force_default_gateway := v\<rparr>"
| "set_switch SW_or_block_ipv6 v st = st\<lparr>st_or_block_ipv6 := v\<rparr>"
| "set_switch SW_or_dns_setup_disabled v st = st\<lparr>st_or_dns_setup_disabled := v\<rparr>"
| "set_switch SW_or_dco v st = st\<lparr>st_or_dco := v\<rparr>"

fun apply_edit :: "edit \<Rightarrow> editor_state \<Rightarrow> editor_state" where
  "apply_edit (Pick c i) st = set_selected c i st"
| "apply_edit (Type_Text e s) st = set_entry e s st"
| "apply_edit (Type_Password p s) st = set_password p s st"
| "apply_edit (Spin_To w v) st = set_spin w v st"
| "apply_edit (Toggle w b) st = set_switch w b st"

lemma apply_edit_idle: "\<not> changes ed st \<Longrightarrow> apply_edit ed st = st"
proof (cases ed)
  case (Pick c i)
  then show "\<not> changes ed st \<Longrightarrow> apply_edit ed st = st" by (cases c) auto
next
  case (Type_Text e s)
  then show "\<not> changes ed st \<Longrightarrow> apply_edit ed st = st" by (cases e) auto
next
  case (Type_Password p s)
  then show "\<not> changes ed st \<Longrightarrow> apply_edit ed st = st" by (cases p) auto
next
  case (Spin_To w v)
  then show "\<not> changes ed st \<Longrightarrow> apply_edit ed st = st" by (cases w) auto
next
  case (Toggle w b)
  then show "\<not> changes ed st \<Longrightarrow> apply_edit ed st = st" by (cases w) auto
qed

lemma apply_edit_type_ids [simp]:
  "combo_ids (st_contype (apply_edit ed st)) = combo_ids (st_contype st)"
proof (cases ed)
  case (Pick c i)
  then show ?thesis by (cases c) auto
next
  case (Type_Text e s)
  then show ?thesis by (cases e) auto
next
  case (Type_Password p s)
  then show ?thesis by (cases p) auto
next
  case (Spin_To w v)
  then show ?thesis by (cases w) auto
next
  case (Toggle w b)
  then show ?thesis by (cases w) auto
qed

lemma set_selected_contype: "c \<noteq> CB_contype \<Longrightarrow> st_contype (set_selected c i st) = st_contype st"
  by (cases c) auto

lemma set_entry_simps [simp]:
  "st_contype (set_entry e s st) = st_contype st"
  "st_mssfix_enabled (set_entry e s st) = st_mssfix_enabled st"
  by (cases e; simp)+

lemma set_password_simps [simp]:
  "st_contype (set_password p s st) = st_contype st"
  "st_mssfix_enabled (set_password p s st) = st_mssfix_enabled st"
  by (cases p; simp)+

lemma set_spin_simps [simp]:
  "st_contype (set_spin w v st) = st_contype st"
  "st_mssfix_enabled (set_spin w v st) = st_mssfix_enabled st"
  by (cases w; simp)+

lemma set_other_simps [simp]:
  "st_contype (set_switch q b st) = st_contype st"
  "st_mssfix_enabled (set_selected c i st) = st_mssfix_enabled st"
  by (cases q; simp) (cases c; simp)

lemma entry_of_set [simp]:
  "entry_of e (set_entry e' s st) = (if e = e' then s else entry_of e st)"
  "entry_of e (set_password p s st) = entry_of e st"
  "entry_of e (set_spin w v st) = entry_of e st"
  "entry_of e (set_switch q b st) = entry_of e st"
  "entry_of e (set_selected c i st) = entry_of e st"
  subgoal by (cases e; cases e'; simp)
  subgoal by (cases e; cases p; simp)
  subgoal by (cases e; cases w; simp)
  subgoal by (cases e; cases q; simp)
  subgoal by (cases e; cases c; simp)
  done

lemma set_switch_mssfix: "q \<noteq> SW_mssfix_enabled \<Longrightarrow> st_mssfix_enabled (set_switch q b st) = st_mssfix_enabled st"
  by (cases q) auto

lemma combo_of_set [simp]:
  "combo_of c (set_selected c' i st)
    = (if c = c' then (combo_of c st)\<lparr>combo_selected := i\<rparr> else combo_of c st)"
  "combo_of c (set_entry e s st) = combo_of c st" "combo_of c (set_password p s st) = combo_of c st"
  "combo_of c (set_spin w v st) = combo_of c st" "combo_of c (set_switch q b st) = combo_of c st"
  subgoal by (cases c; cases c'; simp)
  subgoal by (cases c; cases e; simp)
  subgoal by (cases c; cases p; simp)
  subgoal by (cases c; cases w; simp)
  subgoal by (cases c; cases q; simp)
  done

lemma spin_of_set [simp]:
  "spin_of w (set_spin w' v st) = (if w = w' then v else spin_of w st)"
  "spin_of w (set_selected c i st) = spin_of w st" "spin_of w (set_entry e s st) = spin_of w st"
  "spin_of w (set_password p s st) = spin_of w st" "spin_of w (set_switch q b st) = spin_of w st"
  subgoal by (cases w; cases w'; simp)
  subgoal by (cases w; cases c; simp)
  subgoal by (cases w; cases e; simp)
  subgoal by (cases w; cases p; simp)
  subgoal by (cases w; cases q; simp)
  done

section \<open>The page\<close>

type_synonym picker_filters = "(str \<times> str list) list"

definition FILTER_CERT :: picker_filters where
  "FILTER_CERT = [(''Certificates (PEM, CRT, CER)'', [''*.pem'', ''*.crt'', ''*.cer''])]"

definition FILTER_KEY :: picker_filters where
  "FILTER_KEY = [(''Keys (PEM, KEY)'', [''*.pem'', ''*.key'']), (''PKCS#12 bundles (P12, PFX)'', [''*.p12'', ''*.pfx''])]"

definition FILTER_PROFILE :: picker_filters where
  "FILTER_PROFILE = [(''OpenVPN profiles (OVPN, CONF)'', [''*.ovpn'', ''*.conf''])]"

definition FILTER_KEY_MATERIAL :: picker_filters where
  "FILTER_KEY_MATERIAL = [(''Key material (KEY, PEM, TXT)'', [''*.key'', ''*.pem'', ''*.txt''])]"

text \<open>The filters a file dialog offers: those of the row and the fallback.\<close>

definition dialog_filters :: "(str \<Rightarrow> str) \<Rightarrow> picker_filters \<Rightarrow> picker_filters" where
  "dialog_filters tr filters =
     (if filters = [] then []
      else map (\<lambda>(name, patterns). (tr name, patterns)) filters @ [(tr ''All files'', [''*''])])"

definition passthrough_label :: "str \<Rightarrow> bool" where
  "passthrough_label s \<longleftrightarrow> s \<in>
     {''TLS'', ''HTTP'', ''SOCKS'', ''TLS 1.0'', ''TLS 1.1'', ''TLS 1.2'', ''TLS 1.3'', ''tun'', ''tap'', ''LZO'', ''LZ4'',
      ''LZ4 v2'', ''AES-128-CBC'', ''AES-192-CBC'', ''AES-256-CBC'', ''AES-128-GCM'', ''AES-192-GCM'', ''AES-256-GCM'',
      ''CHACHA20-POLY1305'', ''BF-CBC'', ''SHA1'', ''SHA224'', ''SHA256'', ''SHA384'', ''SHA512'', ''RIPEMD160'', ''MD5''}"

text \<open>The entries a combo row shows; \<open>tr\<close> is the message catalogue.\<close>

definition combo_labels :: "(str \<Rightarrow> str) \<Rightarrow> (str \<times> str) list \<Rightarrow> str option \<Rightarrow> str list" where
  "combo_labels tr choices initial =
     map (\<lambda>(cid, l). if passthrough_label l then l else tr l) choices
     @ (case initial of
          Some v \<Rightarrow> if v \<noteq> [] \<and> match_choice initial 0 choices None = None then [v] else []
        | None \<Rightarrow> [])"

text \<open>
  A row: its title and how it is filled.  A combo row has its vocabulary, the item and the value
  that stands for a missing item; a spin row its bounds.  The two rows of \<open>mssfix\<close> share an item.
\<close>

datatype page_row =
    Combo_Row combo_id str "(str \<times> str) list" str "str option"
  | Entry_Row entry_id str str
  | Picker_Row entry_id str str picker_filters
  | Password_Row password_id str
  | Spin_Row spin_id str int int str
  | Switch_Row switch_id str str
  | Mssfix_Switch str
  | Mssfix_Spin str int int

fun row_widget :: "page_row \<Rightarrow> widget" where
  "row_widget (Combo_Row c t choices k d) = W_Combo c"
| "row_widget (Entry_Row e t k) = W_Entry e"
| "row_widget (Picker_Row e t k fl) = W_Entry e"
| "row_widget (Password_Row p t) = W_Password p"
| "row_widget (Spin_Row w t lo hi k) = W_Spin w"
| "row_widget (Switch_Row q t k) = W_Switch q"
| "row_widget (Mssfix_Switch t) = W_Switch SW_mssfix_enabled"
| "row_widget (Mssfix_Spin t lo hi) = W_Spin SP_mssfix_bytes"

definition general_rows :: "page_row list" where
  "general_rows =
     [Combo_Row CB_contype ''Connection type'' CONTYPES ''connection-type'' (Some ''tls''),
      Entry_Row EN_remote ''Gateway'' ''remote'',
      Spin_Row SP_port ''Port'' 0 65535 ''port'',
      Picker_Row EN_ca ''CA certificate'' ''ca'' FILTER_CERT,
      Picker_Row EN_cert ''User certificate'' ''cert'' FILTER_CERT,
      Picker_Row EN_key ''Private key'' ''key'' FILTER_KEY,
      Password_Row PW_cert_pass ''Private key passphrase'',
      Entry_Row EN_username ''Username'' ''username'',
      Password_Row PW_password ''Password'',
      Picker_Row EN_static_key ''Static key file'' ''static-key'' FILTER_KEY_MATERIAL,
      Combo_Row CB_static_key_dir ''Static key direction'' KEY_DIR ''static-key-direction'' None,
      Picker_Row EN_profile_path ''Inline .ovpn profile'' ''nm-openvpn3-profile'' FILTER_PROFILE]"

definition device_rows :: "page_row list" where
  "device_rows =
     [Entry_Row EN_dev ''Custom device name'' ''dev'',
      Combo_Row CB_dev_type ''Device type'' DEV_TYPES ''dev-type'' None,
      Spin_Row SP_tun_mtu ''Tunnel MTU'' 0 65535 ''tunnel-mtu'',
      Spin_Row SP_fragment ''Fragment size'' 0 65535 ''fragment-size'',
      Mssfix_Switch ''MSSfix'',
      Mssfix_Spin ''MSSfix byte count'' 0 65535]"

definition connection_rows :: "page_row list" where
  "connection_rows =
     [Switch_Row SW_proto_tcp ''Use TCP'' ''proto-tcp'',
      Spin_Row SP_keepalive_ping ''Ping interval'' 0 TIMER_SECS_MAX ''ping'',
      Spin_Row SP_keepalive_restart ''Restart after'' 0 TIMER_SECS_MAX ''ping-restart'',
      Spin_Row SP_reneg_seconds ''Renegotiate after'' 0 TIMER_SECS_MAX ''reneg-seconds'',
      Spin_Row SP_connect_timeout ''Connect timeout'' 0 TIMER_SECS_MAX ''connect-timeout'']"

definition compression_rows :: "page_row list" where
  "compression_rows =
     [Combo_Row CB_allow_compression ''Allow compression'' ALLOW_COMPRESSION ''allow-compression'' None,
      Combo_Row CB_comp_lzo ''LZO compression (legacy)'' COMP_LZO ''comp-lzo'' None,
      Combo_Row CB_compress ''Compression algorithm'' COMPRESS ''compress'' None]"

definition security_rows :: "page_row list" where
  "security_rows =
     [Combo_Row CB_cipher ''Legacy cipher'' CIPHERS ''cipher'' None,
      Entry_Row EN_data_ciphers ''Data ciphers'' ''data-ciphers'',
      Combo_Row CB_data_ciphers_fallback ''Data ciphers fallback'' CIPHERS ''data-ciphers-fallback'' None,
      Entry_Row EN_tls_cipher ''TLS cipher'' ''tls-cipher'',
      Combo_Row CB_auth ''HMAC authentication'' AUTH_ALGS ''auth'' None,
      Spin_Row SP_keysize ''Key size'' 0 65535 ''keysize'']"

definition tls_rows :: "page_row list" where
  "tls_rows =
     [Combo_Row CB_tls_version_min ''Minimum TLS version'' TLS_VERSIONS ''tls-version-min'' None,
      Switch_Row SW_tls_version_min_or_highest ''Use highest available if unsupported'' ''tls-version-min-or-highest'',
      Combo_Row CB_tls_version_max ''Maximum TLS version'' TLS_VERSIONS ''tls-version-max'' None,
      Entry_Row EN_verify_x509_name ''Verify X.509 name'' ''verify-x509-name'',
      Combo_Row CB_remote_cert_tls ''Require remote certificate type'' REMOTE_CERT_TLS ''remote-cert-tls'' None,
      Combo_Row CB_ns_cert_type ''Legacy NS certificate type'' NS_CERT_TYPE ''ns-cert-type'' None,
      Picker_Row EN_ta ''TLS-auth key'' ''ta'' FILTER_KEY_MATERIAL,
      Combo_Row CB_ta_dir ''TLS-auth direction'' KEY_DIR ''ta-dir'' None,
      Picker_Row EN_tls_crypt ''TLS-crypt key'' ''tls-crypt'' FILTER_KEY_MATERIAL,
      Picker_Row EN_tls_crypt_v2 ''TLS-crypt-v2 key'' ''tls-crypt-v2'' FILTER_KEY_MATERIAL]"

definition proxy_rows :: "page_row list" where
  "proxy_rows =
     [Combo_Row CB_proxy_type ''Proxy type'' PROXY_TYPES ''proxy-type'' None,
      Entry_Row EN_proxy_server ''Proxy server'' ''proxy-server'',
      Spin_Row SP_proxy_port ''Proxy port'' 0 65535 ''proxy-port'',
      Entry_Row EN_proxy_user ''Proxy username'' ''http-proxy-username'',
      Password_Row PW_proxy_pass ''Proxy password'']"

definition misc_rows :: "page_row list" where
  "misc_rows =
     [Switch_Row SW_or_route_nopull ''Don't pull routes from server'' ''override-route-nopull'',
      Switch_Row SW_or_force_default_gateway ''Force default gateway'' ''override-force-default-gateway'',
      Switch_Row SW_or_block_ipv6 ''Block IPv6'' ''override-block-ipv6'',
      Switch_Row SW_or_dns_setup_disabled ''Don't configure DNS'' ''override-dns-setup-disabled'',
      Switch_Row SW_or_dco ''Data-channel offload (DCO)'' ''override-dco'',
      Spin_Row SP_or_log_level ''Override log level'' 0 6 ''override-log-level'']"

text \<open>The groups and expanders of the page, in their order.\<close>

definition page_sections :: "(str \<times> page_row list) list" where
  "page_sections =
     [(''General'', general_rows), (''Device'', device_rows), (''Connection'', connection_rows),
      (''Compression'', compression_rows), (''Security'', security_rows), (''TLS'', tls_rows),
      (''Proxy'', proxy_rows), (''Misc'', misc_rows)]"

definition page_rows :: "page_row list" where
  "page_rows = concat (map snd page_sections)"

lemmas page_defs = page_rows_def page_sections_def general_rows_def device_rows_def connection_rows_def
  compression_rows_def security_rows_def tls_rows_def proxy_rows_def misc_rows_def

section \<open>The page and the widgets\<close>

datatype shown_value = V_Combo combo | V_Text str | V_Spin f64 | V_Switch bool

fun widget_value :: "widget \<Rightarrow> editor_state \<Rightarrow> shown_value" where
  "widget_value (W_Combo c) st = V_Combo (combo_of c st)"
| "widget_value (W_Entry e) st = V_Text (entry_of e st)"
| "widget_value (W_Password p) st = V_Text (password_of p st)"
| "widget_value (W_Spin w) st = V_Spin (spin_of w st)"
| "widget_value (W_Switch q) st = V_Switch (switch_of q st)"

text \<open>What a row of the page shows for given items.\<close>

definition mssfix_initial :: "dict \<Rightarrow> f64" where
  "mssfix_initial initial =
     f64_max0 (case parse_f64 (initial_text initial ''mssfix'') of Some x \<Rightarrow> x | None \<Rightarrow> F_Fin 0)"

fun row_value :: "(int \<Rightarrow> int \<Rightarrow> f64 \<Rightarrow> f64) \<Rightarrow> dict \<Rightarrow> page_row \<Rightarrow> shown_value" where
  "row_value adj initial (Combo_Row c t choices k d) =
     V_Combo (combo_row choices (case initial k of Some v \<Rightarrow> Some v | None \<Rightarrow> d))"
| "row_value adj initial (Entry_Row e t k) = V_Text (initial_text initial k)"
| "row_value adj initial (Picker_Row e t k fl) = V_Text (initial_text initial k)"
| "row_value adj initial (Password_Row p t) = V_Text []"
| "row_value adj initial (Spin_Row w t lo hi k) = V_Spin (adj lo hi (parse_int_default (initial k)))"
| "row_value adj initial (Switch_Row q t k) = V_Switch (initial k = Some ''yes'')"
| "row_value adj initial (Mssfix_Switch t) =
     V_Switch (initial_text initial ''mssfix'' = ''yes'' \<or> f64_pos (mssfix_initial initial))"
| "row_value adj initial (Mssfix_Spin t lo hi) = V_Spin (adj lo hi (mssfix_initial initial))"

lemma option_id: "(case x of None \<Rightarrow> None | Some v \<Rightarrow> Some v) = x"
  by (cases x) auto

lemma option_default: "(case x of None \<Rightarrow> Some d | Some v \<Rightarrow> Some v) = Some (case x of None \<Rightarrow> d | Some v \<Rightarrow> v)"
  by (cases x) auto

lemma page_values:
  "list_all (\<lambda>r. widget_value (row_widget r) (build_widget_tree adj initial) = row_value adj initial r) page_rows"
  by (simp add: page_defs build_widget_tree_def Let_def option_id option_default mssfix_initial_def)

lemma page_widgets:
  "map row_widget page_rows =
     [W_Combo CB_contype, W_Entry EN_remote, W_Spin SP_port, W_Entry EN_ca, W_Entry EN_cert, 
      W_Entry EN_key, W_Password PW_cert_pass, W_Entry EN_username, W_Password PW_password, 
      W_Entry EN_static_key, W_Combo CB_static_key_dir, W_Entry EN_profile_path, W_Entry EN_dev, 
      W_Combo CB_dev_type, W_Spin SP_tun_mtu, W_Spin SP_fragment, W_Switch SW_mssfix_enabled, 
      W_Spin SP_mssfix_bytes, W_Switch SW_proto_tcp, W_Spin SP_keepalive_ping, 
      W_Spin SP_keepalive_restart, W_Spin SP_reneg_seconds, W_Spin SP_connect_timeout, 
      W_Combo CB_allow_compression, W_Combo CB_comp_lzo, W_Combo CB_compress, W_Combo CB_cipher, 
      W_Entry EN_data_ciphers, W_Combo CB_data_ciphers_fallback, W_Entry EN_tls_cipher, 
      W_Combo CB_auth, W_Spin SP_keysize, W_Combo CB_tls_version_min, 
      W_Switch SW_tls_version_min_or_highest, W_Combo CB_tls_version_max, 
      W_Entry EN_verify_x509_name, W_Combo CB_remote_cert_tls, W_Combo CB_ns_cert_type, 
      W_Entry EN_ta, W_Combo CB_ta_dir, W_Entry EN_tls_crypt, W_Entry EN_tls_crypt_v2, 
      W_Combo CB_proxy_type, W_Entry EN_proxy_server, W_Spin SP_proxy_port, 
      W_Entry EN_proxy_user, W_Password PW_proxy_pass, W_Switch SW_or_route_nopull, 
      W_Switch SW_or_force_default_gateway, W_Switch SW_or_block_ipv6, 
      W_Switch SW_or_dns_setup_disabled, W_Switch SW_or_dco, W_Spin SP_or_log_level]"
  by (simp add: page_defs)

lemma page_distinct: "distinct (map row_widget page_rows)"
  unfolding page_widgets by simp

lemma page_has:
  "W_Combo c \<in> set (map row_widget page_rows)" "W_Entry e \<in> set (map row_widget page_rows)"
  "W_Password p \<in> set (map row_widget page_rows)" "W_Spin v \<in> set (map row_widget page_rows)"
  "W_Switch q \<in> set (map row_widget page_rows)"
  unfolding page_widgets
  subgoal by (cases c) simp_all
  subgoal by (cases e) simp_all
  subgoal by (cases p) simp_all
  subgoal by (cases v) simp_all
  subgoal by (cases q) simp_all
  done

lemma page_complete: "w \<in> row_widget ` set page_rows"
  using page_has by (cases w) (simp_all add: image_iff)

lemma combo_labels_length: "length (combo_labels tr choices initial) = length (combo_ids (combo_row choices initial))"
  by (auto simp: combo_labels_def combo_row_def Let_def split: option.split)

text \<open>
  The page shows the connection: it has one row for each input the editor saves, every row
  starts with the value of its item (the vocabulary's default, text, number or switch), and each
  entry a combo row shows has an id behind it, so that no pick can select nothing.
\<close>

theorem page_shows_items:
  "distinct (map row_widget page_rows) \<and> w \<in> row_widget ` set page_rows
   \<and> list_all (\<lambda>r. widget_value (row_widget r) (build_widget_tree adj initial) = row_value adj initial r) page_rows
   \<and> length (combo_labels tr choices stored_id) = length (combo_ids (combo_row choices stored_id))"
  using page_distinct page_complete page_values combo_labels_length by blast

section \<open>What GTK lets into a row\<close>

text \<open>
  A pick is one of the entries, a text is a C string, a number is within the row's bounds.
\<close>

fun spin_max :: "spin_id \<Rightarrow> int" where
  "spin_max SP_keepalive_ping = TIMER_SECS_MAX"
| "spin_max SP_keepalive_restart = TIMER_SECS_MAX"
| "spin_max SP_reneg_seconds = TIMER_SECS_MAX"
| "spin_max SP_connect_timeout = TIMER_SECS_MAX"
| "spin_max SP_or_log_level = 6"
| "spin_max _ = 65535"

fun gtk_edit :: "editor_state \<Rightarrow> edit \<Rightarrow> bool" where
  "gtk_edit st (Pick c i) \<longleftrightarrow> i < length (combo_ids (combo_of c st))"
| "gtk_edit st (Type_Text e s) \<longleftrightarrow> \<not> has_nul s"
| "gtk_edit st (Type_Password p s) \<longleftrightarrow> \<not> has_nul s"
| "gtk_edit st (Spin_To w v) \<longleftrightarrow> as_i64 v \<le> spin_max w"
| "gtk_edit st (Toggle q b) \<longleftrightarrow> True"

definition combo_ok :: "combo_id \<Rightarrow> combo \<Rightarrow> bool" where
  "combo_ok c cb \<longleftrightarrow> combo_selected cb < length (combo_ids cb) \<and> list_all (\<lambda>s. \<not> has_nul s) (combo_ids cb)
     \<and> (c = CB_contype \<longrightarrow> [] \<notin> set (combo_ids cb))"

definition rows_plain :: "editor_state \<Rightarrow> bool" where
  "rows_plain st \<longleftrightarrow> (\<forall>c. combo_ok c (combo_of c st)) \<and> (\<forall>e. \<not> has_nul (entry_of e st))
     \<and> (\<forall>w. as_i64 (spin_of w st) \<le> spin_max w)"

lemma rows_plain_edit:
  assumes "rows_plain st" and "gtk_edit st ed"
  shows "rows_plain (apply_edit ed st)"
  using assms by (cases ed) (auto simp: rows_plain_def combo_ok_def)

lemma combo_ok_selected: "combo_ok c cb \<Longrightarrow> \<not> has_nul (selected_id cb)"
  by (auto simp: combo_ok_def selected_id_def nth_opt_def list_all_iff)

lemma combo_ok_contype: "combo_ok CB_contype cb \<Longrightarrow> selected_id cb \<noteq> []"
  by (auto simp: combo_ok_def selected_id_def nth_opt_def) (metis nth_mem)

lemma rows_plain_ok:
  assumes "rows_plain st"
  shows "widgets_ok st"
proof -
  have c: "\<not> has_nul (selected_id (combo_of c st))" for c
    using assms combo_ok_selected by (metis rows_plain_def)
  have e: "\<not> has_nul (entry_of e st)" for e using assms by (simp add: rows_plain_def)
  have w: "as_i64 (spin_of w st) \<le> spin_max w" for w using assms by (simp add: rows_plain_def)
  note cs = c [of CB_contype] c [of CB_static_key_dir] c [of CB_dev_type] c [of CB_allow_compression]
    c [of CB_comp_lzo] c [of CB_compress] c [of CB_cipher] c [of CB_data_ciphers_fallback] c [of CB_auth]
    c [of CB_tls_version_min] c [of CB_tls_version_max] c [of CB_remote_cert_tls] c [of CB_ns_cert_type]
    c [of CB_ta_dir] c [of CB_proxy_type]
  note es = e [of EN_remote] e [of EN_ca] e [of EN_cert] e [of EN_key] e [of EN_username] e [of EN_profile_path]
    e [of EN_static_key] e [of EN_dev] e [of EN_data_ciphers] e [of EN_tls_cipher] e [of EN_verify_x509_name]
    e [of EN_ta] e [of EN_tls_crypt] e [of EN_tls_crypt_v2] e [of EN_proxy_server] e [of EN_proxy_user]
  note ws = w [of SP_port] w [of SP_tun_mtu] w [of SP_mssfix_bytes] w [of SP_fragment] w [of SP_keepalive_ping]
    w [of SP_keepalive_restart] w [of SP_reneg_seconds] w [of SP_connect_timeout] w [of SP_keysize]
    w [of SP_proxy_port] w [of SP_or_log_level]
  have "list_all (\<lambda>(k, v). \<not> has_nul v) (sets (update_calls st))"
    unfolding update_calls_def Let_def sets.simps list.pred_inject split_conv
    by (simp add: value_plain cs [simplified] es [simplified])
  moreover have "selected_id (st_contype st) \<noteq> []"
    using assms combo_ok_contype [of "st_contype st"] by (auto simp: rows_plain_def dest: spec [of _ CB_contype])
  ultimately show ?thesis using ws by (simp add: widgets_ok_def)
qed

lemma combo_row_ok:
  assumes "list_all (\<lambda>c. \<not> has_nul (fst c)) choices" and "choices \<noteq> []"
    and "\<forall>v. initial = Some v \<longrightarrow> \<not> has_nul v" and "c = CB_contype \<longrightarrow> [] \<notin> fst ` set choices"
  shows "combo_ok c (combo_row choices initial)"
proof -
  have m: "\<And>j. match_choice initial n choices found = Some j \<Longrightarrow> (\<forall>i. found = Some i \<longrightarrow> i < n + length choices)
      \<Longrightarrow> j < n + length choices" for n found
    by (induction initial n choices found rule: match_choice.induct) (auto split: if_splits)
  show ?thesis
    using assms m [of 0 None]
    by (auto simp: combo_ok_def combo_row_def Let_def list_all_iff split: option.splits)
qed

definition spin_bounded :: "(int \<Rightarrow> int \<Rightarrow> f64 \<Rightarrow> f64) \<Rightarrow> bool" where
  "spin_bounded adj \<longleftrightarrow> (\<forall>hi v. 0 \<le> hi \<longrightarrow> hi \<le> TIMER_SECS_MAX \<longrightarrow> as_i64 (adj 0 hi v) \<le> hi)"

lemma vocabulary_plain:
  "list_all (\<lambda>voc. voc \<noteq> [] \<and> list_all (\<lambda>c. \<not> has_nul (fst c)) voc)
     [CONTYPES, KEY_DIR, DEV_TYPES, ALLOW_COMPRESSION, COMP_LZO, COMPRESS, CIPHERS, AUTH_ALGS, TLS_VERSIONS,
      REMOTE_CERT_TLS, NS_CERT_TYPE, PROXY_TYPES]"
  by code_simp

fun row_ok :: "page_row \<Rightarrow> shown_value \<Rightarrow> bool" where
  "row_ok r (V_Combo cb) \<longleftrightarrow> (\<forall>c. row_widget r = W_Combo c \<longrightarrow> combo_ok c cb)"
| "row_ok r (V_Text s) \<longleftrightarrow> \<not> has_nul s"
| "row_ok r (V_Spin v) \<longleftrightarrow> (\<forall>w. row_widget r = W_Spin w \<longrightarrow> as_i64 v \<le> spin_max w)"
| "row_ok r (V_Switch b) \<longleftrightarrow> True"

lemma page_rows_ok:
  assumes "spin_bounded adj" and "\<And>k v. initial k = Some v \<Longrightarrow> \<not> has_nul v"
  shows "list_all (\<lambda>r. row_ok r (row_value adj initial r)) page_rows"
proof -
  have entries: "\<not> has_nul (initial_text initial k)" for k
    using assms(2) by (simp add: initial_text_def has_nul_def split: option.split)
  have spin: "0 \<le> hi \<Longrightarrow> hi \<le> TIMER_SECS_MAX \<Longrightarrow> as_i64 (adj 0 hi v) \<le> hi" for hi v
    using assms(1) by (simp add: spin_bounded_def)
  have combo: "list_all (\<lambda>c. \<not> has_nul (fst c)) choices \<and> choices \<noteq> [] \<Longrightarrow> c \<noteq> CB_contype
      \<Longrightarrow> combo_ok c (combo_row choices (initial k))" for choices c k
    using assms(2) by (intro combo_row_ok) auto
  have "combo_ok CB_contype (combo_row CONTYPES (case initial k of None \<Rightarrow> Some ''tls'' | Some v \<Rightarrow> Some v))" for k
    using assms(2) vocabulary_plain
    by (intro combo_row_ok) (auto simp: CONTYPES_def has_nul_def split: option.splits)
  then show ?thesis
    using vocabulary_plain
    by (simp add: page_defs value_plain(1) entries spin combo option_id TIMER_SECS_MAX_def del: not_None_eq)
qed

lemma built_rows_plain:
  assumes "spin_bounded adj" and "\<And>k v. initial k = Some v \<Longrightarrow> \<not> has_nul v"
  shows "rows_plain (build_widget_tree adj initial)"
proof -
  let ?st = "build_widget_tree adj initial"
  have ok: "\<exists>r. row_widget r = w \<and> row_ok r (widget_value w ?st)" for w
    using page_complete [of w] page_values [of adj initial] page_rows_ok [OF assms]
    by (auto simp: list_all_iff)
  show ?thesis
    using ok [of "W_Combo _"] ok [of "W_Entry _"] ok [of "W_Spin _"] by (fastforce simp: rows_plain_def)
qed

lemma gtk_spin_in_bounds: "spin_bounded gtk_spin"
  by (simp add: spin_bounded_def gtk_spin_bounded TIMER_SECS_MAX_def)

end
