(* ===== verification/Editor_Session.thy ===== *)
theory Editor_Session
  imports Library_Entry Editor_Widgets
begin

text \<open>
  The editor as an object with a life: \<open>new_editor\<close> builds the widgets and connects their
  signals, the host and the user act on it, \<open>instance_finalize\<close> takes it down.  The widgets'
  values and what Apply writes are those of \<open>Editor\<close>; here are the rows' visibility, the error
  marks of the path rows, the lifetime gate and each \<open>changed\<close> signal sent to the host.
  GTK is the environment: which edits happen, whether it notifies of an edit that changes
  nothing, whether rows outlive the editor in the host's container.
\<close>

section \<open>The object and its signal handlers\<close>

text \<open>
  \<open>eo_live\<close> is GObject's: false once the last reference is gone, when nothing may be emitted on
  the object.  \<open>eo_boxed\<close> says that the instance holds its \<open>EditorState\<close>, \<open>eo_alive\<close> is the
  lifetime gate, \<open>eo_rows\<close> says that the rows still exist, so that a weak reference to one can be
  upgraded.  \<open>eo_log\<close> has one entry per emission of \<open>changed\<close>: whether the object was live.
\<close>

record editor_object =
  eo_ptr :: nat
  eo_page :: nat
  eo_live :: bool
  eo_boxed :: bool
  eo_alive :: bool
  eo_rows :: bool
  eo_state :: editor_state
  eo_type_ids :: "str list"
  eo_visible :: "widget \<Rightarrow> bool"
  eo_error :: "entry_id \<Rightarrow> bool"
  eo_log :: "bool list"

definition emit_changed :: "editor_object \<Rightarrow> editor_object" where
  "emit_changed ob =
     (if eo_ptr ob = 0 \<or> \<not> eo_alive ob then ob else ob\<lparr>eo_log := eo_log ob @ [eo_live ob]\<rparr>)"

definition apply_contype_visibility :: "str \<Rightarrow> editor_object \<Rightarrow> editor_object" where
  "apply_contype_visibility contype ob =
     (let fl = contype_from_id contype
      in ob\<lparr>eo_visible := (eo_visible ob)
             (W_Entry EN_ca := cf_tls_like fl,
              W_Entry EN_cert := cf_needs_user_cert fl,
              W_Entry EN_key := cf_needs_user_cert fl,
              W_Password PW_cert_pass := cf_needs_user_cert fl,
              W_Entry EN_username := cf_needs_password fl,
              W_Password PW_password := cf_needs_password fl,
              W_Entry EN_static_key := cf_is_static_key fl,
              W_Combo CB_static_key_dir := cf_is_static_key fl)\<rparr>)"

text \<open>The handler on the connection type: the ids are those captured when it was connected.\<close>

definition contype_selected :: "editor_object \<Rightarrow> editor_object" where
  "contype_selected ob =
     (let contype = (case nth_opt (eo_type_ids ob) (combo_selected (st_contype (eo_state ob))) of
                       Some s \<Rightarrow> s | None \<Rightarrow> [])
      in if eo_rows ob then apply_contype_visibility contype ob else ob)"

definition mssfix_toggled :: "editor_object \<Rightarrow> editor_object" where
  "mssfix_toggled ob =
     (if eo_rows ob
      then ob\<lparr>eo_visible := (eo_visible ob)(W_Spin SP_mssfix_bytes := st_mssfix_enabled (eo_state ob))\<rparr>
      else ob)"

definition refresh_path_validity :: "(str \<Rightarrow> bool) \<Rightarrow> entry_id \<Rightarrow> editor_object \<Rightarrow> editor_object" where
  "refresh_path_validity is_file e ob =
     (let path = entry_of e (eo_state ob); ok = (path = [] \<or> is_file path)
      in ob\<lparr>eo_error := (eo_error ob)(e := \<not> ok)\<rparr>)"

text \<open>The rows each kind of handler is connected to.\<close>

definition path_pickers :: "entry_id list" where
  "path_pickers = [EN_ca, EN_cert, EN_key, EN_profile_path, EN_static_key, EN_ta, EN_tls_crypt, EN_tls_crypt_v2]"

definition wired_combos :: "combo_id list" where
  "wired_combos =
     [CB_contype, CB_dev_type, CB_static_key_dir, CB_allow_compression, CB_comp_lzo, CB_compress, CB_cipher,
      CB_data_ciphers_fallback, CB_auth, CB_tls_version_min, CB_tls_version_max, CB_remote_cert_tls,
      CB_ns_cert_type, CB_ta_dir, CB_proxy_type]"

definition wired_entries :: "entry_id list" where
  "wired_entries =
     [EN_remote, EN_username, EN_dev, EN_data_ciphers, EN_tls_cipher, EN_verify_x509_name, EN_proxy_server,
      EN_proxy_user]"

definition wired_passwords :: "password_id list" where
  "wired_passwords = [PW_cert_pass, PW_password, PW_proxy_pass]"

definition wired_spins :: "spin_id list" where
  "wired_spins =
     [SP_port, SP_tun_mtu, SP_mssfix_bytes, SP_fragment, SP_keepalive_ping, SP_keepalive_restart,
      SP_reneg_seconds, SP_connect_timeout, SP_keysize, SP_proxy_port, SP_or_log_level]"

definition wired_switches :: "switch_id list" where
  "wired_switches =
     [SW_proto_tcp, SW_mssfix_enabled, SW_tls_version_min_or_highest, SW_or_route_nopull,
      SW_or_force_default_gateway, SW_or_block_ipv6, SW_or_dns_setup_disabled, SW_or_dco]"

text \<open>The handlers of a row in the order they were connected.\<close>

definition signal_if :: "bool \<Rightarrow> editor_object \<Rightarrow> editor_object" where
  "signal_if wired ob = (if wired then emit_changed ob else ob)"

fun notify :: "(str \<Rightarrow> bool) \<Rightarrow> edit \<Rightarrow> editor_object \<Rightarrow> editor_object" where
  "notify is_file (Pick c i) ob =
     signal_if (c \<in> set wired_combos) (if c = CB_contype then contype_selected ob else ob)"
| "notify is_file (Type_Text e s) ob =
     (let ob = signal_if (e \<in> set wired_entries) ob
      in if e \<in> set path_pickers
         then emit_changed (if eo_rows ob then refresh_path_validity is_file e ob else ob) else ob)"
| "notify is_file (Type_Password p s) ob = signal_if (p \<in> set wired_passwords) ob"
| "notify is_file (Spin_To w v) ob = signal_if (w \<in> set wired_spins) ob"
| "notify is_file (Toggle w b) ob =
     signal_if (w \<in> set wired_switches) (if w = SW_mssfix_enabled then mssfix_toggled ob else ob)"

text \<open>
  An edit of an existing row: the value changes and GTK notifies, which it may also do when the
  value stays as it was (\<open>forced\<close>).
\<close>

definition on_edit :: "(str \<Rightarrow> bool) \<Rightarrow> bool \<times> edit \<Rightarrow> editor_object \<Rightarrow> editor_object" where
  "on_edit is_file fe ob =
     (case fe of (forced, ed) \<Rightarrow>
        if \<not> eo_rows ob \<or> \<not> (forced \<or> changes ed (eo_state ob)) then ob
        else notify is_file ed (ob\<lparr>eo_state := apply_edit ed (eo_state ob)\<rparr>))"

text \<open>The callback of a path row's file dialog, which may run after everything else is gone.\<close>

datatype dialog_result = Dlg_Error | Dlg_No_Path | Dlg_Path "str option"

definition file_picked ::
  "(str \<Rightarrow> bool) \<Rightarrow> entry_id \<Rightarrow> dialog_result \<Rightarrow> bool \<Rightarrow> editor_object \<Rightarrow> editor_object" where
  "file_picked is_file e result forced ob =
     (case result of
        Dlg_Path (Some s) \<Rightarrow> if eo_rows ob then on_edit is_file (forced, Type_Text e s) ob else ob
      | _ \<Rightarrow> ob)"

text \<open>
  \<open>noise\<close> are the notifications sent while the widgets are dropped, \<open>kept\<close> whether the host's
  container still holds the rows afterwards.
\<close>

definition instance_finalize ::
  "(str \<Rightarrow> bool) \<Rightarrow> (bool \<times> edit) list \<Rightarrow> bool \<Rightarrow> editor_object \<Rightarrow> editor_object" where
  "instance_finalize is_file noise kept ob =
     (if eo_boxed ob
      then let ob = ob\<lparr>eo_alive := False\<rparr>; ob = fold (on_edit is_file) noise ob
           in ob\<lparr>eo_boxed := False, eo_rows := kept \<and> eo_rows ob\<rparr>
      else ob)"

section \<open>Entry points\<close>

definition iface_get_widget :: "editor_object \<Rightarrow> nat" where
  "iface_get_widget ob = (if eo_boxed ob then eo_page ob else 0)"

text \<open>A connection is \<open>None\<close> for NULL and \<open>Some None\<close> when it has no VPN setting.\<close>

definition iface_update_connection ::
  "editor_object \<Rightarrow> nm_connection option option \<Rightarrow> error_out \<Rightarrow> bool \<times> nm_connection option option \<times> error_out" where
  "iface_update_connection ob connection error =
     (if \<not> eo_boxed ob then (False, connection, error)
      else case connection of
             Some (Some con) \<Rightarrow>
               (case update_connection (eo_state ob) con of
                  Inl msg \<Rightarrow> (False, connection, set_error error NM_OPENVPN3_PLUGIN_ERROR_FAILED msg)
                | Inr con \<Rightarrow> (True, Some (Some con), error))
           | _ \<Rightarrow> (False, connection, error))"

text \<open>What construction asks of GTK: an initialisation that fails gives its message.\<close>

record gtk_env =
  gk_initialized :: bool
  gk_init :: "str option"
  gk_adw_init :: "str option"
  gk_object :: nat
  gk_page :: nat
  gk_spin :: "int \<Rightarrow> int \<Rightarrow> f64 \<Rightarrow> f64"
  gk_is_file :: "str \<Rightarrow> bool"

definition new_object :: "gtk_env \<Rightarrow> dict \<Rightarrow> editor_object" where
  "new_object env data =
     (let st = build_widget_tree (gk_spin env) data;
          ob = \<lparr>eo_ptr = gk_object env, eo_page = gk_page env, eo_live = True, eo_boxed = True,
               eo_alive = True, eo_rows = True, eo_state = st, eo_type_ids = combo_ids (st_contype st),
               eo_visible = (\<lambda>_. True)(W_Spin SP_mssfix_bytes := st_mssfix_enabled st),
               eo_error = (\<lambda>_. False), eo_log = []\<rparr>
      in apply_contype_visibility (selected_id (st_contype st)) ob)"

definition new_editor ::
  "gtk_env \<Rightarrow> (c_str \<times> c_str) list option \<Rightarrow> error_out \<Rightarrow> editor_object option \<times> error_out" where
  "new_editor env connection error =
     (case if gk_initialized env then None else gk_init env of
        Some e \<Rightarrow> (None, set_error error NM_OPENVPN3_PLUGIN_ERROR_FAILED (''gtk4::init failed: '' @ e))
      | None \<Rightarrow>
          (case gk_adw_init env of
             Some e \<Rightarrow> (None, set_error error NM_OPENVPN3_PLUGIN_ERROR_FAILED (''libadwaita::init failed: '' @ e))
           | None \<Rightarrow>
               (let data = connection_to_nm_data connection
                in if gk_object env = 0
                   then (None, set_error error NM_OPENVPN3_PLUGIN_ERROR_FAILED
                           ''g_object_new(NMOpenvpn3Editor) returned NULL'')
                   else (Some (fold (refresh_path_validity (gk_is_file env)) path_pickers (new_object env data)),
                         error))))"

definition nm_vpn_editor_factory_openvpn3 ::
  "gtk_env \<Rightarrow> (c_str \<times> c_str) list option option \<Rightarrow> error_out \<Rightarrow> editor_object option \<times> error_out" where
  "nm_vpn_editor_factory_openvpn3 env connection error =
     (case connection of
        None \<Rightarrow> (None, set_error error NM_OPENVPN3_PLUGIN_ERROR_FAILED
                          ''editor factory called with NULL connection'')
      | Some con \<Rightarrow> new_editor env con error)"

section \<open>A session\<close>

text \<open>
  What can happen to an editor: rows are edited and file dialogs answer, at any time; GObject
  finalizes it once.  \<open>fs\<close> is what the file system says at that moment, \<open>may\<close> says which edits
  GTK lets through in a state.
\<close>

type_synonym edit_rule = "editor_state \<Rightarrow> edit \<Rightarrow> bool"

inductive editor_step :: "edit_rule \<Rightarrow> (str \<Rightarrow> bool) \<Rightarrow> editor_object \<Rightarrow> editor_object \<Rightarrow> bool" for may fs where
  Edit: "may (eo_state ob) ed \<Longrightarrow> editor_step may fs ob (on_edit fs (forced, ed) ob)"
| Dialog: "(\<And>s. result = Dlg_Path (Some s) \<Longrightarrow> may (eo_state ob) (Type_Text e s))
    \<Longrightarrow> editor_step may fs ob (file_picked fs e result forced ob)"
| Finalize: "eo_live ob \<Longrightarrow> editor_step may fs ob (instance_finalize fs noise kept (ob\<lparr>eo_live := False\<rparr>))"

inductive_cases editor_stepE: "editor_step may fs ob ob'"

text \<open>The editors that come of one call of the factory, while the file system says one of \<open>fss\<close>.\<close>

inductive editor_reach ::
  "gtk_env \<Rightarrow> (c_str \<times> c_str) list option option \<Rightarrow> edit_rule \<Rightarrow> (str \<Rightarrow> bool) set \<Rightarrow> editor_object \<Rightarrow> bool"
  for env connection may fss where
  Open: "nm_vpn_editor_factory_openvpn3 env connection error = (Some ob, error')
    \<Longrightarrow> editor_reach env connection may fss ob"
| Step: "editor_reach env connection may fss ob \<Longrightarrow> fs \<in> fss \<Longrightarrow> editor_step may fs ob ob'
    \<Longrightarrow> editor_reach env connection may fss ob'"

section \<open>The invariant of a session\<close>

text \<open>The rows that are to be shown for what the widgets hold.\<close>

definition row_shown :: "editor_state \<Rightarrow> widget \<Rightarrow> bool" where
  "row_shown st w =
     (let fl = contype_from_id (selected_id (st_contype st))
      in if w = W_Entry EN_ca then cf_tls_like fl
         else if w \<in> {W_Entry EN_cert, W_Entry EN_key, W_Password PW_cert_pass} then cf_needs_user_cert fl
         else if w \<in> {W_Entry EN_username, W_Password PW_password} then cf_needs_password fl
         else if w \<in> {W_Entry EN_static_key, W_Combo CB_static_key_dir} then cf_is_static_key fl
         else if w = W_Spin SP_mssfix_bytes then st_mssfix_enabled st
         else True)"

definition path_error :: "(str \<Rightarrow> bool) \<Rightarrow> editor_state \<Rightarrow> entry_id \<Rightarrow> bool" where
  "path_error fs st e \<longleftrightarrow> e \<in> set path_pickers \<and> entry_of e st \<noteq> [] \<and> \<not> fs (entry_of e st)"

definition gate_ok :: "editor_object \<Rightarrow> bool" where
  "gate_ok ob \<longleftrightarrow> eo_ptr ob \<noteq> 0 \<and> eo_alive ob = eo_live ob \<and> eo_boxed ob = eo_live ob
     \<and> (eo_live ob \<longrightarrow> eo_rows ob)"

definition rows_ok :: "editor_object \<Rightarrow> bool" where
  "rows_ok ob \<longleftrightarrow> eo_type_ids ob = combo_ids (st_contype (eo_state ob)) \<and> eo_visible ob = row_shown (eo_state ob)"

lemma emit_fields [simp]:
  "eo_ptr (emit_changed ob) = eo_ptr ob" "eo_page (emit_changed ob) = eo_page ob"
  "eo_live (emit_changed ob) = eo_live ob" "eo_boxed (emit_changed ob) = eo_boxed ob"
  "eo_alive (emit_changed ob) = eo_alive ob" "eo_rows (emit_changed ob) = eo_rows ob"
  "eo_state (emit_changed ob) = eo_state ob" "eo_type_ids (emit_changed ob) = eo_type_ids ob"
  "eo_visible (emit_changed ob) = eo_visible ob" "eo_error (emit_changed ob) = eo_error ob"
  by (simp_all add: emit_changed_def)

lemmas handler_defs = signal_if_def contype_selected_def mssfix_toggled_def refresh_path_validity_def
  apply_contype_visibility_def Let_def

lemma notify_fields [simp]:
  "eo_ptr (notify fs ed ob) = eo_ptr ob" "eo_live (notify fs ed ob) = eo_live ob"
  "eo_boxed (notify fs ed ob) = eo_boxed ob" "eo_alive (notify fs ed ob) = eo_alive ob"
  "eo_rows (notify fs ed ob) = eo_rows ob" "eo_state (notify fs ed ob) = eo_state ob"
  "eo_type_ids (notify fs ed ob) = eo_type_ids ob"
  by (cases ed; simp add: handler_defs)+

lemma on_edit_fields [simp]:
  "eo_ptr (on_edit fs fe ob) = eo_ptr ob" "eo_live (on_edit fs fe ob) = eo_live ob"
  "eo_boxed (on_edit fs fe ob) = eo_boxed ob" "eo_alive (on_edit fs fe ob) = eo_alive ob"
  "eo_rows (on_edit fs fe ob) = eo_rows ob" "eo_type_ids (on_edit fs fe ob) = eo_type_ids ob"
  by (simp_all add: on_edit_def split: prod.split)

lemma fold_on_edit_fields [simp]:
  "eo_ptr (fold (on_edit fs) es ob) = eo_ptr ob" "eo_live (fold (on_edit fs) es ob) = eo_live ob"
  "eo_boxed (fold (on_edit fs) es ob) = eo_boxed ob" "eo_alive (fold (on_edit fs) es ob) = eo_alive ob"
  "eo_rows (fold (on_edit fs) es ob) = eo_rows ob"
  by (induction es arbitrary: ob) simp_all

lemma emit_log: "eo_log (emit_changed ob) = eo_log ob @ (if eo_ptr ob = 0 \<or> \<not> eo_alive ob then [] else [eo_live ob])"
  by (simp add: emit_changed_def)

text \<open>Every row is wired exactly once.\<close>

lemma all_wired:
  "c \<in> set wired_combos" "e \<in> set wired_entries \<longleftrightarrow> e \<notin> set path_pickers" "p \<in> set wired_passwords"
  "w \<in> set wired_spins" "q \<in> set wired_switches"
  subgoal by (cases c) (simp_all add: wired_combos_def)
  subgoal by (cases e) (simp_all add: wired_entries_def path_pickers_def)
  subgoal by (cases p) (simp_all add: wired_passwords_def)
  subgoal by (cases w) (simp_all add: wired_spins_def)
  subgoal by (cases q) (simp_all add: wired_switches_def)
  done

lemma notify_log:
  "eo_log (notify fs ed ob) = eo_log ob @ (if eo_ptr ob = 0 \<or> \<not> eo_alive ob then [] else [eo_live ob])"
  by (cases ed) (simp_all add: handler_defs emit_log all_wired)

lemma on_edit_log:
  "eo_log (on_edit fs (forced, ed) ob) = eo_log ob
     @ (if eo_rows ob \<and> (forced \<or> changes ed (eo_state ob)) \<and> eo_ptr ob \<noteq> 0 \<and> eo_alive ob then [eo_live ob] else [])"
  by (simp add: on_edit_def notify_log)

lemma on_edit_shut: "\<not> eo_alive ob \<Longrightarrow> eo_log (on_edit fs fe ob) = eo_log ob"
  by (cases fe) (simp add: on_edit_log)

lemma fold_on_edit_shut: "\<not> eo_alive ob \<Longrightarrow> eo_log (fold (on_edit fs) es ob) = eo_log ob"
  by (induction es arbitrary: ob) (simp_all add: on_edit_shut)

lemma selected_id_ids:
  "(case nth_opt (combo_ids c) (combo_selected c) of None \<Rightarrow> [] | Some s \<Rightarrow> s) = selected_id c"
  by (simp add: selected_id_def)

lemma row_shown_eq:
  "selected_id (st_contype st') = selected_id (st_contype st)
    \<Longrightarrow> st_mssfix_enabled st' = st_mssfix_enabled st \<Longrightarrow> row_shown st' = row_shown st"
  by (simp add: row_shown_def fun_eq_iff)

definition type_rows :: "(str \<times> widget) list" where
  "type_rows =
     [(''ca'', W_Entry EN_ca), (''cert'', W_Entry EN_cert), (''key'', W_Entry EN_key),
      (''cert-pass'', W_Password PW_cert_pass), (''username'', W_Entry EN_username),
      (''password'', W_Password PW_password), (''static-key'', W_Entry EN_static_key),
      (''static-key-direction'', W_Combo CB_static_key_dir)]"

lemma type_shown:
  assumes "\<And>w. w \<notin> snd ` set type_rows \<Longrightarrow> eo_visible ob w = row_shown st w"
  shows "eo_visible (apply_contype_visibility (selected_id (st_contype st)) ob) = row_shown st"
proof
  fix w
  have "w \<in> snd ` set type_rows
      \<Longrightarrow> eo_visible (apply_contype_visibility (selected_id (st_contype st)) ob) w = row_shown st w"
    by (auto simp: type_rows_def apply_contype_visibility_def row_shown_def Let_def)
  moreover have "w \<notin> snd ` set type_rows
      \<Longrightarrow> eo_visible (apply_contype_visibility (selected_id (st_contype st)) ob) w = eo_visible ob w"
    by (simp add: type_rows_def apply_contype_visibility_def Let_def)
  ultimately show "eo_visible (apply_contype_visibility (selected_id (st_contype st)) ob) w = row_shown st w"
    using assms [of w] by blast
qed

lemma row_shown_fixed:
  "w \<notin> snd ` set type_rows \<Longrightarrow> row_shown st w = (w = W_Spin SP_mssfix_bytes \<longrightarrow> st_mssfix_enabled st)"
  by (simp add: type_rows_def row_shown_def Let_def)

lemma mssfix_shown:
  assumes "eo_visible ob = row_shown st0" and "selected_id (st_contype st) = selected_id (st_contype st0)"
  shows "(eo_visible ob)(W_Spin SP_mssfix_bytes := st_mssfix_enabled st) = row_shown st"
  using assms by (auto simp: row_shown_def fun_eq_iff Let_def)

lemma notify_visible:
  assumes "eo_rows ob" and "eo_type_ids ob = combo_ids (st_contype (eo_state ob))"
    and "eo_visible ob = row_shown st" and "eo_state ob = apply_edit ed st"
  shows "eo_visible (notify fs ed ob) = row_shown (apply_edit ed st)"
proof (cases ed)
  case (Pick c i)
  show ?thesis
  proof (cases "c = CB_contype")
    case True
    have "eo_visible (notify fs ed ob)
        = eo_visible (apply_contype_visibility (selected_id (st_contype (apply_edit ed st))) ob)"
      using assms Pick True by (simp add: signal_if_def contype_selected_def selected_id_def del: apply_edit.simps)
    also have "\<dots> = row_shown (apply_edit ed st)"
      by (rule type_shown) (use assms(3) Pick in \<open>simp add: row_shown_fixed\<close>)
    finally show ?thesis .
  next
    case False
    then show ?thesis
      using assms(3) Pick row_shown_eq [of "set_selected c i st" st]
      by (simp add: signal_if_def set_selected_contype)
  qed
next
  case (Type_Text e s)
  then show ?thesis
    using assms(3) row_shown_eq [of "set_entry e s st" st]
    by (simp add: signal_if_def refresh_path_validity_def Let_def)
next
  case (Type_Password p s)
  then show ?thesis
    using assms(3) row_shown_eq [of "set_password p s st" st] by (simp add: signal_if_def)
next
  case (Spin_To w v)
  then show ?thesis
    using assms(3) row_shown_eq [of "set_spin w v st" st] by (simp add: signal_if_def)
next
  case (Toggle q b)
  show ?thesis
  proof (cases "q = SW_mssfix_enabled")
    case True
    then show ?thesis
      using assms Toggle mssfix_shown [OF assms(3), of "apply_edit ed st"]
      by (simp add: signal_if_def mssfix_toggled_def)
  next
    case False
    then show ?thesis
      using assms(3) Toggle row_shown_eq [of "set_switch q b st" st]
      by (simp add: signal_if_def set_switch_mssfix)
  qed
qed

lemma notify_error:
  assumes "eo_rows ob" and "\<And>e. e \<in> set path_pickers \<Longrightarrow> eo_error ob e = path_error fs st e"
    and "eo_state ob = apply_edit ed st" and "e \<in> set path_pickers"
  shows "eo_error (notify fs ed ob) e = path_error fs (apply_edit ed st) e"
  using assms(1,3,4) assms(2) [OF assms(4)]
  by (cases ed) (auto simp: handler_defs path_error_def)

lemma new_object_ok:
  assumes "gk_object env \<noteq> 0"
  shows "gate_ok (new_object env data)" "rows_ok (new_object env data)" "eo_log (new_object env data) = []"
    "eo_live (new_object env data)" "eo_error (new_object env data) = (\<lambda>_. False)"
    "eo_state (new_object env data) = build_widget_tree (gk_spin env) data"
proof -
  let ?ob = "new_object env data"
  show "gate_ok ?ob" "eo_log ?ob = []" "eo_live ?ob" "eo_error ?ob = (\<lambda>_. False)"
    "eo_state ?ob = build_widget_tree (gk_spin env) data"
    using assms by (simp_all add: new_object_def gate_ok_def apply_contype_visibility_def Let_def)
  show "rows_ok ?ob"
  proof -
    have "eo_visible ?ob = row_shown (build_widget_tree (gk_spin env) data)"
      unfolding new_object_def Let_def by (rule type_shown) (simp add: row_shown_fixed)
    then show ?thesis
      by (simp add: rows_ok_def new_object_def apply_contype_visibility_def Let_def)
  qed
qed

lemma fold_refresh:
  "fold (refresh_path_validity fs) es ob
    = ob\<lparr>eo_error := \<lambda>e. if e \<in> set es then \<not> (entry_of e (eo_state ob) = [] \<or> fs (entry_of e (eo_state ob)))
        else eo_error ob e\<rparr>"
  by (induction es arbitrary: ob) (auto simp: refresh_path_validity_def Let_def fun_eq_iff)

lemma new_editor_opens:
  assumes "nm_vpn_editor_factory_openvpn3 env connection error = (Some ob, error')"
  obtains con where "connection = Some con" "gk_object env \<noteq> 0" "error' = error"
    "ob = fold (refresh_path_validity (gk_is_file env)) path_pickers (new_object env (connection_to_nm_data con))"
  using assms by (auto simp: nm_vpn_editor_factory_openvpn3_def new_editor_def Let_def split: option.splits if_splits)

lemma new_editor_ok:
  assumes "nm_vpn_editor_factory_openvpn3 env connection error = (Some ob, error')"
  shows "gate_ok ob" "rows_ok ob" "eo_log ob = []" "eo_live ob"
    "\<And>e. e \<in> set path_pickers \<Longrightarrow> eo_error ob e = path_error (gk_is_file env) (eo_state ob) e"
proof -
  from assms obtain con where c: "gk_object env \<noteq> 0"
    "ob = fold (refresh_path_validity (gk_is_file env)) path_pickers (new_object env (connection_to_nm_data con))"
    by (rule new_editor_opens)
  from new_object_ok [OF c(1), of "connection_to_nm_data con"]
  show "gate_ok ob" "rows_ok ob" "eo_log ob = []" "eo_live ob"
    by (simp_all add: c(2) fold_refresh gate_ok_def rows_ok_def)
  show "eo_error ob e = path_error (gk_is_file env) (eo_state ob) e" if "e \<in> set path_pickers" for e
    using that by (simp add: c(2) fold_refresh path_error_def)
qed

lemma on_edit_state:
  "eo_state (on_edit fs (forced, ed) ob) = (if eo_rows ob then apply_edit ed (eo_state ob) else eo_state ob)"
  by (simp add: on_edit_def apply_edit_idle)

lemma on_edit_rows_ok:
  assumes "rows_ok ob"
  shows "rows_ok (on_edit fs fe ob)"
proof (cases fe)
  case (Pair forced ed)
  from assms have i: "eo_type_ids ob = combo_ids (st_contype (eo_state ob))" "eo_visible ob = row_shown (eo_state ob)"
    by (simp_all add: rows_ok_def)
  have "eo_visible (on_edit fs fe ob) = row_shown (eo_state (on_edit fs fe ob))"
    unfolding Pair on_edit_state
    using i notify_visible [of "ob\<lparr>eo_state := apply_edit ed (eo_state ob)\<rparr>" "eo_state ob" ed fs]
    by (auto simp: on_edit_def apply_edit_idle)
  with i(1) show ?thesis by (simp add: rows_ok_def Pair on_edit_state)
qed

definition marks_ok :: "(str \<Rightarrow> bool) \<Rightarrow> editor_object \<Rightarrow> bool" where
  "marks_ok fs ob \<longleftrightarrow> (\<forall>e \<in> set path_pickers. eo_error ob e = path_error fs (eo_state ob) e)"

lemma on_edit_marks_ok:
  assumes "marks_ok fs ob"
  shows "marks_ok fs (on_edit fs fe ob)"
proof (cases fe)
  case (Pair forced ed)
  show ?thesis
    using assms notify_error [of "ob\<lparr>eo_state := apply_edit ed (eo_state ob)\<rparr>" fs "eo_state ob" ed]
    by (auto simp: marks_ok_def Pair on_edit_def apply_edit_idle)
qed

lemma fold_keeps: "P ob \<Longrightarrow> (\<And>e ob. P ob \<Longrightarrow> P (f e ob)) \<Longrightarrow> P (fold f es ob)"
  by (induction es arbitrary: ob) auto

text \<open>Every step is an edit, nothing, or the end.\<close>

lemma file_picked_edit:
  "file_picked fs e result forced ob = ob
    \<or> (\<exists>s. result = Dlg_Path (Some s) \<and> file_picked fs e result forced ob = on_edit fs (forced, Type_Text e s) ob)"
  by (auto simp: file_picked_def split: dialog_result.split option.split)

lemma editor_step_cases [consumes 1, case_names none edit finalize]:
  assumes "editor_step may fs ob ob'"
  obtains "ob' = ob" | forced ed where "may (eo_state ob) ed" "ob' = on_edit fs (forced, ed) ob"
    | noise kept where "eo_live ob" "ob' = instance_finalize fs noise kept (ob\<lparr>eo_live := False\<rparr>)"
  using assms by cases (metis file_picked_edit)+

lemma finalize_fields [simp]:
  assumes "eo_boxed ob"
  shows "eo_live (instance_finalize fs noise kept ob) = eo_live ob"
    "eo_alive (instance_finalize fs noise kept ob) = False" "\<not> eo_boxed (instance_finalize fs noise kept ob)"
    "eo_ptr (instance_finalize fs noise kept ob) = eo_ptr ob" "eo_log (instance_finalize fs noise kept ob) = eo_log ob"
  using assms by (simp_all add: instance_finalize_def fold_on_edit_shut Let_def)

lemma finalize_keeps:
  assumes "P (ob\<lparr>eo_alive := False\<rparr>)" and "\<And>fe ob. P ob \<Longrightarrow> P (on_edit fs fe ob)"
    and "\<And>ob b. P ob \<Longrightarrow> P (ob\<lparr>eo_boxed := False, eo_rows := b\<rparr>)" and "eo_boxed ob"
  shows "P (instance_finalize fs noise kept ob)"
proof -
  have "P (fold (on_edit fs) noise (ob\<lparr>eo_alive := False\<rparr>))"
    by (rule fold_keeps [where P = P]) (rule assms(1), rule assms(2))
  then show ?thesis using assms(3,4) by (simp add: instance_finalize_def Let_def)
qed

lemma step_gate:
  assumes "editor_step may fs ob ob'" and "gate_ok ob"
  shows "gate_ok ob'"
  using assms by (cases rule: editor_step_cases) (auto simp: gate_ok_def)

lemma step_rows:
  assumes "editor_step may fs ob ob'" and "rows_ok ob" and "gate_ok ob"
  shows "rows_ok ob'"
  using assms(1)
proof (cases rule: editor_step_cases)
  case (finalize noise kept)
  show ?thesis
    unfolding finalize(2)
    by (rule finalize_keeps [where P = rows_ok, OF _ on_edit_rows_ok])
      (use assms finalize(1) in \<open>simp_all add: rows_ok_def gate_ok_def\<close>)
qed (use assms on_edit_rows_ok in auto)

lemma step_marks:
  assumes "editor_step may fs ob ob'" and "marks_ok fs ob" and "gate_ok ob"
  shows "marks_ok fs ob'"
  using assms(1)
proof (cases rule: editor_step_cases)
  case (finalize noise kept)
  show ?thesis
    unfolding finalize(2)
    by (rule finalize_keeps [where P = "marks_ok fs", OF _ on_edit_marks_ok])
      (use assms finalize(1) in \<open>simp_all add: marks_ok_def gate_ok_def\<close>)
qed (use assms on_edit_marks_ok in auto)

lemma step_log:
  assumes "editor_step may fs ob ob'" and "gate_ok ob" and "list_all id (eo_log ob)"
  shows "list_all id (eo_log ob')" and "\<not> eo_live ob \<Longrightarrow> eo_log ob' = eo_log ob \<and> \<not> eo_live ob'"
proof -
  show "list_all id (eo_log ob')"
    using assms(1)
  proof (cases rule: editor_step_cases)
    case (edit forced ed)
    then show ?thesis using assms by (simp add: on_edit_log gate_ok_def)
  qed (use assms in \<open>simp_all add: gate_ok_def\<close>)
  show "eo_log ob' = eo_log ob \<and> \<not> eo_live ob'" if "\<not> eo_live ob"
    using assms(1) that
    by (cases rule: editor_step_cases) (use assms in \<open>simp_all add: on_edit_shut gate_ok_def\<close>)
qed

lemma reach_ok:
  assumes "editor_reach env connection may fss ob"
  shows "gate_ok ob \<and> rows_ok ob \<and> list_all id (eo_log ob)"
  using assms
proof induction
  case (Open error ob error')
  then show ?case using new_editor_ok [OF Open(1)] by simp
next
  case (Step ob fs ob')
  then show ?case using step_gate step_rows step_log by blast
qed

lemma reach_marks: "editor_reach env connection may {gk_is_file env} ob \<Longrightarrow> marks_ok (gk_is_file env) ob"
proof (induction rule: editor_reach.induct)
  case (Open error ob error')
  then show ?case using new_editor_ok(5) [OF Open(1)] by (simp add: marks_ok_def)
next
  case (Step ob fs' ob')
  then show ?case using step_marks reach_ok by blast
qed

section \<open>Properties\<close>

text \<open>
  C16: The host hears from live editors only: every \<open>changed\<close> signal is emitted on an object
  that has not been finalized, whatever edits, notifications of dropped widgets and late file
  dialogs there are, and once the object is gone nothing adds another.
\<close>

theorem changed_only_while_live:
  assumes "editor_reach env connection may fss ob" and "editor_step may fs ob ob'"
  shows "list_all id (eo_log ob') \<and> (\<not> eo_live ob \<longrightarrow> eo_log ob' = eo_log ob \<and> \<not> eo_live ob')"
  using step_log [OF assms(2)] reach_ok [OF assms(1)] by blast


text \<open>
  C17: No edit goes unnoticed: an edit of a live editor that changes anything Apply would write
  sends exactly one \<open>changed\<close> signal, on whichever row it was made.
\<close>

theorem edits_announced:
  assumes "editor_reach env connection may fss ob" and "eo_live ob"
    and "update_calls (eo_state (on_edit fs (forced, ed) ob)) \<noteq> update_calls (eo_state ob)"
  shows "eo_log (on_edit fs (forced, ed) ob) = eo_log ob @ [True]"
proof -
  have g: "gate_ok ob" using reach_ok [OF assms(1)] by blast
  have "changes ed (eo_state ob)"
    using assms(3) apply_edit_idle [of ed "eo_state ob"] by (metis on_edit_state)
  then show ?thesis using g assms(2) by (simp add: on_edit_log gate_ok_def)
qed

text \<open>
  C37: What the entry points answer: the factory gives an editor, which has a widget and has sent
  no signal, or an error, never both or neither; Apply succeeds exactly for a connection with a
  VPN setting whose required fields are filled in, and a refused connection is left as it was.
  But the refusals for a NULL connection and for a missing VPN setting set no error.
\<close>

theorem editor_entry_points:
  assumes "nm_vpn_editor_factory_openvpn3 env connection (Some None) = (editor, error)"
    and "editor_reach env connection may fss ob" and "eo_live ob"
    and "iface_update_connection ob con (Some None) = (ok, con', error')"
  shows "(editor = None) = (error \<noteq> Some None)
    \<and> pred_option (\<lambda>ed. iface_get_widget ed = gk_page env \<and> eo_log ed = []) editor
    \<and> ok = (\<exists>c. con = Some (Some c) \<and> validate_required_fields (selected_id (st_contype (eo_state ob)))
          (st_remote (eo_state ob)) (st_ca (eo_state ob)) (st_cert (eo_state ob)) (st_key (eo_state ob))
          (st_username (eo_state ob)) (st_static_key (eo_state ob)) = None)
    \<and> (ok \<or> con' = con) \<and> (error' = Some None) = (ok \<or> con \<in> {None, Some None})"
proof -
  have f: "(editor = None) = (error \<noteq> Some None)"
    using assms(1)
    by (auto simp: nm_vpn_editor_factory_openvpn3_def new_editor_def Let_def split: option.splits if_splits)
  have "pred_option (\<lambda>ed. iface_get_widget ed = gk_page env \<and> eo_log ed = []) editor"
  proof (cases editor)
    case (Some ed)
    from assms(1) [unfolded Some] obtain data where
      "ed = fold (refresh_path_validity (gk_is_file env)) path_pickers (new_object env (connection_to_nm_data data))"
      by (rule new_editor_opens)
    then have "eo_boxed ed" "eo_page ed = gk_page env" "eo_log ed = []"
      by (simp_all add: fold_refresh new_object_def apply_contype_visibility_def Let_def)
    then show ?thesis by (simp add: Some iface_get_widget_def)
  qed simp
  moreover have "eo_boxed ob" using reach_ok [OF assms(2)] assms(3) by (simp add: gate_ok_def)
  ultimately show ?thesis
    using f assms(4)
    by (auto simp: iface_update_connection_def update_connection_def Let_def split: option.splits)
qed

section \<open>What a session can save\<close>

lemma step_plain:
  assumes "editor_step gtk_edit fs ob ob'" and "rows_plain (eo_state ob)" and "eo_live ob'" and "gate_ok ob"
  shows "rows_plain (eo_state ob')"
  using assms(1)
proof (cases rule: editor_step_cases)
  case (edit forced ed)
  then show ?thesis using assms(2) by (simp add: on_edit_state rows_plain_edit)
qed (use assms in \<open>simp_all add: gate_ok_def\<close>)

lemma step_live:
  assumes "editor_step may fs ob ob'" and "gate_ok ob" and "eo_live ob'"
  shows "eo_live ob"
  using assms(1) by (cases rule: editor_step_cases) (use assms in \<open>auto simp: gate_ok_def\<close>)

lemma session_plain:
  assumes "editor_reach env (Some calls) gtk_edit fss ob" and "eo_live ob" and "spin_bounded (gk_spin env)"
    and "\<And>k v. connection_to_nm_data calls k = Some v \<Longrightarrow> \<not> has_nul v"
  shows "rows_plain (eo_state ob)"
  using assms(1,2)
proof induction
  case (Open error ob error')
  from Open(1) obtain con where c: "Some calls = Some con" "gk_object env \<noteq> 0"
    "ob = fold (refresh_path_validity (gk_is_file env)) path_pickers (new_object env (connection_to_nm_data con))"
    by (rule new_editor_opens)
  with new_object_ok(6) [OF c(2)] have "eo_state ob = build_widget_tree (gk_spin env) (connection_to_nm_data calls)"
    by (simp add: fold_refresh)
  then show ?case using built_rows_plain [OF assms(3,4)] by simp
next
  case (Step ob fs ob')
  then show ?case using step_plain step_live reach_ok by blast
qed

section \<open>A session on an example\<close>

definition example_gtk :: gtk_env where
  "example_gtk =
     \<lparr>gk_initialized = True, gk_init = None, gk_adw_init = None, gk_object = 4096, gk_page = 8192,
      gk_spin = gtk_spin, gk_is_file = (\<lambda>p. p = ''/ca.pem'')\<rparr>"

definition c_items :: "(str \<times> str) list \<Rightarrow> (c_str \<times> c_str) list" where
  "c_items xs = map (\<lambda>(k, v). (Some (Some k), Some (Some v))) xs"

definition example_items :: "(str \<times> str) list" where
  "example_items =
     [(''connection-type'', ''password''), (''remote'', ''vpn:443''), (''ca'', ''/ca.pem''), (''username'', ''u''),
      (''ta'', ''/gone'')]"

definition example_editor :: editor_object where
  "example_editor = fold (refresh_path_validity (gk_is_file example_gtk)) path_pickers
     (new_object example_gtk (map_of example_items))"

lemma example_opens:
  "nm_vpn_editor_factory_openvpn3 example_gtk (Some (Some (c_items example_items))) error
    = (Some example_editor, error)"
proof -
  have "connection_to_nm_data (Some (c_items example_items)) = map_of example_items"
    unfolding c_items_def by (rule connection_to_nm_data_reads) (simp add: example_items_def)
  then show ?thesis
    by (simp add: nm_vpn_editor_factory_openvpn3_def new_editor_def example_gtk_def example_editor_def Let_def)
qed

lemmas example_reach = editor_reach.Open [OF example_opens, of gtk_edit]

lemma example_editor_facts:
  "eo_live example_editor" "eo_state example_editor = build_widget_tree gtk_spin (map_of example_items)"
  using new_editor_ok(4) [OF example_opens] new_object_ok(6) [of example_gtk "map_of example_items"]
  by (simp_all add: example_editor_def fold_refresh) (simp add: example_gtk_def)

lemma example_contype: "selected_id (st_contype (eo_state example_editor)) = ''password''"
  unfolding example_editor_facts(2) by (rule reopened_contype) (simp_all add: example_items_def)

lemma example_valid:
  "validate_required_fields (selected_id (st_contype (eo_state example_editor)))
     (st_remote (eo_state example_editor)) (st_ca (eo_state example_editor)) (st_cert (eo_state example_editor))
     (st_key (eo_state example_editor)) (st_username (eo_state example_editor))
     (st_static_key (eo_state example_editor)) = None"
  unfolding example_contype
  unfolding example_editor_facts(2) built_required
  by (simp add: validate_required_fields_def initial_text_def example_items_def)

lemma changed_only_while_live_witness:
  "let ob = instance_finalize (\<lambda>_. False) [(True, Toggle SW_or_dco True)] True (example_editor\<lparr>eo_live := False\<rparr>);
       ob' = on_edit (\<lambda>_. False) (True, Toggle SW_or_dco False) ob
   in eo_log ob' = eo_log ob \<and> \<not> eo_live ob'"
proof -
  let ?fs = "\<lambda>_ :: str. False"
  let ?ob = "instance_finalize ?fs [(True, Toggle SW_or_dco True)] True (example_editor\<lparr>eo_live := False\<rparr>)"
  have e: "editor_reach example_gtk (Some (Some (c_items example_items))) gtk_edit UNIV example_editor"
    by (rule example_reach)
  have "editor_step gtk_edit ?fs example_editor ?ob" by (rule editor_step.Finalize) (rule example_editor_facts(1))
  with e have r: "editor_reach example_gtk (Some (Some (c_items example_items))) gtk_edit UNIV ?ob"
    by (rule editor_reach.Step [OF _ UNIV_I])
  have "eo_boxed example_editor" using reach_ok [OF e] example_editor_facts(1) by (simp add: gate_ok_def)
  then have "\<not> eo_live ?ob" by simp
  moreover have "editor_step gtk_edit ?fs ?ob (on_edit ?fs (True, Toggle SW_or_dco False) ?ob)"
    by (rule editor_step.Edit) simp
  ultimately show ?thesis using changed_only_while_live [OF r] by (simp add: Let_def)
qed


lemma edits_announced_witness:
  "eo_log (on_edit (\<lambda>_. True) (False, Type_Text EN_remote ''new:443'') example_editor) = eo_log example_editor @ [True]"
proof (rule edits_announced [OF example_reach example_editor_facts(1)])
  have b: "eo_rows example_editor"
    using reach_ok [OF example_reach] example_editor_facts(1) by (simp add: gate_ok_def)
  have r: "st_remote (eo_state example_editor) = ''vpn:443''"
    unfolding example_editor_facts(2) built_required by (simp add: initial_text_def example_items_def)
  have "update_calls st ! 1 = Set ''remote'' (st_remote st)" for st by (simp add: update_calls_def Let_def)
  then show "update_calls (eo_state (on_edit (\<lambda>_. True) (False, Type_Text EN_remote ''new:443'') example_editor))
      \<noteq> update_calls (eo_state example_editor)"
    using b r by (auto simp: on_edit_state dest!: arg_cong [where f = "\<lambda>cs. cs ! 1"])
qed

lemma editor_entry_points_witness:
  "iface_get_widget example_editor = 8192
   \<and> fst (iface_update_connection example_editor (Some (Some edited_connection)) (Some None))
   \<and> iface_update_connection example_editor (Some None) (Some None) = (False, Some None, Some None)"
proof -
  obtain ok con' e where a: "iface_update_connection example_editor (Some (Some edited_connection)) (Some None) = (ok, con', e)"
    by (cases rule: prod_cases3)
  obtain ok2 con2 e2 where b: "iface_update_connection example_editor (Some None) (Some None) = (ok2, con2, e2)"
    by (cases rule: prod_cases3)
  note ex = editor_entry_points [OF example_opens example_reach example_editor_facts(1)]
  from ex [OF a] example_valid have "iface_get_widget example_editor = gk_page example_gtk" "ok" by auto
  moreover from ex [OF b] have "\<not> ok2 \<and> con2 = Some None \<and> e2 = Some None" by auto
  ultimately show ?thesis using a b by (simp add: example_gtk_def)
qed

end
