(* ===== verification/Spec2Isabelle.thy ===== *)
theory Spec2Isabelle
  imports Export_Tests Profile_Tests Module_Tests Agreement_Check Nm_Roundtrip Cross_Emitter Status Settings Ip4
    Client Throughput Plugin_Scenarios Service_Main Users Auth_Dialog Bridge Editor Editor_Plugin Library_Entry
    Editor_Widgets Editor_Session
begin

text \<open>
  A verification development for nm-openvpn3, the NetworkManager plugin for OpenVPN 3.

  The program.  NetworkManager starts the service (\<open>nm-openvpn3-service\<close>) and calls it over
  D-Bus: Connect, Disconnect, NewSecrets, NeedSecrets.  The service turns the connection's
  settings dictionary into an OpenVPN profile, imports it into openvpn3, creates a session,
  watches it with a signal listener, a poller, a statistics timer and an attention listener,
  and reports state, addresses and failures back.  When secrets are missing NetworkManager
  runs the auth dialog (\<open>nm-openvpn3-auth-dialog\<close>), which describes the prompts.  The editor
  side (\<open>nm-openvpn3-properties\<close>, \<open>nm-openvpn3-editor\<close>) imports and exports \<open>.ovpn\<close> files
  and edits a connection's \<open>vpn.data\<close> in widgets.

  Theories, in the order of the code's dependencies.
    \<^item> \<open>Prelude\<close>: strings, the parts of Rust's \<open>str\<close> and integer parsing that the program
      uses, the collections of simplification rules, lemmas on splitting and on decimal
      numerals.
    \<^item> \<open>Line_Codec\<close>: \<open>build_profile.rs::push_escaped\<close>, its \<open>Writer\<close>, and
      \<open>import_export.rs::tokenize\<close>; the locale \<open>word_codec\<close> states that a tokenizer reads
      back the words an escaper wrote, and holds for both escapers.
    \<^item> \<open>Build_Profile\<close>: \<open>build_profile.rs\<close>, one definition per block of
      \<open>build_profile_string\<close>, with the list of entries that the text spells out.
    \<^item> \<open>Import_Export\<close>: the parser, the validator and the emitter of \<open>import_export.rs\<close>;
      what survives a round trip and what does not.
    \<^item> \<open>Nm_Data\<close>, \<open>Nm_Roundtrip\<close>: \<open>from_nm_data\<close> and \<open>as_nm_data\<close> and which settings survive
      export followed by import.
    \<^item> \<open>Cross_Emitter\<close>: no profile the service generates can contain a directive smuggled in
      through the settings; the two emitters agree; the helpers that the two crates
      duplicate are equal.
    \<^item> \<open>Status\<close>: \<open>state.rs\<close> and \<open>status.rs\<close>.
    \<^item> \<open>Settings\<close>: \<open>connection.rs\<close> and \<open>secrets.rs\<close>, with the variant conversions as a
      record of functions.
    \<^item> \<open>Ip4\<close>: \<open>routes.rs\<close> and \<open>ip4.rs\<close>, on 32-bit words; what the emission reads is the
      record \<open>ip4_env\<close>.
    \<^item> \<open>Client\<close>: \<open>ovpn3-client\<close>; a bus operation is a state transformer, the locale
      \<open>dispatch\<close> states which errors prove that a call was not delivered, and its
      interpretation is a bus that counts deliveries.
    \<^item> \<open>Plugin\<close>: \<open>plugin.rs\<close> and \<open>connect_coord.rs\<close>.  Each handler and each background task
      is a state machine whose counter names an await point; a step is the code between
      two await points.  \<open>Plugin_Run\<close> interleaves them (dispatch, run, last step and reap of
      an aborted task) and proves the lock and task invariants; \<open>Plugin_Safety\<close>,
      \<open>Plugin_Failure\<close> and \<open>Plugin_Calls\<close> derive the safety properties from one-step effect
      lemmas; \<open>Plugin_Scenarios\<close> evaluates two whole runs.
    \<^item> \<open>Service_Main\<close>: \<open>main.rs\<close> of the service.  Start-up, and the wait for a signal or for the quit
      message around the transition system: the process ends by itself only with nothing left at
      openvpn3.
    \<^item> \<open>Users\<close>: \<open>username_to_uid\<close> of \<open>plugin.rs\<close>, the buffer loop over \<open>getpwnam_r\<close>; who is granted
      access to the session.
    \<^item> \<open>Auth_Dialog\<close>: \<open>nm-openvpn3-auth-dialog/src/main.rs\<close>.  The stream libnm writes is read
      back; the hints the service sends are understood; no text can add a line to the answer.
    \<^item> \<open>Bridge\<close>: \<open>bridge.rs\<close>, import and export of a connection with the files they read and
      write; paths are strings under the component rules of \<open>std::path\<close>.  Imported key
      material stays in the private directory, export is atomic, an exported file can be
      imported again.
    \<^item> \<open>Editor_Plugin\<close>: \<open>plugin.rs\<close> of the properties library, the entry points over the bridge.
      Exporting to a file and importing it gives back the settings; the editor module is never
      loaded from the working directory.
    \<^item> \<open>Editor\<close>: \<open>editor.rs\<close>, the values the widgets hold, how they are filled from
      \<open>vpn.data\<close> and written back.  \<open>f64\<close> parsing is computed on rationals with the rounding of
      the format.  What the editor saves it shows again unchanged.
    \<^item> \<open>Library_Entry\<close>: \<open>ffi.rs\<close>, \<open>set_error\<close> of \<open>libnm.rs\<close>, the plugin's metadata and
      \<open>connection_to_nm_data\<close>.  A libnm before 1.30 is refused.
    \<^item> \<open>Editor_Widgets\<close>: the settings page row by row, an id for each input row, and what GTK lets
      into it; the page is what \<open>build_widget_tree\<close> fills.
    \<^item> \<open>Editor_Session\<close>: \<open>new_editor\<close>, the factory of \<open>nm-openvpn3-editor/src/lib.rs\<close>, the signal
      handlers and \<open>instance_finalize\<close> as a step relation on an editor object: which rows are
      visible, which paths are marked, and when the host is told of a change.
    \<^item> \<open>Throughput\<close>: \<open>byte_rate\<close> and the readings of the stats timer of \<open>plugin.rs\<close>: what each
      logged rate compares.
    \<^item> \<open>Agreement_Check\<close>: \<open>cross_emitter_agreement.rs\<close> and \<open>tests/fixtures_round_trip.rs\<close> with its
      files.  The agreement check passes on every comparable input, the fixture suite on every set
      of files whose parse holds no empty blob.
    \<^item> \<open>Test_Kit\<close>, \<open>Export_Tests\<close>, \<open>Profile_Tests\<close>, \<open>Module_Tests\<close>: the messages of the errors, and
      the repository's unit tests, one definition per test with its inputs and assertions; each
      suite is proved to pass, which checks the model against behaviour the code is tested for.
    \<^item> \<open>Spec2Isabelle\<close> (below): the editor and the service together.  A saved connection yields
      a profile, and the overrides set in the editor are the calls the service makes;
      \<open>editor_session_saves\<close> follows a session from the opened dialog to openvpn3.

  Bounds.  Times are counters: the readiness loop of \<open>session_wait_ready\<close> takes the clock's
  increments from its environment and terminates by the deadline; the poller's tick and
  error counters are natural numbers, and \<open>poller_gives_up\<close> bounds them below the code's
  32-bit range while the tunnel is not up.  Handlers need no fuel: they are
  steps, and \<open>handlers_terminate\<close> gives their measure.  The fuel of the dialog's
  \<open>replace_str\<close> is the length of the text: one unit is used per character or match.  The loop of
  \<open>username_to_uid\<close> is a partial function; \<open>uid_lookup_terminates\<close> shows that it returns.

  Conventions.  A character stands for a Unicode scalar value up to U+00FF.  Log output
  is left out but for the rates of the stats timer.  \<open>Zeroizing\<close> is the identity.  Errors are
  constructors; \<open>Test_Kit\<close> gives the messages of the importer and of the profile builder.  One await
  point is atomic: the two signals of the Ip4 emission and the reads before them are one
  step of a watcher, and a step of the poller that sleeps is one tick.

  Parameters and what is asked of them.  The editor takes GTK's treatment of a value that is
  set in a spin row; \<open>spin_holds\<close> asks that a whole number within the bounds is kept.  The
  dialog takes the message catalogue and the key files' bytes.  The bridge takes the file
  system, base64 and the allocation of the connection (\<open>bridge_env\<close>); a failing system call
  of the export is a flag of \<open>write_plan\<close>.  The service takes the answers of openvpn3.

  GTK in the editor session: rows are edited in any order; the spin rows' clamping, whether GTK
  notifies of an edit that changes nothing (\<open>forced\<close>), what is notified while widgets are dropped
  (\<open>noise\<close>) and what the file system says are arbitrary; \<open>gtk_edit\<close> says which values a row can
  hold.  \<open>passwd\<close> is the documented behaviour of \<open>getpwnam_r\<close> on a database.

  Not modelled: argument parsing and logging of the service, the zbus dispatch and the marshalling
  of signals, the foreign declarations of \<open>libnm.rs\<close> and the GType registrations, the hints,
  tooltips and expander texts of the editor, the generated D-Bus proxies and the getters that
  return one of their properties, and the tests that need a file system or a display (those of
  \<open>bridge.rs\<close> and of the editor's library).  \<open>getifaddrs\<close> and the resolver are
  parameters.
\<close>

section \<open>The editor and the service\<close>

lemma parse_i64_show:
  assumes "0 \<le> n" and "n \<le> 9223372036854775807"
  shows "parse_i64 (show_int n) = Some n"
proof -
  have "show_int n \<noteq> ''+''" "show_int n \<noteq> ''-''" "hd (show_int n) \<noteq> CHR ''+''" "hd (show_int n) \<noteq> CHR ''-''"
    using show_int_digits [OF assms(1)] not_digits by (auto simp: neq_Nil_conv)
  then show ?thesis
    using show_nonneg_props(1) [OF assms(1)] show_int_digits(1) [OF assms(1)] assms
    by (simp add: parse_i64_def show_int_def)
qed

lemma as_i64_max: "as_i64 v \<le> 9223372036854775807"
  by (cases v) auto

lemma get_stored:
  assumes "data k = stored v"
  shows "get data k = stored v"
  using assms by (auto simp: get_def arg_is_set_def stored_def nonempty_def)

lemma int_ok_saved:
  assumes "data k = stored (int_or_empty (as_i64 x))"
  shows "int_ok data k"
  using get_stored [of data k, OF assms] parse_i64_show [OF _ as_i64_max [of x]]
  by (auto simp: int_ok_def stored_def int_or_empty_def)

lemma mssfix_ok_saved:
  assumes "data ''mssfix'' = stored (mssfix_value st)"
  shows "mssfix_ok data"
  using get_stored [of data "''mssfix''", OF assms] parse_i64_show [OF _ as_i64_max [of "st_mssfix_bytes st"]]
  by (auto simp: mssfix_ok_def stored_def mssfix_value_def Let_def split: if_splits)

lemma saved_builds:
  assumes "widgets_ok st" and "update_connection st con = Inr con'"
  shows "(\<exists>txt. build_profile_string (vpn_items con') secrets = Inr txt)
    \<and> list_all (int_ok (vpn_items con'))
        [''port'', ''tunnel-mtu'', ''fragment-size'', ''ping'', ''ping-restart'', ''reneg-seconds'',
         ''connect-timeout'', ''keysize'']
    \<and> mssfix_ok (vpn_items con')"
proof -
  note con' = apply_inr(1) [OF assms(2)]
  have saved: "\<forall>(k, v) \<in> set (sets (update_calls st)). vpn_items con' k = stored v"
    using saved_items by (auto simp: con')
  note s = saved [unfolded update_calls_def Let_def sets.simps list.set ball_simps split_conv]
  have plain: "\<forall>(k, v) \<in> set (sets (update_calls st)). \<not> has_nul v"
    using assms(1) by (auto simp: widgets_ok_def list_all_iff)
  have r: "(''remote'', st_remote st) \<in> set (sets (update_calls st))" by (simp add: update_calls_def Let_def)
  have "st_remote st \<noteq> []"
    using apply_inr(2) [OF assms(2)] by (auto simp: validate_required_fields_def split: if_splits)
  then have "vpn_items con' ''remote'' = Some (st_remote st)"
    using bspec [OF saved r] bspec [OF plain r] by (simp add: stored_def)
  then have "get (vpn_items con') ''remote'' = Some (st_remote st)"
    using \<open>st_remote st \<noteq> []\<close> by (simp add: get_def arg_is_set_def nonempty_def)
  then have "\<exists>txt. build_profile_string (vpn_items con') secrets = Inr txt"
    by (simp add: build_profile_text)
  moreover have "list_all (int_ok (vpn_items con'))
      [''port'', ''tunnel-mtu'', ''fragment-size'', ''ping'', ''ping-restart'', ''reneg-seconds'',
       ''connect-timeout'', ''keysize'']"
    using s by (simp add: int_ok_saved)
  moreover have "mssfix_ok (vpn_items con')" using s by (intro mssfix_ok_saved) blast
  ultimately show ?thesis by blast
qed

text \<open>
  Whatever the editor saves, the service can connect with: the profile builder finds
  its gateway and produces a profile, and every number the editor wrote is one both
  emitters write the same way.
\<close>

theorem saved_connection_builds:
  assumes "widgets_ok st" and "update_connection st con = Inr con'"
  shows "(\<exists>txt. build_profile_string (vpn_items con') secrets = Inr txt)
    \<and> list_all (int_ok (vpn_items con'))
        [''port'', ''tunnel-mtu'', ''fragment-size'', ''ping'', ''ping-restart'', ''reneg-seconds'',
         ''connect-timeout'', ''keysize'']
    \<and> mssfix_ok (vpn_items con')"
  by (rule saved_builds [OF assms])

lemma saved_connection_builds_witness:
  "\<exists>con' txt. update_connection (build_widget_tree gtk_spin edited_items) edited_connection = Inr con'
     \<and> build_profile_string (vpn_items con') Map.empty = Inr txt"
  using edited_state(3) saved_connection_builds [OF edited_state(1)] by blast

text \<open>The overrides the switches and the log-level row stand for.\<close>

definition widget_overrides :: "editor_state \<Rightarrow> (str \<times> override_value) list" where
  "widget_overrides st =
     (if st_or_route_nopull st then [(''route-nopull'', OV_True)] else [])
     @ (if st_or_force_default_gateway st then [(''force-default-gateway'', OV_True)] else [])
     @ (if st_or_block_ipv6 st then [(''block-ipv6'', OV_True)] else [])
     @ (if st_or_dns_setup_disabled st then [(''dns-setup-disabled'', OV_True)] else [])
     @ (if st_or_dco st then [(''dco'', OV_True)] else [])
     @ (if 0 < as_i64 (st_or_log_level st)
        then [(''log-level'', OV_Str (show_int (as_i64 (st_or_log_level st))))] else [])"

lemma saved_overrides:
  assumes "widgets_ok st" and "update_connection st con = Inr con'"
  shows "override_calls (vpn_items con') = widget_overrides st"
proof -
  note con' = apply_inr(1) [OF assms(2)]
  have saved: "\<forall>(k, v) \<in> set (sets (update_calls st)). vpn_items con' k = stored v"
    using saved_items by (auto simp: con')
  note s = saved [unfolded update_calls_def Let_def sets.simps list.set ball_simps split_conv]
  define n where "n = as_i64 (st_or_log_level st)"
  have level: "(case vpn_items con' ''override-log-level'' of
          None \<Rightarrow> []
        | Some level \<Rightarrow>
            if level \<noteq> [] \<and> level \<noteq> ''0'' then
              (case parse_u8 level of
                 Some n \<Rightarrow> if 1 \<le> n \<and> n \<le> 6 then [(''log-level'', OV_Str level)] else []
               | None \<Rightarrow> [])
            else []) = (if 0 < n then [(''log-level'', OV_Str (show_int n))] else [])"
  proof (cases "0 < n")
    case True
    have "n \<le> 6" using assms(1) by (simp add: widgets_ok_def n_def)
    have p: "parse_u8 (show_int n) = Some n" using True \<open>n \<le> 6\<close> by (simp add: parse_u8_def parse_show)
    have "parse_u8 ''0'' = Some 0" by code_simp
    with p True have "show_int n \<noteq> ''0''" by auto
    moreover have "vpn_items con' ''override-log-level'' = stored (show_int n)"
      using s True by (simp add: int_or_empty_def n_def)
    then have "vpn_items con' ''override-log-level'' = Some (show_int n)"
      using has_nul_int [of n] True show_int_digits(1) [of n] by (simp add: stored_def int_or_empty_def)
    ultimately show ?thesis using p True \<open>n \<le> 6\<close> show_int_digits(1) [of n] by simp
  next
    case False
    then have "vpn_items con' ''override-log-level'' = None"
      using s by (simp add: int_or_empty_def n_def stored_def)
    with False show ?thesis by simp
  qed
  show ?thesis
    unfolding override_calls_def level
    using s by (simp add: widget_overrides_def OVERRIDE_BOOLS_def stored_switch n_def)
qed

text \<open>
  The overrides the user sets in the editor are the ones the service sends: after
  Apply, \<open>apply_overrides\<close> makes exactly the \<open>SetOverride\<close> calls of the switches that are on,
  and the log level of its row.
\<close>

theorem editor_overrides_sent:
  assumes "widgets_ok st" and "update_connection st con = Inr con'"
  shows "override_calls (vpn_items con') = widget_overrides st"
  by (rule saved_overrides [OF assms])

lemma editor_overrides_sent_witness:
  "\<exists>con'. update_connection (build_widget_tree gtk_spin edited_items) edited_connection = Inr con'
     \<and> override_calls (vpn_items con') = widget_overrides (build_widget_tree gtk_spin edited_items)"
  using edited_state(3) editor_overrides_sent [OF edited_state(1)] by blast

text \<open>
  The saved numbers are comparable; what remains of \<open>emitters_comparable\<close> is about the items the
  editor does not own and about a PKCS#12 bundle that is not in all three slots.
\<close>

definition foreign_items_comparable :: "dict \<Rightarrow> bool" where
  "foreign_items_comparable data \<longleftrightarrow> int_ok data ''max-routes'' \<and> int_ok data ''ping-exit''
     \<and> (connect_collapse data \<longrightarrow> get data ''ca'' = get data ''cert'')"

lemma saved_comparable:
  assumes "widgets_ok st" and "update_connection st con = Inr con'"
  shows "emitters_comparable (vpn_items con') = foreign_items_comparable (vpn_items con')"
  using saved_builds [OF assms] by (auto simp: emitters_comparable_def foreign_items_comparable_def INT_KEYS_def)



text \<open>
  The service claims the bus name that the plugin advertises as its service type and that the
  dialog accepts.
\<close>

theorem service_names_agree:
  "get_property 3 = Some (arg_bus_name default_args) \<and> arg_bus_name default_args = NM_SERVICE"
  by (simp add: get_property_def NM_VPN_SERVICE_TYPE_OPENVPN3_def default_args_def NM_SERVICE_def)

end
